(* ===== verification/Prelude.thy ===== *)
theory Prelude
  imports Main "HOL-Library.Word"
begin

text \<open>
  Shared vocabulary of the development: machine integers, byte buffers, the outcome of a
  Rust call (a value, an error, or a panic), the outcome of a poll, UTF-8, and the
  saturating and checked arithmetic of the Rust standard library.

  A buffer (\<open>Bytes\<close>, \<open>BytesMut\<close>, \<open>Vec<u8>\<close>, \<open>&[u8]\<close>) is the list of its bytes. A read
  that takes bytes from the front returns what is left; reading past the end panics, as the
  accessors of \<open>Buf\<close> are documented to do. A Rust \<open>String\<close> is the list of its UTF-8 bytes.
  \<open>usize\<close> is \<open>nat\<close>: the program runs on targets whose \<open>usize\<close> has 32 bits or more, so that
  \<open>usize::try_from(u32)\<close> never fails.
\<close>

unbundle bit_operations_syntax

named_theorems codec_simps "unfolding rules of the byte-level codecs"
named_theorems res_simps "evaluation of outcomes"

type_synonym u8 = "8 word"
type_synonym u16 = "16 word"
type_synonym u32 = "32 word"
type_synonym u64 = "64 word"
type_synonym bytes = "u8 list"
type_synonym rstring = bytes

section \<open>Outcomes\<close>

text \<open>\<open>Result<T, E>\<close> of a call that may also panic.\<close>

datatype ('a, 'e) res = Ok 'a | Err 'e | Panic

fun res_bind :: "('a, 'e) res \<Rightarrow> ('a \<Rightarrow> ('b, 'e) res) \<Rightarrow> ('b, 'e) res" where
  "res_bind (Ok x) f = f x"
| "res_bind (Err e) f = Err e"
| "res_bind Panic f = Panic"

fun map_err :: "('e \<Rightarrow> 'f) \<Rightarrow> ('a, 'e) res \<Rightarrow> ('a, 'f) res" where
  "map_err g (Ok x) = Ok x"
| "map_err g (Err e) = Err (g e)"
| "map_err g Panic = Panic"

text \<open>\<open>Option::ok_or\<close>.\<close>

definition ok_or :: "'a option \<Rightarrow> 'e \<Rightarrow> ('a, 'e) res" where
  "ok_or x e = (case x of None \<Rightarrow> Err e | Some v \<Rightarrow> Ok v)"

fun is_ok :: "('a, 'e) res \<Rightarrow> bool" where
  "is_ok (Ok x) = True"
| "is_ok (Err e) = False"
| "is_ok Panic = False"

text \<open>\<open>Poll<T>\<close>.\<close>

datatype 'a poll = Ready 'a | Pending

section \<open>Byte buffers\<close>

fun get_u8 :: "bytes \<Rightarrow> (u8 \<times> bytes, 'e) res" where
  "get_u8 (b # r) = Ok (b, r)"
| "get_u8 [] = Panic"

definition put_u8 :: "u8 \<Rightarrow> bytes" where
  "put_u8 w = [w]"

definition put_u16_le :: "u16 \<Rightarrow> bytes" where
  "put_u16_le w = [ucast w, ucast (drop_bit 8 w)]"

definition put_u32_le :: "u32 \<Rightarrow> bytes" where
  "put_u32_le w =
     [ucast w, ucast (drop_bit 8 w), ucast (drop_bit 16 w), ucast (drop_bit 24 w)]"

definition put_u32_be :: "u32 \<Rightarrow> bytes" where
  "put_u32_be w = rev (put_u32_le w)"

fun get_u16_le :: "bytes \<Rightarrow> (u16 \<times> bytes, 'e) res" where
  "get_u16_le (a # b # r) = Ok (ucast a OR push_bit 8 (ucast b), r)"
| "get_u16_le _ = Panic"

fun get_u32_le :: "bytes \<Rightarrow> (u32 \<times> bytes, 'e) res" where
  "get_u32_le (a # b # c # d # r) =
     Ok (ucast a OR push_bit 8 (ucast b) OR push_bit 16 (ucast c) OR push_bit 24 (ucast d), r)"
| "get_u32_le _ = Panic"

text \<open>\<open>split_to\<close> and \<open>advance\<close> panic beyond the end of the buffer.\<close>

definition split_to :: "nat \<Rightarrow> bytes \<Rightarrow> (bytes \<times> bytes, 'e) res" where
  "split_to n bs = (if n \<le> length bs then Ok (take n bs, drop n bs) else Panic)"

definition advance :: "nat \<Rightarrow> bytes \<Rightarrow> (bytes, 'e) res" where
  "advance n bs = (if n \<le> length bs then Ok (drop n bs) else Panic)"

text \<open>The bytes of an ASCII literal.\<close>

definition ascii :: "string \<Rightarrow> bytes" where
  "ascii s = map of_char s"

section \<open>UTF-8\<close>

text \<open>
  Well-formed UTF-8 byte sequences, by the table of the Unicode standard that
  \<open>core::str::from_utf8\<close> implements: one to four bytes per scalar value, no overlong
  form, no surrogate, nothing above U+10FFFF.
\<close>

definition utf8_cont :: "u8 \<Rightarrow> bool" where
  "utf8_cont b = (0x80 \<le> b \<and> b \<le> 0xBF)"

fun utf8_valid :: "bytes \<Rightarrow> bool" where
  "utf8_valid [] = True"
| "utf8_valid (a # r) =
    (if a \<le> 0x7F then utf8_valid r
     else if 0xC2 \<le> a \<and> a \<le> 0xDF then
       (case r of b # r' \<Rightarrow> utf8_cont b \<and> utf8_valid r' | _ \<Rightarrow> False)
     else if 0xE0 \<le> a \<and> a \<le> 0xEF then
       (case r of b # c # r' \<Rightarrow>
          (if a = 0xE0 then 0xA0 \<le> b \<and> b \<le> 0xBF
           else if a = 0xED then 0x80 \<le> b \<and> b \<le> 0x9F else utf8_cont b)
          \<and> utf8_cont c \<and> utf8_valid r' | _ \<Rightarrow> False)
     else if 0xF0 \<le> a \<and> a \<le> 0xF4 then
       (case r of b # c # d # r' \<Rightarrow>
          (if a = 0xF0 then 0x90 \<le> b \<and> b \<le> 0xBF
           else if a = 0xF4 then 0x80 \<le> b \<and> b \<le> 0x8F else utf8_cont b)
          \<and> utf8_cont c \<and> utf8_cont d \<and> utf8_valid r' | _ \<Rightarrow> False)
     else False)"

section \<open>Integer arithmetic of the standard library\<close>

definition u32_saturating_add :: "u32 \<Rightarrow> u32 \<Rightarrow> u32" where
  "u32_saturating_add a b = (if unat a + unat b < 2 ^ 32 then a + b else 0xFFFFFFFF)"

definition u32_saturating_sub :: "u32 \<Rightarrow> u32 \<Rightarrow> u32" where
  "u32_saturating_sub a b = (if b \<le> a then a - b else 0)"

definition u32_checked_add :: "u32 \<Rightarrow> u32 \<Rightarrow> u32 option" where
  "u32_checked_add a b = (if unat a + unat b < 2 ^ 32 then Some (a + b) else None)"

section \<open>Lemmas on outcomes\<close>

lemma res_bind_eq_Ok [simp]:
  "(res_bind r f = Ok y) \<longleftrightarrow> (\<exists>x. r = Ok x \<and> f x = Ok y)"
  by (cases r) auto

lemma res_bind_eq_Panic [simp]:
  "(res_bind r f = Panic) \<longleftrightarrow> r = Panic \<or> (\<exists>x. r = Ok x \<and> f x = Panic)"
  by (cases r) auto

lemma res_bind_eq_Err:
  "(res_bind r f = Err e) \<longleftrightarrow> r = Err e \<or> (\<exists>x. r = Ok x \<and> f x = Err e)"
  by (cases r) auto

lemma res_bind_assoc: "res_bind (res_bind r f) g = res_bind r (\<lambda>x. res_bind (f x) g)"
  by (cases r) auto

lemma map_err_eq [simp]:
  "map_err g r = Ok x \<longleftrightarrow> r = Ok x"
  "map_err g r = Panic \<longleftrightarrow> r = Panic"
  "map_err g r = Err e' \<longleftrightarrow> (\<exists>e. r = Err e \<and> g e = e')"
  by (cases r; auto)+

lemma ok_or_eq [simp]:
  "ok_or x e = Ok v \<longleftrightarrow> x = Some v"
  "ok_or x e = Err e' \<longleftrightarrow> x = None \<and> e' = e"
  "ok_or x e \<noteq> Panic"
  by (auto simp: ok_or_def split: option.splits)

lemma is_ok_iff: "is_ok r \<longleftrightarrow> (\<exists>x. r = Ok x)"
  by (cases r) auto

section \<open>Lemmas on buffers\<close>

lemma put_lengths [simp]:
  "length (put_u8 b) = 1" "length (put_u16_le h) = 2" "length (put_u32_le w) = 4"
  "length (put_u32_be w) = 4"
  by (simp_all add: put_u8_def put_u16_le_def put_u32_le_def put_u32_be_def)

lemma get_put_u8 [simp]: "get_u8 (put_u8 b @ r) = Ok (b, r)"
  by (simp add: put_u8_def)

lemma get_put_u16_le [simp]: "get_u16_le (put_u16_le w @ r) = Ok (w, r)"
proof -
  have "ucast (ucast w :: u8) OR push_bit 8 (ucast (ucast (drop_bit 8 w) :: u8)) = w"
    by (rule bit_word_eqI) (auto simp: bit_simps not_less)
  then show ?thesis by (simp add: put_u16_le_def)
qed

lemma get_put_u32_le [simp]: "get_u32_le (put_u32_le w @ r) = Ok (w, r)"
proof -
  have "ucast (ucast w :: u8) OR push_bit 8 (ucast (ucast (drop_bit 8 w) :: u8))
      OR push_bit 16 (ucast (ucast (drop_bit 16 w) :: u8))
      OR push_bit 24 (ucast (ucast (drop_bit 24 w) :: u8)) = w" (is "?l = w")
  proof (rule bit_word_eqI)
    fix n assume "n < LENGTH(32)"
    then consider "n < 8" | "8 \<le> n" "n < 16" | "16 \<le> n" "n < 24" | "24 \<le> n" "n < 32"
      by force
    then show "bit ?l n = bit w n"
      by cases (auto simp: bit_simps)
  qed
  then show ?thesis by (simp add: put_u32_le_def)
qed

lemma get_put_u16_le_nil [simp]: "get_u16_le (put_u16_le w) = Ok (w, [])"
  using get_put_u16_le [of w "[]"] by (simp only: append_Nil2)

lemma get_put_u32_le_nil [simp]: "get_u32_le (put_u32_le w) = Ok (w, [])"
  using get_put_u32_le [of w "[]"] by (simp only: append_Nil2)

lemma get_u8_eq_Ok [simp]: "get_u8 bs = Ok (b, r) \<longleftrightarrow> bs = b # r"
  by (cases bs) auto

lemma get_u8_eq_Panic [simp]: "get_u8 bs = Panic \<longleftrightarrow> bs = []"
  by (cases bs) auto

lemma get_u8_not_Err [simp]: "get_u8 bs \<noteq> Err e"
  by (cases bs) auto

lemma put_get_u16_le:
  assumes "get_u16_le bs = Ok (w, r)"
  shows "bs = put_u16_le w @ r"
proof -
  from assms obtain a b where bs: "bs = a # b # r"
    and w: "w = ucast a OR push_bit 8 (ucast b)"
    by (cases bs rule: get_u16_le.cases) auto
  have "ucast w = a" and "ucast (drop_bit 8 w) = b"
    unfolding w by (rule bit_word_eqI; auto simp: bit_simps dest: bit_imp_le_length)+
  with bs show ?thesis by (simp add: put_u16_le_def)
qed

lemma put_get_u32_le:
  assumes "get_u32_le bs = Ok (w, r)"
  shows "bs = put_u32_le w @ r"
proof -
  from assms obtain a b c d where bs: "bs = a # b # c # d # r"
    and w: "w = ucast a OR push_bit 8 (ucast b) OR push_bit 16 (ucast c) OR push_bit 24 (ucast d)"
    by (cases bs rule: get_u32_le.cases) auto
  have "ucast w = a" and "ucast (drop_bit 8 w) = b"
    and "ucast (drop_bit 16 w) = c" and "ucast (drop_bit 24 w) = d"
    unfolding w by (rule bit_word_eqI; auto simp: bit_simps dest: bit_imp_le_length)+
  with bs show ?thesis by (simp add: put_u32_le_def)
qed

lemma get_u16_le_eq_Ok: "get_u16_le bs = Ok (w, r) \<longleftrightarrow> bs = put_u16_le w @ r"
  by (auto dest: put_get_u16_le)

lemma get_u32_le_eq_Ok: "get_u32_le bs = Ok (w, r) \<longleftrightarrow> bs = put_u32_le w @ r"
  by (auto dest: put_get_u32_le)

lemma get_u16_le_not_Err [simp]: "get_u16_le bs \<noteq> Err e"
  by (cases bs rule: get_u16_le.cases) auto

lemma get_u32_le_not_Err [simp]: "get_u32_le bs \<noteq> Err e"
  by (cases bs rule: get_u32_le.cases) auto

lemma get_u16_le_eq_Panic [simp]: "get_u16_le bs = Panic \<longleftrightarrow> length bs < 2"
  by (cases bs rule: get_u16_le.cases) auto

lemma get_u32_le_eq_Panic [simp]: "get_u32_le bs = Panic \<longleftrightarrow> length bs < 4"
  by (cases bs rule: get_u32_le.cases) auto

lemma split_to_eq [simp]:
  "split_to n bs = Ok (a, r) \<longleftrightarrow> n \<le> length bs \<and> a = take n bs \<and> r = drop n bs"
  "split_to n bs = Panic \<longleftrightarrow> length bs < n"
  "split_to n bs \<noteq> Err e"
  by (auto simp: split_to_def)

lemma advance_eq [simp]:
  "advance n bs = Ok r \<longleftrightarrow> n \<le> length bs \<and> r = drop n bs"
  "advance n bs = Panic \<longleftrightarrow> length bs < n"
  "advance n bs \<noteq> Err e"
  by (auto simp: advance_def)

lemma put_u32_le_inject [simp]: "put_u32_le v = put_u32_le w \<longleftrightarrow> v = w"
proof
  assume "put_u32_le v = put_u32_le w"
  then have "get_u32_le (put_u32_le w @ []) = (Ok (v, []) :: (u32 \<times> bytes, unit) res)"
    by (metis get_put_u32_le)
  then show "v = w" by (simp only: get_put_u32_le res.inject prod.inject)
qed simp

lemma put_u32_be_0: "put_u32_be 0 = put_u32_le 0"
  by (simp add: put_u32_be_def put_u32_le_def)

section \<open>Lemmas on integers\<close>

lemma unat_saturating_add: "unat (u32_saturating_add a b) = min (unat a + unat b) (2 ^ 32 - 1)"
  by (auto simp: u32_saturating_add_def unat_word_ariths min_def)

lemma unat_saturating_sub: "unat (u32_saturating_sub a b) = unat a - unat b"
  by (auto simp: u32_saturating_sub_def unat_sub word_le_nat_alt)

lemma checked_add_eq_Some:
  "u32_checked_add a b = Some c \<longleftrightarrow> unat a + unat b < 2 ^ 32 \<and> c = a + b"
  by (auto simp: u32_checked_add_def)

lemma checked_add_unat: "u32_checked_add a b = Some c \<Longrightarrow> unat c = unat a + unat b"
  by (auto simp: u32_checked_add_def unat_word_ariths split: if_splits)

lemma u32_bound: "unat (w :: u32) < 2 ^ 32"
  using unsigned_less [of w] by simp

end
