(* ===== verification/Wisp_Types.thy ===== *)
theory Wisp_Types
  imports Prelude
begin

text \<open>
  The crate-wide types of \<open>wisp/src/lib.rs\<close> (protocol version, \<open>WispError\<close>, \<open>Role\<close>) and of
  \<open>wisp/src/ws/mod.rs\<close> (\<open>PayloadRef\<close>, \<open>next_erroring\<close>). The boxed \<open>dyn Error\<close> of
  \<open>WsImplError\<close> is opaque; the one of \<open>ExtensionImplError\<close> ranges over the errors the crate
  puts there.
\<close>

section \<open>lib.rs\<close>

record WispVersion =
  major :: u8
  minor :: u8

definition WISP_VERSION :: WispVersion where
  "WISP_VERSION = \<lparr>major = 2, minor = 0\<rparr>"

datatype CertAuthError = Ed25519Error | GetrandomError

datatype ImplError = FromUtf8Error | CertAuth CertAuthError

datatype WispError =
    InvalidStreamId u32
  | InvalidPacketType u8
  | PacketTooSmall
  | IncompatibleProtocolVersion WispVersion WispVersion
  | StreamAlreadyClosed
  | MaxStreamCountReached
  | Utf8
  | TryFromIntError
  | MuxMessageFailedToSend
  | MuxMessageFailedToRecv
  | MuxTaskEnded
  | MuxTaskStarted
  | WsImplError string
  | WsImplSocketClosed
  | ExtensionImplError ImplError
  | ExtensionImplNotSupported
  | ExtensionsNotSupported "u8 list"
  | PasswordExtensionCredsInvalid
  | PasswordExtensionNoCreds
  | CertAuthExtensionCertTypeInvalid
  | CertAuthExtensionSigInvalid
  | CertAuthExtensionNoKey

type_synonym 'a wres = "('a, WispError) res"

datatype Role = Server | Client

text \<open>\<open>String::from_utf8\<close> and \<open>str::from_utf8\<close>, with the error mapped by \<open>From\<close>.\<close>

definition from_utf8 :: "bytes \<Rightarrow> rstring wres" where
  "from_utf8 bs = (if utf8_valid bs then Ok bs else Err Utf8)"

section \<open>ws/mod.rs\<close>

datatype PayloadRef = Owned bytes | Borrowed bytes

fun into_owned :: "PayloadRef \<Rightarrow> bytes" where
  "into_owned (Owned x) = x"
| "into_owned (Borrowed x) = x"

fun PayloadRef_deref :: "PayloadRef \<Rightarrow> bytes" where
  "PayloadRef_deref (Owned x) = x"
| "PayloadRef_deref (Borrowed x) = x"

text \<open>
  A transport's read half is the list of items it will yield; \<open>next_erroring\<close> turns its end
  into an error.
\<close>

fun next_erroring :: "bytes wres list \<Rightarrow> (bytes \<times> bytes wres list) wres" where
  "next_erroring [] = Err WsImplSocketClosed"
| "next_erroring (r # rest) = res_bind r (\<lambda>x. Ok (x, rest))"

text \<open>
  A transport's write half is the list of messages it has sent, and what the underlying sink
  answers to the next one: \<open>None\<close> when it takes the message, or the error it fails with.
\<close>

record ws_write =
  ws_sent :: "bytes list"
  ws_accepts :: "bytes list \<Rightarrow> bytes \<Rightarrow> WispError option"

definition ws_send :: "bytes \<Rightarrow> ws_write \<Rightarrow> ws_write \<times> unit wres" where
  "ws_send m w = (case ws_accepts w (ws_sent w) m of
      None \<Rightarrow> (w\<lparr>ws_sent := ws_sent w @ [m]\<rparr>, Ok ())
    | Some e \<Rightarrow> (w, Err e))"

section \<open>Lemmas\<close>

lemma into_owned_deref [simp]: "into_owned p = PayloadRef_deref p"
  by (cases p) auto

lemma from_utf8_eq [simp]:
  "from_utf8 bs = Ok s \<longleftrightarrow> utf8_valid bs \<and> s = bs"
  "from_utf8 bs = Err e \<longleftrightarrow> \<not> utf8_valid bs \<and> e = Utf8"
  "from_utf8 bs \<noteq> Panic"
  by (auto simp: from_utf8_def)

lemma WISP_VERSION_sel [simp]: "major WISP_VERSION = 2" "minor WISP_VERSION = 0"
  by (simp_all add: WISP_VERSION_def)

end
