(* ===== verification/Packet.thy ===== *)
theory Packet
  imports Wisp_Types
begin

text \<open>
  The wire format of the Wisp protocol, \<open>wisp/src/packet.rs\<close> (all but INFO packets, which
  are in theory \<open>Info_Packet\<close>). Each implementation of the trait \<open>PacketCodec\<close> is a triple of
  definitions \<open>size_hint\<close>, \<open>encode_into\<close>, \<open>decode\<close>; the trait's contract is the locale
  \<open>packet_codec\<close>, interpreted for every one of them. \<open>encode_into\<close> appends to the buffer it is
  given, \<open>decode\<close> consumes the front of the packet and returns what is left.
\<close>

section \<open>Enumerations\<close>

datatype StreamType = Tcp | Udp | StreamTypeOther u8

definition StreamType_into :: "StreamType \<Rightarrow> u8" where
  "StreamType_into t = (case t of Tcp \<Rightarrow> 0x01 | Udp \<Rightarrow> 0x02 | StreamTypeOther x \<Rightarrow> x)"

definition StreamType_from :: "u8 \<Rightarrow> StreamType" where
  "StreamType_from b = (if b = 0x01 then Tcp else if b = 0x02 then Udp else StreamTypeOther b)"

definition StreamType_size_hint :: "StreamType \<Rightarrow> nat" where
  "StreamType_size_hint t = 1"

definition StreamType_encode_into :: "StreamType \<Rightarrow> bytes \<Rightarrow> bytes" where
  "StreamType_encode_into t packet = packet @ put_u8 (StreamType_into t)"

definition StreamType_decode :: "bytes \<Rightarrow> (StreamType \<times> bytes) wres" where
  "StreamType_decode packet =
     (if length packet < 1 then Err PacketTooSmall
      else res_bind (get_u8 packet) (\<lambda>(b, packet). Ok (StreamType_from b, packet)))"

datatype CloseReason =
    Unknown | Voluntary | Unexpected | ExtensionsIncompatible
  | ServerStreamInvalidInfo | ServerStreamUnreachable | ServerStreamConnectionTimedOut
  | ServerStreamConnectionRefused | ServerStreamTimedOut | ServerStreamBlockedAddress
  | ServerStreamThrottled
  | ClientUnexpected
  | ExtensionsPasswordAuthFailed | ExtensionsCertAuthFailed | ExtensionsAuthRequired
  | CloseReasonOther u8

definition CloseReason_into :: "CloseReason \<Rightarrow> u8" where
  "CloseReason_into r = (case r of
      Unknown \<Rightarrow> 0x01 | Voluntary \<Rightarrow> 0x02 | Unexpected \<Rightarrow> 0x03 | ExtensionsIncompatible \<Rightarrow> 0x04
    | ServerStreamInvalidInfo \<Rightarrow> 0x41 | ServerStreamUnreachable \<Rightarrow> 0x42
    | ServerStreamConnectionTimedOut \<Rightarrow> 0x43 | ServerStreamConnectionRefused \<Rightarrow> 0x44
    | ServerStreamTimedOut \<Rightarrow> 0x47 | ServerStreamBlockedAddress \<Rightarrow> 0x48
    | ServerStreamThrottled \<Rightarrow> 0x49
    | ClientUnexpected \<Rightarrow> 0x81
    | ExtensionsPasswordAuthFailed \<Rightarrow> 0xc0 | ExtensionsCertAuthFailed \<Rightarrow> 0xc1
    | ExtensionsAuthRequired \<Rightarrow> 0xc2
    | CloseReasonOther x \<Rightarrow> x)"

definition CloseReason_from :: "u8 \<Rightarrow> CloseReason" where
  "CloseReason_from b =
     (if b = 0x01 then Unknown else if b = 0x02 then Voluntary
      else if b = 0x03 then Unexpected else if b = 0x04 then ExtensionsIncompatible
      else if b = 0x41 then ServerStreamInvalidInfo
      else if b = 0x42 then ServerStreamUnreachable
      else if b = 0x43 then ServerStreamConnectionTimedOut
      else if b = 0x44 then ServerStreamConnectionRefused
      else if b = 0x47 then ServerStreamTimedOut
      else if b = 0x48 then ServerStreamBlockedAddress
      else if b = 0x49 then ServerStreamThrottled
      else if b = 0x81 then ClientUnexpected
      else if b = 0xc0 then ExtensionsPasswordAuthFailed
      else if b = 0xc1 then ExtensionsCertAuthFailed
      else if b = 0xc2 then ExtensionsAuthRequired
      else CloseReasonOther b)"

text \<open>\<open>Display\<close>: the decimal digits of a \<open>u8\<close>, then the fixed messages.\<close>

fun show_digits :: "nat \<Rightarrow> string" where
  "show_digits n = (if n < 10 then [char_of (48 + n)]
                    else show_digits (n div 10) @ [char_of (48 + n mod 10)])"

declare show_digits.simps [simp del]

definition CloseReason_fmt :: "CloseReason \<Rightarrow> string" where
  "CloseReason_fmt r = (case r of
      CloseReasonOther x \<Rightarrow> ''Other: '' @ show_digits (unat x)
    | Unknown \<Rightarrow> ''Unknown close reason''
    | Voluntary \<Rightarrow> ''Voluntarily closed''
    | Unexpected \<Rightarrow> ''Unexpectedly closed''
    | ExtensionsIncompatible \<Rightarrow> ''Incompatible protocol extensions''
    | ServerStreamInvalidInfo \<Rightarrow> ''Stream creation failed due to invalid information''
    | ServerStreamUnreachable \<Rightarrow> ''Stream creation failed due to an unreachable destination''
    | ServerStreamConnectionTimedOut \<Rightarrow> ''Stream creation failed due to destination not responding''
    | ServerStreamConnectionRefused \<Rightarrow>
        ''Stream creation failed due to destination refusing connection''
    | ServerStreamTimedOut \<Rightarrow> ''TCP timed out''
    | ServerStreamBlockedAddress \<Rightarrow> ''Destination address is blocked''
    | ServerStreamThrottled \<Rightarrow> ''Throttled''
    | ClientUnexpected \<Rightarrow> ''Client encountered unexpected error''
    | ExtensionsPasswordAuthFailed \<Rightarrow> ''Invalid username/password''
    | ExtensionsCertAuthFailed \<Rightarrow> ''Invalid signature''
    | ExtensionsAuthRequired \<Rightarrow> ''Authentication required'')"

definition CloseReason_size_hint :: "CloseReason \<Rightarrow> nat" where
  "CloseReason_size_hint r = 1"

definition CloseReason_encode_into :: "CloseReason \<Rightarrow> bytes \<Rightarrow> bytes" where
  "CloseReason_encode_into r packet = packet @ put_u8 (CloseReason_into r)"

definition CloseReason_decode :: "bytes \<Rightarrow> (CloseReason \<times> bytes) wres" where
  "CloseReason_decode packet =
     (if length packet < 1 then Err PacketTooSmall
      else res_bind (get_u8 packet) (\<lambda>(b, packet). Ok (CloseReason_from b, packet)))"

section \<open>Packet bodies\<close>

record ConnectPacket =
  stream_type :: StreamType
  host :: rstring
  port :: u16

definition ConnectPacket_size_hint :: "ConnectPacket \<Rightarrow> nat" where
  "ConnectPacket_size_hint x = StreamType_size_hint (stream_type x) + length (host x) + 2"

definition ConnectPacket_encode_into :: "ConnectPacket \<Rightarrow> bytes \<Rightarrow> bytes" where
  "ConnectPacket_encode_into x packet =
     (StreamType_encode_into (stream_type x) packet @ put_u16_le (port x)) @ host x"

text \<open>\<open>packet.to_vec()\<close> copies the rest of the packet and leaves it in place.\<close>

definition ConnectPacket_decode :: "bytes \<Rightarrow> (ConnectPacket \<times> bytes) wres" where
  "ConnectPacket_decode packet =
     (if length packet < 1 + 2 then Err PacketTooSmall
      else res_bind (StreamType_decode packet) (\<lambda>(ty, packet).
           res_bind (get_u16_le packet) (\<lambda>(p, packet).
           res_bind (from_utf8 packet) (\<lambda>h.
             Ok (\<lparr>stream_type = ty, host = h, port = p\<rparr>, packet)))))"

record ContinuePacket =
  buffer_remaining :: u32

definition ContinuePacket_size_hint :: "ContinuePacket \<Rightarrow> nat" where
  "ContinuePacket_size_hint x = 4"

definition ContinuePacket_encode_into :: "ContinuePacket \<Rightarrow> bytes \<Rightarrow> bytes" where
  "ContinuePacket_encode_into x packet = packet @ put_u32_le (buffer_remaining x)"

definition ContinuePacket_decode :: "bytes \<Rightarrow> (ContinuePacket \<times> bytes) wres" where
  "ContinuePacket_decode packet =
     (if length packet < 4 then Err PacketTooSmall
      else res_bind (get_u32_le packet) (\<lambda>(n, packet). Ok (\<lparr>buffer_remaining = n\<rparr>, packet)))"

record ClosePacket =
  reason :: CloseReason

definition ClosePacket_size_hint :: "ClosePacket \<Rightarrow> nat" where
  "ClosePacket_size_hint x = CloseReason_size_hint (reason x)"

definition ClosePacket_encode_into :: "ClosePacket \<Rightarrow> bytes \<Rightarrow> bytes" where
  "ClosePacket_encode_into x packet = CloseReason_encode_into (reason x) packet"

definition ClosePacket_decode :: "bytes \<Rightarrow> (ClosePacket \<times> bytes) wres" where
  "ClosePacket_decode packet =
     res_bind (CloseReason_decode packet) (\<lambda>(r, packet). Ok (\<lparr>reason = r\<rparr>, packet))"

definition WispVersion_fmt :: "WispVersion \<Rightarrow> string" where
  "WispVersion_fmt v = show_digits (unat (major v)) @ ''.'' @ show_digits (unat (minor v))"

definition WispVersion_size_hint :: "WispVersion \<Rightarrow> nat" where
  "WispVersion_size_hint v = 1 * 2"

definition WispVersion_encode_into :: "WispVersion \<Rightarrow> bytes \<Rightarrow> bytes" where
  "WispVersion_encode_into v packet = (packet @ put_u8 (major v)) @ put_u8 (minor v)"

definition WispVersion_decode :: "bytes \<Rightarrow> (WispVersion \<times> bytes) wres" where
  "WispVersion_decode packet =
     (if length packet < 2 then Err PacketTooSmall
      else res_bind (get_u8 packet) (\<lambda>(a, packet).
           res_bind (get_u8 packet) (\<lambda>(b, packet). Ok (\<lparr>major = a, minor = b\<rparr>, packet))))"

section \<open>Packets\<close>

datatype PacketType =
    Connect ConnectPacket | Data PayloadRef | Continue ContinuePacket | Close ClosePacket

definition PacketType_size_hint :: "PacketType \<Rightarrow> nat" where
  "PacketType_size_hint p = (case p of
      Connect x \<Rightarrow> ConnectPacket_size_hint x
    | Data x \<Rightarrow> length (PayloadRef_deref x)
    | Continue x \<Rightarrow> ContinuePacket_size_hint x
    | Close x \<Rightarrow> ClosePacket_size_hint x)"

definition get_type :: "PacketType \<Rightarrow> u8" where
  "get_type p = (case p of Connect x \<Rightarrow> 0x01 | Data x \<Rightarrow> 0x02 | Continue x \<Rightarrow> 0x03 | Close x \<Rightarrow> 0x04)"

definition PacketType_encode :: "PacketType \<Rightarrow> bytes \<Rightarrow> bytes" where
  "PacketType_encode p packet = (case p of
      Connect x \<Rightarrow> ConnectPacket_encode_into x packet
    | Data x \<Rightarrow> packet @ PayloadRef_deref x
    | Continue x \<Rightarrow> ContinuePacket_encode_into x packet
    | Close x \<Rightarrow> ClosePacket_encode_into x packet)"

definition PacketType_decode :: "bytes \<Rightarrow> u8 \<Rightarrow> PacketType wres" where
  "PacketType_decode packet ty =
     (if ty = 0x01 then res_bind (ConnectPacket_decode packet) (\<lambda>(x, _). Ok (Connect x))
      else if ty = 0x02 then Ok (Data (Owned packet))
      else if ty = 0x03 then res_bind (ContinuePacket_decode packet) (\<lambda>(x, _). Ok (Continue x))
      else if ty = 0x04 then res_bind (ClosePacket_decode packet) (\<lambda>(x, _). Ok (Close x))
      else Err (InvalidPacketType ty))"

record Packet =
  stream_id :: u32
  packet_type :: PacketType

definition Packet_size_hint :: "Packet \<Rightarrow> nat" where
  "Packet_size_hint p = 1 + 4 + PacketType_size_hint (packet_type p)"

definition Packet_encode_into :: "Packet \<Rightarrow> bytes \<Rightarrow> bytes" where
  "Packet_encode_into p packet =
     PacketType_encode (packet_type p)
       ((packet @ put_u8 (get_type (packet_type p))) @ put_u32_le (stream_id p))"

definition Packet_encode :: "Packet \<Rightarrow> bytes" where
  "Packet_encode p = Packet_encode_into p []"

definition Packet_decode :: "bytes \<Rightarrow> Packet wres" where
  "Packet_decode packet =
     (if length packet < 1 + 4 then Err PacketTooSmall
      else res_bind (get_u8 packet) (\<lambda>(ty, packet).
           res_bind (get_u32_le packet) (\<lambda>(sid, packet).
           res_bind (PacketType_decode packet ty) (\<lambda>pt.
             Ok \<lparr>stream_id = sid, packet_type = pt\<rparr>))))"

definition new_data :: "u32 \<Rightarrow> PayloadRef \<Rightarrow> Packet" where
  "new_data sid data = \<lparr>stream_id = sid, packet_type = Data data\<rparr>"

definition new_continue :: "u32 \<Rightarrow> u32 \<Rightarrow> Packet" where
  "new_continue sid n = \<lparr>stream_id = sid, packet_type = Continue \<lparr>buffer_remaining = n\<rparr>\<rparr>"

definition new_close :: "u32 \<Rightarrow> CloseReason \<Rightarrow> Packet" where
  "new_close sid r = \<lparr>stream_id = sid, packet_type = Close \<lparr>reason = r\<rparr>\<rparr>"

section \<open>Well-formed values\<close>

text \<open>
  The catch-all constructor of an enumeration stands for the codes that no other constructor
  has; a \<open>String\<close> is valid UTF-8. The decoders return nothing else, and the encoders are
  invertible on such values. A packet that was decoded owns its payload.
\<close>

definition StreamType_ok :: "StreamType \<Rightarrow> bool" where
  "StreamType_ok t = (StreamType_from (StreamType_into t) = t)"

definition CloseReason_ok :: "CloseReason \<Rightarrow> bool" where
  "CloseReason_ok r = (CloseReason_from (CloseReason_into r) = r)"

definition ConnectPacket_ok :: "ConnectPacket \<Rightarrow> bool" where
  "ConnectPacket_ok x = (StreamType_ok (stream_type x) \<and> utf8_valid (host x))"

definition ClosePacket_ok :: "ClosePacket \<Rightarrow> bool" where
  "ClosePacket_ok x = CloseReason_ok (reason x)"

definition PacketType_ok :: "PacketType \<Rightarrow> bool" where
  "PacketType_ok p = (case p of
      Connect x \<Rightarrow> ConnectPacket_ok x | Data x \<Rightarrow> True | Continue x \<Rightarrow> True
    | Close x \<Rightarrow> ClosePacket_ok x)"

definition Packet_ok :: "Packet \<Rightarrow> bool" where
  "Packet_ok p = PacketType_ok (packet_type p)"

definition PacketType_own :: "PacketType \<Rightarrow> PacketType" where
  "PacketType_own p = (case p of Data x \<Rightarrow> Data (Owned (into_owned x)) | _ \<Rightarrow> p)"

definition Packet_own :: "Packet \<Rightarrow> Packet" where
  "Packet_own p = p\<lparr>packet_type := PacketType_own (packet_type p)\<rparr>"

text \<open>CONTINUE and CLOSE bodies have a fixed length and tolerate trailing bytes.\<close>

definition allows_trailing :: "PacketType \<Rightarrow> bool" where
  "allows_trailing p = (case p of Continue x \<Rightarrow> True | Close x \<Rightarrow> True | _ \<Rightarrow> False)"

text \<open>The defect of a byte string that is not the encoding of a packet, from its bytes alone.\<close>

definition packet_defect :: "bytes \<Rightarrow> WispError option" where
  "packet_defect bs =
     (if length bs < 5 then Some PacketTooSmall
      else if hd bs = 1 then
        (if length bs < 8 then Some PacketTooSmall
         else if utf8_valid (drop 8 bs) then None else Some Utf8)
      else if hd bs = 2 then None
      else if hd bs = 3 then (if length bs < 9 then Some PacketTooSmall else None)
      else if hd bs = 4 then (if length bs < 6 then Some PacketTooSmall else None)
      else Some (InvalidPacketType (hd bs)))"

section \<open>The contract of a codec\<close>

text \<open>
  What the trait \<open>PacketCodec\<close> promises: encoding appends exactly \<open>size_hint\<close> bytes,
  decoding never panics, inverts the encoding of a well-formed value, and whatever it
  accepts starts with the encoding of the well-formed value it returns.
\<close>

locale packet_codec =
  fixes size_hint :: "'a \<Rightarrow> nat"
    and encode_into :: "'a \<Rightarrow> bytes \<Rightarrow> bytes"
    and decode :: "bytes \<Rightarrow> ('a \<times> bytes) wres"
    and ok :: "'a \<Rightarrow> bool"
  assumes encode_append: "encode_into x buf = buf @ encode_into x []"
    and encode_length: "length (encode_into x []) = size_hint x"
    and decode_encode: "ok x \<Longrightarrow> \<exists>r. decode (encode_into x []) = Ok (x, r)"
    and decode_sound: "decode bs = Ok (x, r) \<Longrightarrow> ok x \<and> take (size_hint x) bs = encode_into x []"
    and decode_no_panic: "decode bs \<noteq> Panic"
    and decode_error: "decode bs = Err e \<Longrightarrow> e = PacketTooSmall \<or> e = Utf8"
begin

lemma encode_into_length: "length (encode_into x buf) = length buf + size_hint x"
  by (subst encode_append) (simp add: encode_length)

lemma decode_prefix: "decode bs = Ok (x, r) \<Longrightarrow> \<exists>trail. bs = encode_into x [] @ trail"
  by (metis append_take_drop_id decode_sound)

lemma decode_size: "decode bs = Ok (x, r) \<Longrightarrow> size_hint x \<le> length bs"
  by (metis decode_prefix encode_length length_append le_add1)

lemma encode_inject:
  assumes "ok x" "ok y" "encode_into x [] = encode_into y []"
  shows "x = y"
  using assms by (metis decode_encode prod.inject res.inject(1))

lemma decode_cases:
  obtains (Ok) x r where "decode bs = Ok (x, r)" "ok x"
  | (Small) "decode bs = Err PacketTooSmall" | (Text) "decode bs = Err Utf8"
  using decode_no_panic decode_error decode_sound
  by (metis res.exhaust surj_pair)

end

section \<open>The codecs of the crate meet it\<close>

lemma StreamType_into_from [simp]: "StreamType_into (StreamType_from b) = b"
  by (simp add: StreamType_into_def StreamType_from_def)

lemma CloseReason_into_from [simp]: "CloseReason_into (CloseReason_from b) = b"
  by (simp add: CloseReason_into_def CloseReason_from_def)

lemma StreamType_ok_from [simp]: "StreamType_ok (StreamType_from b)"
  by (simp add: StreamType_ok_def)

lemma CloseReason_ok_from [simp]: "CloseReason_ok (CloseReason_from b)"
  by (simp add: CloseReason_ok_def)

lemma StreamType_ok_iff:
  "StreamType_ok t \<longleftrightarrow> (\<forall>x. t = StreamTypeOther x \<longrightarrow> x \<noteq> 1 \<and> x \<noteq> 2)"
  by (cases t) (auto simp: StreamType_ok_def StreamType_from_def StreamType_into_def)

lemma length_1_cons: "\<not> length xs < Suc 0 \<longleftrightarrow> (\<exists>a r. xs = a # r)"
  by (cases xs) auto

lemma not_short_1: "\<not> length xs < 1 \<Longrightarrow> \<exists>a r. xs = a # r"
  by (cases xs) auto

lemmas StreamType_codec_defs = StreamType_size_hint_def StreamType_encode_into_def
  StreamType_decode_def StreamType_ok_def
lemmas CloseReason_codec_defs = CloseReason_size_hint_def CloseReason_encode_into_def
  CloseReason_decode_def CloseReason_ok_def
lemmas ConnectPacket_codec_defs = ConnectPacket_size_hint_def ConnectPacket_encode_into_def
  ConnectPacket_decode_def ConnectPacket_ok_def
lemmas ContinuePacket_codec_defs = ContinuePacket_size_hint_def ContinuePacket_encode_into_def
  ContinuePacket_decode_def
lemmas ClosePacket_codec_defs = ClosePacket_size_hint_def ClosePacket_encode_into_def
  ClosePacket_decode_def ClosePacket_ok_def
lemmas WispVersion_codec_defs = WispVersion_size_hint_def WispVersion_encode_into_def
  WispVersion_decode_def

interpretation stream_type_codec:
  packet_codec StreamType_size_hint StreamType_encode_into StreamType_decode StreamType_ok
proof
  fix x bs r
  show "StreamType_ok x \<Longrightarrow>
      \<exists>r. StreamType_decode (StreamType_encode_into x []) = Ok (x, r)"
    by (simp add: StreamType_codec_defs put_u8_def)
  show "StreamType_decode bs = Ok (x, r) \<Longrightarrow>
      StreamType_ok x \<and> take (StreamType_size_hint x) bs = StreamType_encode_into x []"
    by (auto simp: StreamType_codec_defs put_u8_def split: if_splits)
qed (auto simp: StreamType_codec_defs res_bind_eq_Err put_u8_def split: if_splits)

interpretation close_reason_codec:
  packet_codec CloseReason_size_hint CloseReason_encode_into CloseReason_decode CloseReason_ok
proof
  fix x bs r
  show "CloseReason_ok x \<Longrightarrow>
      \<exists>r. CloseReason_decode (CloseReason_encode_into x []) = Ok (x, r)"
    by (simp add: CloseReason_codec_defs put_u8_def)
  show "CloseReason_decode bs = Ok (x, r) \<Longrightarrow>
      CloseReason_ok x \<and> take (CloseReason_size_hint x) bs = CloseReason_encode_into x []"
    by (auto simp: CloseReason_codec_defs put_u8_def split: if_splits)
qed (auto simp: CloseReason_codec_defs res_bind_eq_Err put_u8_def split: if_splits)

interpretation continue_codec:
  packet_codec ContinuePacket_size_hint ContinuePacket_encode_into ContinuePacket_decode
    "\<lambda>_. True"
proof
  fix x :: ContinuePacket and bs r
  show "\<exists>r. ContinuePacket_decode (ContinuePacket_encode_into x []) = Ok (x, r)"
    by (simp add: ContinuePacket_codec_defs)
  show "ContinuePacket_decode bs = Ok (x, r) \<Longrightarrow>
      True \<and> take (ContinuePacket_size_hint x) bs = ContinuePacket_encode_into x []"
    by (auto simp: ContinuePacket_codec_defs get_u32_le_eq_Ok split: if_splits)
qed (auto simp: ContinuePacket_codec_defs res_bind_eq_Err split: if_splits)

interpretation close_codec:
  packet_codec ClosePacket_size_hint ClosePacket_encode_into ClosePacket_decode ClosePacket_ok
proof
  fix x bs r buf e
  show "ClosePacket_encode_into x buf = buf @ ClosePacket_encode_into x []"
    using close_reason_codec.encode_append [of "reason x" buf]
    by (simp add: ClosePacket_codec_defs)
  show "ClosePacket_ok x \<Longrightarrow>
      \<exists>r. ClosePacket_decode (ClosePacket_encode_into x []) = Ok (x, r)"
    using close_reason_codec.decode_encode [of "reason x"]
    by (auto simp: ClosePacket_codec_defs)
  show "ClosePacket_decode bs = Ok (x, r) \<Longrightarrow>
      ClosePacket_ok x \<and> take (ClosePacket_size_hint x) bs = ClosePacket_encode_into x []"
    using close_reason_codec.decode_sound [of bs "reason x" r]
    by (auto simp: ClosePacket_codec_defs)
  show "ClosePacket_decode bs = Err e \<Longrightarrow> e = PacketTooSmall \<or> e = Utf8"
    using close_reason_codec.decode_error [of bs e]
    by (auto simp: ClosePacket_codec_defs res_bind_eq_Err)
qed (auto simp: ClosePacket_codec_defs close_reason_codec.decode_no_panic
       close_reason_codec.encode_length)

interpretation version_codec:
  packet_codec WispVersion_size_hint WispVersion_encode_into WispVersion_decode "\<lambda>_. True"
proof
  fix x :: WispVersion and bs r
  show "WispVersion_decode bs = Ok (x, r) \<Longrightarrow>
      True \<and> take (WispVersion_size_hint x) bs = WispVersion_encode_into x []"
    by (auto simp: WispVersion_codec_defs put_u8_def split: if_splits)
qed (auto simp: WispVersion_codec_defs put_u8_def res_bind_eq_Err split: if_splits)

interpretation connect_codec:
  packet_codec ConnectPacket_size_hint ConnectPacket_encode_into ConnectPacket_decode
    ConnectPacket_ok
proof
  fix x bs r buf e
  show "ConnectPacket_ok x \<Longrightarrow>
      \<exists>r. ConnectPacket_decode (ConnectPacket_encode_into x []) = Ok (x, r)"
    by (simp add: ConnectPacket_codec_defs StreamType_codec_defs put_u8_def)
  show "ConnectPacket_decode bs = Ok (x, r) \<Longrightarrow>
      ConnectPacket_ok x \<and> take (ConnectPacket_size_hint x) bs = ConnectPacket_encode_into x []"
    by (auto simp: ConnectPacket_codec_defs StreamType_codec_defs put_u8_def get_u16_le_eq_Ok
        split: if_splits)
  show "ConnectPacket_decode bs \<noteq> Panic"
    by (auto simp: ConnectPacket_codec_defs StreamType_codec_defs split: if_splits)
  show "ConnectPacket_decode bs = Err e \<Longrightarrow> e = PacketTooSmall \<or> e = Utf8"
    by (auto simp: ConnectPacket_codec_defs StreamType_codec_defs res_bind_eq_Err
        split: if_splits)
qed (auto simp: ConnectPacket_codec_defs StreamType_codec_defs)

section \<open>Whole packets\<close>

lemma PacketType_encode_append: "PacketType_encode p buf = buf @ PacketType_encode p []"
  by (cases p)
    (simp_all add: PacketType_encode_def connect_codec.encode_append [of _ buf]
      continue_codec.encode_append [of _ buf] close_codec.encode_append [of _ buf])

lemma Packet_encode_eq:
  "Packet_encode p =
     get_type (packet_type p) # put_u32_le (stream_id p) @ PacketType_encode (packet_type p) []"
  unfolding Packet_encode_def Packet_encode_into_def
  by (subst PacketType_encode_append) (simp add: put_u8_def)

lemma PacketType_encode_length: "length (PacketType_encode p []) = PacketType_size_hint p"
  by (cases p)
    (simp_all add: PacketType_encode_def PacketType_size_hint_def connect_codec.encode_length
      continue_codec.encode_length close_codec.encode_length)

lemma ConnectPacket_decode_exact:
  "ConnectPacket_decode bs = Ok (x, r) \<Longrightarrow> bs = ConnectPacket_encode_into x []"
  by (auto simp: ConnectPacket_codec_defs StreamType_codec_defs put_u8_def get_u16_le_eq_Ok
      split: if_splits)

lemma ContinuePacket_decode_trail:
  "ContinuePacket_decode (ContinuePacket_encode_into x [] @ trail) = Ok (x, trail)"
  by (simp add: ContinuePacket_codec_defs)

lemma ClosePacket_decode_trail:
  "ClosePacket_ok x \<Longrightarrow> ClosePacket_decode (ClosePacket_encode_into x [] @ trail) = Ok (x, trail)"
  by (simp add: ClosePacket_codec_defs CloseReason_codec_defs put_u8_def)

lemma PacketType_decode_encode:
  assumes "PacketType_ok p" "trail = [] \<or> allows_trailing p"
  shows "PacketType_decode (PacketType_encode p [] @ trail) (get_type p) = Ok (PacketType_own p)"
proof (cases p)
  case (Connect x)
  with assms connect_codec.decode_encode [of x] show ?thesis
    by (auto simp: PacketType_decode_def PacketType_encode_def PacketType_own_def get_type_def
        PacketType_ok_def allows_trailing_def)
qed (use assms in \<open>simp_all add: PacketType_decode_def PacketType_encode_def PacketType_own_def
       get_type_def PacketType_ok_def allows_trailing_def ContinuePacket_decode_trail
       ClosePacket_decode_trail\<close>)

lemma PacketType_decode_sound:
  assumes "PacketType_decode bs ty = Ok p"
  shows "PacketType_ok p" "PacketType_own p = p" "get_type p = ty"
    "\<exists>trail. bs = PacketType_encode p [] @ trail \<and> (trail = [] \<or> allows_trailing p)"
  using assms connect_codec.decode_sound close_codec.decode_sound
    ConnectPacket_decode_exact continue_codec.decode_prefix close_codec.decode_prefix
  by (auto simp: PacketType_decode_def PacketType_ok_def PacketType_own_def get_type_def
      PacketType_encode_def allows_trailing_def split: if_splits)

lemma PacketType_decode_errors:
  assumes "PacketType_decode bs ty = Err e"
  shows "e = PacketTooSmall \<or> e = Utf8 \<or> e = InvalidPacketType ty \<and> ty \<notin> {1, 2, 3, 4}"
  using assms connect_codec.decode_error continue_codec.decode_error close_codec.decode_error
  by (auto simp: PacketType_decode_def res_bind_eq_Err split: if_splits)

lemma PacketType_decode_no_panic [simp]: "PacketType_decode bs ty \<noteq> Panic"
  by (auto simp: PacketType_decode_def connect_codec.decode_no_panic
      continue_codec.decode_no_panic close_codec.decode_no_panic)

lemma Packet_decode_cons:
  "Packet_decode (ty # put_u32_le sid @ bs) =
     res_bind (PacketType_decode bs ty) (\<lambda>pt. Ok \<lparr>stream_id = sid, packet_type = pt\<rparr>)"
  by (simp add: Packet_decode_def)

lemma packet_header_split:
  assumes "5 \<le> length bs"
  obtains ty sid body where "bs = ty # put_u32_le sid @ body"
proof -
  obtain ty r where bs: "bs = ty # r" and "4 \<le> length r"
    using assms by (cases bs) auto
  moreover obtain sid body where "get_u32_le r = (Ok (sid, body) :: (u32 \<times> bytes, unit) res)"
    using \<open>4 \<le> length r\<close> by (cases "get_u32_le r :: (u32 \<times> bytes, unit) res") auto
  ultimately show thesis using that put_get_u32_le by blast
qed

lemma packet_decode_encode_trail:
  assumes "Packet_ok p" "trail = [] \<or> allows_trailing (packet_type p)"
  shows "Packet_decode (Packet_encode p @ trail) = Ok (Packet_own p)"
  using assms
  by (simp add: Packet_encode_eq Packet_decode_cons PacketType_decode_encode Packet_ok_def
      Packet_own_def)

lemma packet_decode_sound:
  assumes "Packet_decode bs = Ok p"
  shows "Packet_ok p \<and> Packet_own p = p \<and>
    (\<exists>trail. bs = Packet_encode p @ trail \<and> (trail = [] \<or> allows_trailing (packet_type p)))"
proof -
  have "5 \<le> length bs" using assms by (auto simp: Packet_decode_def split: if_splits)
  then obtain ty sid body where bs: "bs = ty # put_u32_le sid @ body"
    by (rule packet_header_split)
  with assms obtain pt where pt: "PacketType_decode body ty = Ok pt"
    and p: "p = \<lparr>stream_id = sid, packet_type = pt\<rparr>"
    by (auto simp: Packet_decode_cons)
  show ?thesis
    using PacketType_decode_sound [OF pt]
    by (auto simp: p bs Packet_ok_def Packet_own_def Packet_encode_eq)
qed

lemma connect_defect:
  "ConnectPacket_decode bs =
     (if length bs < 3 then Err PacketTooSmall
      else if utf8_valid (drop 3 bs)
      then Ok (\<lparr>stream_type = StreamType_from (bs ! 0), host = drop 3 bs,
                port = ucast (bs ! 1) OR push_bit 8 (ucast (bs ! 2))\<rparr>, drop 3 bs)
      else Err Utf8)"
proof (cases "length bs < 3")
  case False
  then obtain a b c r where "bs = a # b # c # r"
    by (metis One_nat_def Suc_le_length_iff numeral_3_eq_3 not_less)
  then show ?thesis by (simp add: ConnectPacket_codec_defs StreamType_codec_defs from_utf8_def)
qed (simp add: ConnectPacket_decode_def)

lemma continue_defect:
  "ContinuePacket_decode bs =
     (if length bs < 4 then Err PacketTooSmall
      else Ok (\<lparr>buffer_remaining = ucast (bs ! 0) OR push_bit 8 (ucast (bs ! 1))
                 OR push_bit 16 (ucast (bs ! 2)) OR push_bit 24 (ucast (bs ! 3))\<rparr>, drop 4 bs))"
  by (cases bs rule: get_u32_le.cases) (simp_all add: ContinuePacket_decode_def)

lemma close_defect:
  "ClosePacket_decode bs =
     (if length bs < 1 then Err PacketTooSmall
      else Ok (\<lparr>reason = CloseReason_from (hd bs)\<rparr>, tl bs))"
  by (cases bs) (simp_all add: ClosePacket_codec_defs CloseReason_codec_defs)

text \<open>
  C16. \<open>Packet::decode\<close> accepts exactly the encodings of well-formed packets, followed by
  nothing, or by arbitrary bytes after a CONTINUE or CLOSE body, and returns the packet
  encoded, with an owned payload. Decoding is therefore the inverse of encoding, and no two
  packets share an encoding.
\<close>

theorem packet_decode_iff:
  "Packet_decode bs = Ok q \<longleftrightarrow>
     (\<exists>p trail. Packet_ok p \<and> q = Packet_own p \<and> bs = Packet_encode p @ trail
        \<and> (trail = [] \<or> allows_trailing (packet_type p)))"
  using packet_decode_encode_trail packet_decode_sound by metis

text \<open>
  \<open>Packet::decode\<close> is total: on every input it returns a packet or reports the defect
  that \<open>packet_defect\<close> names, and it never panics. Inputs below the five header bytes and
  truncated bodies are \<open>PacketTooSmall\<close>, an unknown type byte is reported as such, and
  \<open>Utf8\<close> arises only for a CONNECT packet whose host is not UTF-8.
\<close>

theorem packet_decode_errors:
  "case Packet_decode bs of
     Ok q \<Rightarrow> packet_defect bs = None
   | Err e \<Rightarrow> packet_defect bs = Some e
   | Panic \<Rightarrow> False"
proof (cases "5 \<le> length bs")
  case False
  then show ?thesis by (simp add: Packet_decode_def packet_defect_def)
next
  case True
  then obtain ty sid body where bs: "bs = ty # put_u32_le sid @ body"
    by (rule packet_header_split)
  consider "ty = 1" | "ty = 2" | "ty = 3" | "ty = 4" | "ty \<notin> {1, 2, 3, 4}" by auto
  then show ?thesis
    by cases (auto simp: bs Packet_decode_cons packet_defect_def PacketType_decode_def
        connect_defect continue_defect close_defect)
qed

text \<open>
  \<open>Packet::encode\<close> writes exactly \<open>size_hint\<close> bytes, so the buffer it reserves is never
  regrown, and the first five bytes are the type and the little-endian stream id.
\<close>

theorem packet_encode_size:
  "length (Packet_encode p) = Packet_size_hint p
   \<and> take 5 (Packet_encode p) = get_type (packet_type p) # put_u32_le (stream_id p)"
  by (simp add: Packet_encode_eq Packet_size_hint_def PacketType_encode_length put_u32_le_def)

end
