(* ===== verification/Extensions.thy ===== *)
theory Extensions
  imports Packet
begin

text \<open>
  Protocol extensions: \<open>wisp/src/extensions/\<close> (UDP, MOTD, password and certificate
  authentication) and the two extensions the server adds, twisp and wispnet
  (\<open>server/src/handle/wisp/\<close>).

  The trait objects \<open>AnyProtocolExtension\<close> and \<open>AnyProtocolExtensionBuilder\<close> are the sums of the
  types that implement the traits in this repository. A builder method takes \<open>&mut self\<close>, so
  its model returns the new builder beside the result. What comes from other crates is the
  record \<open>crypto\<close>: parsing an ed25519 signature, random bytes, and the methods the
  \<open>bitflags\<close> macro generates. A signature is the byte string \<open>to_vec\<close> gives; verifiers and
  signers are functions, as they are trait objects in the code.
\<close>

section \<open>What other crates provide\<close>

record crypto =
  Signature_from_slice :: "bytes \<Rightarrow> bytes option"
  getrandom_fill :: "bytes option"
  cert_types_from_bits :: "u8 \<Rightarrow> u8 option"
  cert_types_iter :: "u8 \<Rightarrow> u8 list"

text \<open>
  The documented behaviour the code relies on: a signature is parsed from its own bytes, a
  filled buffer keeps its length, \<open>from_bits\<close> refuses unknown flags, \<open>iter\<close> yields the
  contained flags.
\<close>

definition crypto_laws :: "crypto \<Rightarrow> bool" where
  "crypto_laws cr \<longleftrightarrow>
     (\<forall>s t. Signature_from_slice cr s = Some t \<longrightarrow> t = s)
     \<and> (\<forall>r. getrandom_fill cr = Some r \<longrightarrow> length r = 64)
     \<and> (\<forall>b. cert_types_from_bits cr b = (if b AND NOT 1 = 0 then Some b else None))
     \<and> (\<forall>b. cert_types_iter cr b = (if b AND 1 \<noteq> 0 then [1] else []))"

section \<open>extensions/udp.rs\<close>

definition Udp_ID :: u8 where
  "Udp_ID = 0x01"

section \<open>extensions/motd.rs\<close>

definition Motd_ID :: u8 where
  "Motd_ID = 0x04"

record MotdProtocolExtension =
  motd_role :: Role
  motd :: rstring

definition Motd_encode :: "MotdProtocolExtension \<Rightarrow> bytes" where
  "Motd_encode x = (case motd_role x of Server \<Rightarrow> motd x | Client \<Rightarrow> [])"

datatype MotdProtocolExtensionBuilder = MotdServer rstring | MotdClient

definition Motd_build_from_bytes :: "bytes \<Rightarrow> Role \<Rightarrow> MotdProtocolExtension wres" where
  "Motd_build_from_bytes data role = (case role of
      Client \<Rightarrow> (if utf8_valid data then Ok \<lparr>motd_role = role, motd = data\<rparr>
                 else Err (ExtensionImplError FromUtf8Error))
    | Server \<Rightarrow> Ok \<lparr>motd_role = role, motd = []\<rparr>)"

definition Motd_build_to_extension ::
    "MotdProtocolExtensionBuilder \<Rightarrow> Role \<Rightarrow> MotdProtocolExtension wres" where
  "Motd_build_to_extension b role = (case b of
      MotdServer m \<Rightarrow> Ok \<lparr>motd_role = role, motd = m\<rparr>
    | MotdClient \<Rightarrow> Ok \<lparr>motd_role = role, motd = []\<rparr>)"

section \<open>extensions/password.rs\<close>

definition PASSWORD_PROTOCOL_EXTENSION_ID :: u8 where
  "PASSWORD_PROTOCOL_EXTENSION_ID = 0x02"

datatype PasswordProtocolExtension =
    PwServerBeforeClientInfo bool
  | PwServerAfterClientInfo rstring rstring
  | PwClientBeforeServerInfo
  | PwClientAfterServerInfo rstring rstring

text \<open>\<open>user.len().try_into().unwrap()\<close> panics for a user name of 256 bytes or more.\<close>

definition Password_encode :: "PasswordProtocolExtension \<Rightarrow> bytes wres" where
  "Password_encode x = (case x of
      PwServerBeforeClientInfo required \<Rightarrow> Ok (put_u8 (if required then 1 else 0))
    | PwClientAfterServerInfo user password \<Rightarrow>
        (if length user < 256 then Ok (put_u8 (of_nat (length user)) @ user @ password) else Panic)
    | PwServerAfterClientInfo u p \<Rightarrow> Ok []
    | PwClientBeforeServerInfo \<Rightarrow> Ok [])"

datatype PasswordProtocolExtensionBuilder =
    PwbServerBeforeClientInfo "rstring \<rightharpoonup> rstring" bool
  | PwbServerAfterClientInfo "rstring \<rightharpoonup> rstring" bool
  | PwbClientBeforeServerInfo "(rstring \<times> rstring) option"
  | PwbClientAfterServerInfo "(rstring \<times> rstring) option" bool

definition Password_is_required :: "PasswordProtocolExtensionBuilder \<Rightarrow> bool option" where
  "Password_is_required b = (case b of
      PwbServerBeforeClientInfo users required \<Rightarrow> Some required
    | PwbServerAfterClientInfo users required \<Rightarrow> Some required
    | PwbClientAfterServerInfo creds required \<Rightarrow> Some required
    | PwbClientBeforeServerInfo creds \<Rightarrow> None)"

definition set_creds ::
    "PasswordProtocolExtensionBuilder \<Rightarrow> rstring \<times> rstring \<Rightarrow> PasswordProtocolExtensionBuilder" where
  "set_creds b credentials = (case b of
      PwbClientBeforeServerInfo creds \<Rightarrow> PwbClientBeforeServerInfo (Some credentials)
    | PwbClientAfterServerInfo creds required \<Rightarrow>
        PwbClientAfterServerInfo (Some credentials) required
    | _ \<Rightarrow> b)"

definition Password_build_to_extension ::
    "PasswordProtocolExtensionBuilder \<Rightarrow> PasswordProtocolExtension wres" where
  "Password_build_to_extension b = (case b of
      PwbServerBeforeClientInfo users required \<Rightarrow> Ok (PwServerBeforeClientInfo required)
    | PwbServerAfterClientInfo users required \<Rightarrow> Err ExtensionImplNotSupported
    | PwbClientBeforeServerInfo creds \<Rightarrow> Err ExtensionImplNotSupported
    | PwbClientAfterServerInfo creds required \<Rightarrow>
        res_bind (ok_or creds PasswordExtensionNoCreds) (\<lambda>(user, password).
          Ok (PwClientAfterServerInfo user password)))"

definition Password_build_from_bytes ::
    "PasswordProtocolExtensionBuilder \<Rightarrow> bytes
      \<Rightarrow> PasswordProtocolExtensionBuilder \<times> PasswordProtocolExtension wres" where
  "Password_build_from_bytes b bs = (case b of
      PwbServerBeforeClientInfo users required \<Rightarrow>
        (case res_bind (get_u8 bs) (\<lambda>(user_len, bs).
              res_bind (split_to (unat user_len) bs) (\<lambda>(u, bs).
              res_bind (from_utf8 u) (\<lambda>user.
              res_bind (from_utf8 bs) (\<lambda>password. Ok (user, password))))) of
           Ok (user, password) \<Rightarrow>
             (PwbServerAfterClientInfo users required,
              if users user = Some password then Ok (PwServerAfterClientInfo user password)
              else Err PasswordExtensionCredsInvalid)
         | Err e \<Rightarrow> (b, Err e)
         | Panic \<Rightarrow> (b, Panic))
    | PwbClientBeforeServerInfo creds \<Rightarrow>
        (case get_u8 bs of
           Ok (r, _) \<Rightarrow> (PwbClientAfterServerInfo creds (r \<noteq> 0), Ok PwClientBeforeServerInfo)
         | Err e \<Rightarrow> (b, Err e)
         | Panic \<Rightarrow> (b, Panic))
    | PwbClientAfterServerInfo creds required \<Rightarrow> (b, Err ExtensionImplNotSupported)
    | PwbServerAfterClientInfo users required \<Rightarrow> (b, Err ExtensionImplNotSupported))"

section \<open>extensions/cert.rs\<close>

definition CertAuth_ID :: u8 where
  "CertAuth_ID = 0x03"

definition CertTypes_Ed25519 :: u8 where
  "CertTypes_Ed25519 = 1"

record VerifyKey =
  vk_cert_type :: u8
  vk_hash :: bytes
  verifier :: "bytes \<Rightarrow> bytes \<Rightarrow> bool"

record SigningKey =
  sk_cert_type :: u8
  sk_hash :: bytes
  signer :: "bytes \<Rightarrow> bytes option"

definition VerifyKey_new_ed25519 :: "(bytes \<Rightarrow> bytes \<Rightarrow> bool) \<Rightarrow> bytes \<Rightarrow> VerifyKey" where
  "VerifyKey_new_ed25519 v h = \<lparr>vk_cert_type = CertTypes_Ed25519, vk_hash = h, verifier = v\<rparr>"

definition SigningKey_new_ed25519 :: "(bytes \<Rightarrow> bytes option) \<Rightarrow> bytes \<Rightarrow> SigningKey" where
  "SigningKey_new_ed25519 s h = \<lparr>sk_cert_type = CertTypes_Ed25519, sk_hash = h, signer = s\<rparr>"

datatype CertAuthProtocolExtension =
    CertServer u8 bytes bool
  | CertClient u8 bytes bytes
  | ClientRecieved
  | ServerVerified

definition CertAuth_encode :: "CertAuthProtocolExtension \<Rightarrow> bytes" where
  "CertAuth_encode x = (case x of
      CertServer cert_types challenge required \<Rightarrow>
        (put_u8 (if required then 1 else 0) @ put_u8 cert_types) @ challenge
    | CertClient cert_type hash signature \<Rightarrow> (put_u8 cert_type @ hash) @ signature
    | ServerVerified \<Rightarrow> []
    | ClientRecieved \<Rightarrow> [])"

datatype CertAuthProtocolExtensionBuilder =
    ServerBeforeChallenge "VerifyKey list" bool
  | ServerAfterChallenge "VerifyKey list" bytes bool
  | ClientBeforeChallenge "SigningKey option"
  | ClientAfterChallenge "SigningKey option" u8 bytes bool

definition CertAuth_is_required :: "CertAuthProtocolExtensionBuilder \<Rightarrow> bool option" where
  "CertAuth_is_required b = (case b of
      ServerBeforeChallenge verifiers required \<Rightarrow> Some required
    | ServerAfterChallenge verifiers challenge required \<Rightarrow> Some required
    | ClientAfterChallenge key cert_types challenge required \<Rightarrow> Some required
    | ClientBeforeChallenge key \<Rightarrow> None)"

definition set_signing_key ::
    "CertAuthProtocolExtensionBuilder \<Rightarrow> SigningKey \<Rightarrow> CertAuthProtocolExtensionBuilder" where
  "set_signing_key b key = (case b of
      ClientBeforeChallenge s \<Rightarrow> ClientBeforeChallenge (Some key)
    | ClientAfterChallenge s cert_types challenge required \<Rightarrow>
        ClientAfterChallenge (Some key) cert_types challenge required
    | _ \<Rightarrow> b)"

definition CertAuth_build_from_bytes ::
    "crypto \<Rightarrow> CertAuthProtocolExtensionBuilder \<Rightarrow> bytes
      \<Rightarrow> CertAuthProtocolExtensionBuilder \<times> CertAuthProtocolExtension wres" where
  "CertAuth_build_from_bytes cr b bs = (case b of
      ServerAfterChallenge verifiers challenge required \<Rightarrow>
        (b, res_bind (get_u8 bs) (\<lambda>(ct, bs).
            res_bind (ok_or (cert_types_from_bits cr ct) CertAuthExtensionSigInvalid) (\<lambda>cert_type.
            res_bind (split_to 32 bs) (\<lambda>(hash, bs).
            res_bind (ok_or (Signature_from_slice cr bs)
                        (ExtensionImplError (CertAuth Ed25519Error))) (\<lambda>sig.
              if \<exists>x \<in> set (filter (\<lambda>x. vk_cert_type x = cert_type \<and> vk_hash x = hash) verifiers).
                   verifier x challenge sig
              then Ok ServerVerified else Err CertAuthExtensionSigInvalid)))))
    | ClientBeforeChallenge key \<Rightarrow>
        (case res_bind (get_u8 bs) (\<lambda>(r, bs).
              res_bind (get_u8 bs) (\<lambda>(ct, bs).
              res_bind (ok_or (cert_types_from_bits cr ct) CertAuthExtensionCertTypeInvalid)
                (\<lambda>cert_types. Ok (r \<noteq> 0, cert_types, bs)))) of
           Ok (required, cert_types, challenge) \<Rightarrow>
             (ClientAfterChallenge key cert_types challenge required, Ok ClientRecieved)
         | Err e \<Rightarrow> (b, Err e)
         | Panic \<Rightarrow> (b, Panic))
    | ClientAfterChallenge key cert_types challenge required \<Rightarrow> (b, Err ExtensionImplNotSupported)
    | ServerBeforeChallenge verifiers required \<Rightarrow> (b, Err ExtensionImplNotSupported))"

definition CertAuth_build_to_extension ::
    "crypto \<Rightarrow> CertAuthProtocolExtensionBuilder
      \<Rightarrow> CertAuthProtocolExtensionBuilder \<times> CertAuthProtocolExtension wres" where
  "CertAuth_build_to_extension cr b = (case b of
      ServerBeforeChallenge verifiers required \<Rightarrow>
        (case getrandom_fill cr of
           None \<Rightarrow> (b, Err (ExtensionImplError (CertAuth GetrandomError)))
         | Some challenge \<Rightarrow>
             (ServerAfterChallenge verifiers challenge required,
              Ok (CertServer CertTypes_Ed25519 challenge required)))
    | ClientAfterChallenge key cert_types challenge required \<Rightarrow>
        (b, res_bind (ok_or key CertAuthExtensionNoKey) (\<lambda>key.
            if sk_cert_type key \<notin> set (cert_types_iter cr cert_types)
            then Err CertAuthExtensionCertTypeInvalid
            else res_bind (ok_or (signer key challenge)
                            (ExtensionImplError (CertAuth Ed25519Error))) (\<lambda>signature.
              Ok (CertClient (sk_cert_type key) (sk_hash key) signature))))
    | ClientBeforeChallenge key \<Rightarrow> (b, Err ExtensionImplNotSupported)
    | ServerAfterChallenge verifiers challenge required \<Rightarrow> (b, Err ExtensionImplNotSupported))"

section \<open>The server's extensions\<close>

definition TWisp_ID :: u8 where
  "TWisp_ID = 0xF0"

definition Wispnet_ID :: u8 where
  "Wispnet_ID = 0xF1"

text \<open>
  The shared state the server's packet handlers read: the terminals by stream id (\<open>TwispMap\<close>)
  and the registered wispnet servers with their privacy flag, in iteration order. A handler
  answers with what it does: an \<open>ioctl\<close> on a terminal, or a message on the transport.
\<close>

record ext_env =
  twisp_map :: "u32 \<rightharpoonup> nat"
  wispnet_servers :: "(u32 \<times> bool) list"
  ioctls :: "(nat \<times> u16 \<times> u16) list"

datatype ext_effect = SetTermSize nat u16 u16 | WsSend bytes

text \<open>The result of the \<open>ioctl\<close> is ignored; a failed send ends the handler.\<close>

fun run_effects :: "ext_effect list \<Rightarrow> ext_env \<Rightarrow> ws_write \<Rightarrow> ext_env \<times> ws_write \<times> unit wres" where
  "run_effects [] env w = (env, w, Ok ())"
| "run_effects (SetTermSize fd row col # es) env w =
     run_effects es (env\<lparr>ioctls := ioctls env @ [(fd, row, col)]\<rparr>) w"
| "run_effects (WsSend m # es) env w = (case ws_send m w of
      (w, Ok _) \<Rightarrow> run_effects es env w
    | (w, Err e) \<Rightarrow> (env, w, Err e)
    | (w, Panic) \<Rightarrow> (env, w, Panic))"

definition TWisp_handle_packet :: "ext_env \<Rightarrow> u8 \<Rightarrow> bytes \<Rightarrow> ext_effect list wres" where
  "TWisp_handle_packet env ptype packet =
     (if ptype = 0xF0 then
        if length packet < 4 + 2 + 2 then Err PacketTooSmall
        else res_bind (get_u32_le packet) (\<lambda>(sid, packet).
             res_bind (get_u16_le packet) (\<lambda>(row, packet).
             res_bind (get_u16_le packet) (\<lambda>(col, packet).
               case twisp_map env sid of
                 Some pty \<Rightarrow> Ok [SetTermSize pty row col]
               | None \<Rightarrow> Ok [])))
      else Ok [])"

datatype WispnetServerProtocolExtension = WispnetServerProtocolExtension u32 bool

fun Wispnet_encode :: "WispnetServerProtocolExtension \<Rightarrow> bytes" where
  "Wispnet_encode (WispnetServerProtocolExtension net_id private) = put_u32_le net_id"

definition Wispnet_build_from_bytes :: "u32 \<Rightarrow> bytes \<Rightarrow> WispnetServerProtocolExtension wres" where
  "Wispnet_build_from_bytes net_id bs =
     (if length bs < 1 then Err PacketTooSmall
      else res_bind (get_u8 bs) (\<lambda>(p, _). Ok (WispnetServerProtocolExtension net_id (p \<noteq> 0))))"

definition Wispnet_handle_packet :: "ext_env \<Rightarrow> u8 \<Rightarrow> bytes \<Rightarrow> ext_effect list wres" where
  "Wispnet_handle_packet env ptype packet =
     (if ptype = Wispnet_ID then
        if length packet < 4 then Err PacketTooSmall
        else res_bind (get_u32_le packet) (\<lambda>(sid, packet).
          if sid \<noteq> 0 then Err (InvalidStreamId sid)
          else Ok [WsSend ((put_u8 Wispnet_ID @ put_u32_le 0)
                    @ concat (map (\<lambda>(i, private). if \<not> private then put_u32_le i else [])
                               (wispnet_servers env)))])
      else Ok [])"

section \<open>extensions/mod.rs: the trait objects\<close>

datatype AnyProtocolExtension =
    UdpExtension
  | MotdExtension MotdProtocolExtension
  | PasswordExtension PasswordProtocolExtension
  | CertAuthExtension CertAuthProtocolExtension
  | TWispExtension
  | WispnetExtension WispnetServerProtocolExtension

definition extension_get_id :: "AnyProtocolExtension \<Rightarrow> u8" where
  "extension_get_id x = (case x of
      UdpExtension \<Rightarrow> Udp_ID | MotdExtension _ \<Rightarrow> Motd_ID
    | PasswordExtension _ \<Rightarrow> PASSWORD_PROTOCOL_EXTENSION_ID
    | CertAuthExtension _ \<Rightarrow> CertAuth_ID | TWispExtension \<Rightarrow> TWisp_ID
    | WispnetExtension _ \<Rightarrow> Wispnet_ID)"

definition get_supported_packets :: "AnyProtocolExtension \<Rightarrow> u8 list" where
  "get_supported_packets x = (case x of
      TWispExtension \<Rightarrow> [0xF0] | WispnetExtension _ \<Rightarrow> [Wispnet_ID] | _ \<Rightarrow> [])"

definition get_congestion_stream_types :: "AnyProtocolExtension \<Rightarrow> u8 list" where
  "get_congestion_stream_types x = (case x of TWispExtension \<Rightarrow> [0x03] | _ \<Rightarrow> [])"

definition extension_encode :: "AnyProtocolExtension \<Rightarrow> bytes wres" where
  "extension_encode x = (case x of
      UdpExtension \<Rightarrow> Ok [] | MotdExtension m \<Rightarrow> Ok (Motd_encode m)
    | PasswordExtension p \<Rightarrow> Password_encode p
    | CertAuthExtension c \<Rightarrow> Ok (CertAuth_encode c) | TWispExtension \<Rightarrow> Ok []
    | WispnetExtension w \<Rightarrow> Ok (Wispnet_encode w))"

text \<open>\<open>payload.len() as u32\<close> keeps the low 32 bits of the length.\<close>

definition extension_encode_into :: "AnyProtocolExtension \<Rightarrow> bytes \<Rightarrow> bytes wres" where
  "extension_encode_into x packet =
     res_bind (extension_encode x) (\<lambda>payload.
       Ok (((packet @ put_u8 (extension_get_id x)) @ put_u32_le (of_nat (length payload)))
            @ payload))"

text \<open>No extension of the repository overrides \<open>handle_handshake\<close> with an effect.\<close>

definition extension_handle_packet ::
    "ext_env \<Rightarrow> AnyProtocolExtension \<Rightarrow> u8 \<Rightarrow> bytes \<Rightarrow> ext_effect list wres" where
  "extension_handle_packet env x ptype packet = (case x of
      TWispExtension \<Rightarrow> TWisp_handle_packet env ptype packet
    | WispnetExtension _ \<Rightarrow> Wispnet_handle_packet env ptype packet
    | _ \<Rightarrow> Ok [])"

datatype AnyProtocolExtensionBuilder =
    UdpBuilder
  | MotdBuilder MotdProtocolExtensionBuilder
  | PasswordBuilder PasswordProtocolExtensionBuilder
  | CertAuthBuilder CertAuthProtocolExtensionBuilder
  | TWispBuilder
  | WispnetBuilder u32

definition builder_get_id :: "AnyProtocolExtensionBuilder \<Rightarrow> u8" where
  "builder_get_id b = (case b of
      UdpBuilder \<Rightarrow> Udp_ID | MotdBuilder _ \<Rightarrow> Motd_ID
    | PasswordBuilder _ \<Rightarrow> PASSWORD_PROTOCOL_EXTENSION_ID
    | CertAuthBuilder _ \<Rightarrow> CertAuth_ID | TWispBuilder \<Rightarrow> TWisp_ID
    | WispnetBuilder _ \<Rightarrow> Wispnet_ID)"

text \<open>\<open>.into()\<close> of an extension, under a \<open>Result\<close>.\<close>

definition res_map :: "('a \<Rightarrow> 'b) \<Rightarrow> ('a, 'e) res \<Rightarrow> ('b, 'e) res" where
  "res_map f r = res_bind r (\<lambda>x. Ok (f x))"

definition build_from_bytes ::
    "crypto \<Rightarrow> AnyProtocolExtensionBuilder \<Rightarrow> bytes \<Rightarrow> Role
      \<Rightarrow> AnyProtocolExtensionBuilder \<times> AnyProtocolExtension wres" where
  "build_from_bytes cr b bs role = (case b of
      UdpBuilder \<Rightarrow> (b, Ok UdpExtension)
    | MotdBuilder m \<Rightarrow> (b, res_map MotdExtension (Motd_build_from_bytes bs role))
    | PasswordBuilder p \<Rightarrow>
        map_prod PasswordBuilder (res_map PasswordExtension) (Password_build_from_bytes p bs)
    | CertAuthBuilder c \<Rightarrow>
        map_prod CertAuthBuilder (res_map CertAuthExtension) (CertAuth_build_from_bytes cr c bs)
    | TWispBuilder \<Rightarrow> (b, Ok TWispExtension)
    | WispnetBuilder n \<Rightarrow> (b, res_map WispnetExtension (Wispnet_build_from_bytes n bs)))"

definition build_to_extension ::
    "crypto \<Rightarrow> AnyProtocolExtensionBuilder \<Rightarrow> Role
      \<Rightarrow> AnyProtocolExtensionBuilder \<times> AnyProtocolExtension wres" where
  "build_to_extension cr b role = (case b of
      UdpBuilder \<Rightarrow> (b, Ok UdpExtension)
    | MotdBuilder m \<Rightarrow> (b, res_map MotdExtension (Motd_build_to_extension m role))
    | PasswordBuilder p \<Rightarrow> (b, res_map PasswordExtension (Password_build_to_extension p))
    | CertAuthBuilder c \<Rightarrow>
        map_prod CertAuthBuilder (res_map CertAuthExtension) (CertAuth_build_to_extension cr c)
    | TWispBuilder \<Rightarrow> (b, Ok TWispExtension)
    | WispnetBuilder n \<Rightarrow> (b, Ok (WispnetExtension (WispnetServerProtocolExtension n False))))"

text \<open>
  \<open>TypeId\<close>, the downcasts and the list helpers built on them: the search and the removal of
  extensions by type.
\<close>

datatype TypeId = TyUdp | TyMotd | TyPassword | TyCertAuth | TyTWisp | TyWispnet

definition extension_type_id :: "AnyProtocolExtension \<Rightarrow> TypeId" where
  "extension_type_id x = (case x of
      UdpExtension \<Rightarrow> TyUdp | MotdExtension _ \<Rightarrow> TyMotd | PasswordExtension _ \<Rightarrow> TyPassword
    | CertAuthExtension _ \<Rightarrow> TyCertAuth | TWispExtension \<Rightarrow> TyTWisp | WispnetExtension _ \<Rightarrow> TyWispnet)"

definition builder_type_id :: "AnyProtocolExtensionBuilder \<Rightarrow> TypeId" where
  "builder_type_id b = (case b of
      UdpBuilder \<Rightarrow> TyUdp | MotdBuilder _ \<Rightarrow> TyMotd | PasswordBuilder _ \<Rightarrow> TyPassword
    | CertAuthBuilder _ \<Rightarrow> TyCertAuth | TWispBuilder \<Rightarrow> TyTWisp | WispnetBuilder _ \<Rightarrow> TyWispnet)"

definition extension_downcast_ref ::
    "TypeId \<Rightarrow> AnyProtocolExtension \<Rightarrow> AnyProtocolExtension option" where
  "extension_downcast_ref ty x = (if extension_type_id x = ty then Some x else None)"

definition builder_downcast_ref ::
    "TypeId \<Rightarrow> AnyProtocolExtensionBuilder \<Rightarrow> AnyProtocolExtensionBuilder option" where
  "builder_downcast_ref ty b = (if builder_type_id b = ty then Some b else None)"

fun find_map :: "('a \<Rightarrow> 'b option) \<Rightarrow> 'a list \<Rightarrow> 'b option" where
  "find_map f [] = None"
| "find_map f (x # xs) = (case f x of Some y \<Rightarrow> Some y | None \<Rightarrow> find_map f xs)"

definition find_extension ::
    "TypeId \<Rightarrow> AnyProtocolExtension list \<Rightarrow> AnyProtocolExtension option" where
  "find_extension ty xs = find_map (extension_downcast_ref ty) xs"

definition remove_extension ::
    "TypeId \<Rightarrow> AnyProtocolExtension list \<Rightarrow> AnyProtocolExtension list" where
  "remove_extension ty xs = filter (\<lambda>x. extension_downcast_ref ty x = None) xs"

definition builder_find_extension ::
    "TypeId \<Rightarrow> AnyProtocolExtensionBuilder list \<Rightarrow> AnyProtocolExtensionBuilder option" where
  "builder_find_extension ty bs = find_map (builder_downcast_ref ty) bs"

definition builder_remove_extension ::
    "TypeId \<Rightarrow> AnyProtocolExtensionBuilder list \<Rightarrow> AnyProtocolExtensionBuilder list" where
  "builder_remove_extension ty bs = filter (\<lambda>x. builder_downcast_ref ty x = None) bs"

section \<open>Lemmas\<close>

lemma res_map_eq [simp]:
  "res_map f r = Ok y \<longleftrightarrow> (\<exists>x. r = Ok x \<and> y = f x)"
  "res_map f r = Err e \<longleftrightarrow> r = Err e"
  "res_map f r = Panic \<longleftrightarrow> r = Panic"
  by (cases r; auto simp: res_map_def)+

lemma find_map_eq_None: "find_map f xs = None \<longleftrightarrow> (\<forall>x \<in> set xs. f x = None)"
  by (induction xs) (auto split: option.splits)

lemma find_map_eq_Some: "find_map f xs = Some y \<Longrightarrow> \<exists>x \<in> set xs. f x = Some y"
  by (induction xs) (auto split: option.splits)

lemma find_remove_extension: "find_extension ty (remove_extension ty xs) = None"
  by (simp add: find_extension_def remove_extension_def find_map_eq_None)

lemma find_remove_other:
  assumes "ty \<noteq> ty'"
  shows "find_extension ty (remove_extension ty' xs) = find_extension ty xs"
  using assms
  by (induction xs)
    (auto simp: find_extension_def remove_extension_def extension_downcast_ref_def)

lemma get_id_type_id: "extension_get_id x = extension_get_id y \<longleftrightarrow> extension_type_id x = extension_type_id y"
  by (cases x; cases y)
    (simp_all add: extension_get_id_def extension_type_id_def Udp_ID_def Motd_ID_def
      PASSWORD_PROTOCOL_EXTENSION_ID_def CertAuth_ID_def TWisp_ID_def Wispnet_ID_def)

subsection \<open>Password authentication\<close>

lemma unat_len [simp]: "n < 256 \<Longrightarrow> unat (of_nat n :: u8) = n"
  by (simp add: unat_of_nat)

lemma password_server_outcome:
  "Password_build_from_bytes (PwbServerBeforeClientInfo users required) (n # r) =
     (if length r < unat n then (PwbServerBeforeClientInfo users required, Panic)
      else if utf8_valid (take (unat n) r) \<and> utf8_valid (drop (unat n) r)
      then (PwbServerAfterClientInfo users required,
            if users (take (unat n) r) = Some (drop (unat n) r)
            then Ok (PwServerAfterClientInfo (take (unat n) r) (drop (unat n) r))
            else Err PasswordExtensionCredsInvalid)
      else (PwbServerBeforeClientInfo users required, Err Utf8))"
  by (simp add: Password_build_from_bytes_def split_to_def from_utf8_def)

text \<open>
  The server's password check is sound and complete: it accepts a client payload exactly
  when the payload is a length byte, a user name of that length and a password, both UTF-8,
  and the password is the one configured for that user. It then leaves the state in which no
  second attempt is accepted.
\<close>

theorem password_accept_iff:
  "Password_build_from_bytes (PwbServerBeforeClientInfo users required) bs = (b, Ok x) \<longleftrightarrow>
     (\<exists>user password. bs = of_nat (length user) # user @ password \<and> length user < 256
        \<and> utf8_valid user \<and> utf8_valid password \<and> users user = Some password
        \<and> x = PwServerAfterClientInfo user password
        \<and> b = PwbServerAfterClientInfo users required)"
  (is "?l \<longleftrightarrow> ?r")
proof
  assume l: ?l
  then obtain n r where bs: "bs = n # r"
    by (cases bs) (simp_all add: Password_build_from_bytes_def)
  have "unat n < 256" using unsigned_less [of n] by simp
  moreover have "length (take (unat n) r) = unat n"
    using l by (simp add: bs password_server_outcome split: if_splits)
  ultimately show ?r
    using l by (intro exI [of _ "take (unat n) r"] exI [of _ "drop (unat n) r"])
      (auto simp: bs password_server_outcome split: if_splits)
next
  assume ?r
  then show ?l by (auto simp: password_server_outcome)
qed

text \<open>
  Password authentication end to end: a client that learnt the server's requirement from
  its INFO payload and holds credentials with a user name below 256 bytes sends a payload
  the server accepts if and only if the server has these credentials; with other credentials
  the server answers \<open>PasswordExtensionCredsInvalid\<close>, and neither side panics.
\<close>

theorem password_end_to_end:
  assumes "length user < 256" "utf8_valid user" "utf8_valid password"
  shows "\<exists>info cb payload.
      Password_build_to_extension (PwbServerBeforeClientInfo users required)
        = Ok (PwServerBeforeClientInfo required)
    \<and> Password_encode (PwServerBeforeClientInfo required) = Ok info
    \<and> Password_build_from_bytes (PwbClientBeforeServerInfo (Some (user, password))) info
        = (cb, Ok PwClientBeforeServerInfo)
    \<and> Password_is_required cb = Some required
    \<and> Password_build_to_extension cb = Ok (PwClientAfterServerInfo user password)
    \<and> Password_encode (PwClientAfterServerInfo user password) = Ok payload
    \<and> snd (Password_build_from_bytes (PwbServerBeforeClientInfo users required) payload)
        = (if users user = Some password then Ok (PwServerAfterClientInfo user password)
           else Err PasswordExtensionCredsInvalid)"
  using assms
  by (simp add: Password_build_to_extension_def Password_encode_def Password_is_required_def
      password_server_outcome put_u8_def)
    (simp add: Password_build_from_bytes_def Password_is_required_def)

theorem password_end_to_end_witness:
  "snd (Password_build_from_bytes (PwbServerBeforeClientInfo [[117] \<mapsto> [112, 119]] True)
      [1, 117, 112, 119]) = Ok (PwServerAfterClientInfo [117] [112, 119])"
  using password_end_to_end [of "[117]" "[112, 119]" "[[117] \<mapsto> [112, 119]]" True]
  by (auto simp: Password_encode_def put_u8_def)

text \<open>
  When the password payload makes the program panic: the server on an empty payload or
  one shorter than the user name it announces, the client on an empty server payload, and
  the client's encoder on a user name of 256 bytes or more. No other input panics.
\<close>

theorem password_panic_iff:
  "snd (Password_build_from_bytes b bs) = Panic \<longleftrightarrow>
     (case b of
        PwbServerBeforeClientInfo users required \<Rightarrow>
          bs = [] \<or> length (tl bs) < unat (hd bs)
      | PwbClientBeforeServerInfo creds \<Rightarrow> bs = []
      | _ \<Rightarrow> False)"
  by (cases b; cases bs)
    (auto simp: Password_build_from_bytes_def split_to_def from_utf8_def)

subsection \<open>Certificate authentication\<close>

lemma crypto_sig: "crypto_laws cr \<Longrightarrow> Signature_from_slice cr s = Some t \<Longrightarrow> t = s"
  by (simp add: crypto_laws_def)

lemma crypto_from_bits:
  "crypto_laws cr \<Longrightarrow> cert_types_from_bits cr b = (if b AND NOT 1 = 0 then Some b else None)"
  by (simp only: crypto_laws_def)

lemma cert_server_outcome:
  assumes "crypto_laws cr"
  shows "snd (CertAuth_build_from_bytes cr (ServerAfterChallenge keys challenge required) (ct # r)) =
    (if ct AND NOT 1 \<noteq> 0 then Err CertAuthExtensionSigInvalid
     else if length r < 32 then Panic
     else if Signature_from_slice cr (drop 32 r) = None
     then Err (ExtensionImplError (CertAuth Ed25519Error))
     else if \<exists>k \<in> set keys. vk_cert_type k = ct \<and> vk_hash k = take 32 r
                \<and> verifier k challenge (drop 32 r)
     then Ok ServerVerified else Err CertAuthExtensionSigInvalid)"
  using crypto_sig [OF assms, of "drop 32 r"]
  by (auto simp: CertAuth_build_from_bytes_def crypto_from_bits [OF assms] split_to_def ok_or_def
      split: option.splits)

text \<open>
  The server's certificate check: a client answer is accepted exactly when it is a known
  certificate type, a 32-byte key hash and a parseable signature, and some configured key
  with that type and hash verifies the signature over the challenge the server sent.
\<close>

theorem cert_accept_iff:
  assumes "crypto_laws cr"
  shows "snd (CertAuth_build_from_bytes cr (ServerAfterChallenge keys challenge required) bs)
       = Ok x \<longleftrightarrow>
     x = ServerVerified \<and> (\<exists>ct hash sig. bs = ct # hash @ sig \<and> length hash = 32
        \<and> ct AND NOT 1 = 0 \<and> Signature_from_slice cr sig = Some sig
        \<and> (\<exists>k \<in> set keys. vk_cert_type k = ct \<and> vk_hash k = hash \<and> verifier k challenge sig))"
  (is "?l \<longleftrightarrow> ?r")
proof
  assume l: ?l
  then obtain ct r where bs: "bs = ct # r"
    by (cases bs) (simp_all add: CertAuth_build_from_bytes_def)
  obtain sig where "Signature_from_slice cr (drop 32 r) = Some sig"
    using l by (auto simp: bs cert_server_outcome [OF assms] split: if_splits)
  with l show ?r using crypto_sig [OF assms]
    by (intro conjI exI [of _ ct] exI [of _ "take 32 r"] exI [of _ "drop 32 r"])
      (auto simp: bs cert_server_outcome [OF assms] split: if_splits)
next
  assume ?r
  then show ?l by (auto simp: cert_server_outcome [OF assms])
qed

text \<open>A crypto provider whose signatures are single bytes, and a verifier that compares with the challenge.\<close>

definition demo_crypto :: crypto where
  "demo_crypto = \<lparr>Signature_from_slice = (\<lambda>s. if length s = 1 then Some s else None),
     getrandom_fill = Some (replicate 64 7),
     cert_types_from_bits = (\<lambda>b. if b AND NOT 1 = 0 then Some b else None),
     cert_types_iter = (\<lambda>b. if b AND 1 \<noteq> 0 then [1] else [])\<rparr>"

definition demo_key :: VerifyKey where
  "demo_key = VerifyKey_new_ed25519 (\<lambda>challenge sig. sig = take 1 challenge) (replicate 32 0)"

definition demo_signer :: SigningKey where
  "demo_signer = SigningKey_new_ed25519 (\<lambda>challenge. Some (take 1 challenge)) (replicate 32 0)"

lemma demo_crypto_laws: "crypto_laws demo_crypto"
  by (simp add: crypto_laws_def demo_crypto_def)

theorem cert_accept_iff_witness:
  "snd (CertAuth_build_from_bytes demo_crypto (ServerAfterChallenge [demo_key] [7, 8] True)
      (1 # replicate 32 0 @ [7])) = Ok ServerVerified"
  unfolding cert_accept_iff [OF demo_crypto_laws]
  by (auto simp: demo_crypto_def demo_key_def VerifyKey_new_ed25519_def CertTypes_Ed25519_def
      intro!: exI [of _ "replicate 32 0"])

text \<open>
  Certificate authentication end to end: the server sends a fresh 64-byte challenge, the
  client that holds an ed25519 key signs exactly that challenge, and the server accepts if a
  configured key of the same hash verifies the signature and refuses otherwise.
\<close>

theorem cert_end_to_end:
  assumes "crypto_laws cr" "getrandom_fill cr = Some challenge"
    and "signer key challenge = Some sig" "Signature_from_slice cr sig = Some sig"
    and "sk_cert_type key = CertTypes_Ed25519" "length (sk_hash key) = 32"
  shows "\<exists>sb srv cb cli.
      CertAuth_build_to_extension cr (ServerBeforeChallenge keys required) = (sb, Ok srv)
    \<and> CertAuth_build_from_bytes cr (ClientBeforeChallenge (Some key)) (CertAuth_encode srv)
        = (cb, Ok ClientRecieved)
    \<and> CertAuth_is_required cb = Some required
    \<and> CertAuth_build_to_extension cr cb = (cb, Ok cli)
    \<and> snd (CertAuth_build_from_bytes cr sb (CertAuth_encode cli))
        = (if \<exists>k \<in> set keys. vk_cert_type k = CertTypes_Ed25519 \<and> vk_hash k = sk_hash key
              \<and> verifier k challenge sig
           then Ok ServerVerified else Err CertAuthExtensionSigInvalid)"
  using assms
  by (auto simp: CertAuth_build_to_extension_def CertAuth_build_from_bytes_def CertAuth_encode_def
      CertAuth_is_required_def crypto_laws_def put_u8_def split_to_def CertTypes_Ed25519_def
      ok_or_def)

theorem cert_end_to_end_witness:
  "\<exists>sb srv cb cli.
      CertAuth_build_to_extension demo_crypto (ServerBeforeChallenge [demo_key] True) = (sb, Ok srv)
    \<and> CertAuth_build_from_bytes demo_crypto (ClientBeforeChallenge (Some demo_signer))
        (CertAuth_encode srv) = (cb, Ok ClientRecieved)
    \<and> CertAuth_build_to_extension demo_crypto cb = (cb, Ok cli)
    \<and> snd (CertAuth_build_from_bytes demo_crypto sb (CertAuth_encode cli)) = Ok ServerVerified"
  using cert_end_to_end [OF demo_crypto_laws, of "replicate 64 7" demo_signer "[7]" "[demo_key]" True]
  by (auto simp: demo_crypto_def demo_signer_def demo_key_def SigningKey_new_ed25519_def
      VerifyKey_new_ed25519_def numeral_eq_Suc)

subsection \<open>MOTD\<close>

lemma motd_round_trip:
  assumes "utf8_valid m"
  shows "\<exists>x. Motd_build_to_extension (MotdServer m) Server = Ok x
    \<and> Motd_build_from_bytes (Motd_encode x) Client = Ok \<lparr>motd_role = Client, motd = m\<rparr>"
  using assms by (simp add: Motd_build_to_extension_def Motd_build_from_bytes_def Motd_encode_def)

end
