(* ===== verification/Info_Packet.thy ===== *)
theory Info_Packet
  imports Extensions
begin

text \<open>
  INFO packets and the two decoders that recognise them, \<open>wisp/src/packet.rs\<close>:
  \<open>InfoPacket\<close>, \<open>MaybeInfoPacket\<close> (during the handshake) and \<open>MaybeExtensionPacket\<close> (once the
  multiplexor runs).
\<close>

section \<open>InfoPacket\<close>

record InfoPacket =
  version :: WispVersion
  extensions :: "AnyProtocolExtension list"

text \<open>
  \<open>builders.iter_mut().find(...)\<close> followed by \<open>build_from_bytes\<close> on the builder found, in
  place; \<open>None\<close> when no builder has the id.
\<close>

fun build_first ::
    "crypto \<Rightarrow> u8 \<Rightarrow> bytes \<Rightarrow> Role \<Rightarrow> AnyProtocolExtensionBuilder list
      \<Rightarrow> (AnyProtocolExtensionBuilder list \<times> AnyProtocolExtension wres) option" where
  "build_first cr i payload role [] = None"
| "build_first cr i payload role (b # bs) =
    (if builder_get_id b = i
     then (case build_from_bytes cr b payload role of (b', r) \<Rightarrow> Some (b' # bs, r))
     else map_option (\<lambda>(bs', r). (b # bs', r)) (build_first cr i payload role bs))"

function InfoPacket_decode_extensions ::
    "crypto \<Rightarrow> Role \<Rightarrow> bytes \<Rightarrow> AnyProtocolExtensionBuilder list \<Rightarrow> AnyProtocolExtension list
      \<Rightarrow> AnyProtocolExtensionBuilder list \<times> AnyProtocolExtension list wres" where
  "InfoPacket_decode_extensions cr role packet builders exts =
    (if length packet < 1 + 4 then (builders, Ok exts)
     else case res_bind (get_u8 packet) (\<lambda>(i, packet).
               res_bind (get_u32_le packet) (\<lambda>(len, packet). Ok (i, unat len, packet))) of
       Panic \<Rightarrow> (builders, Panic)
     | Err e \<Rightarrow> (builders, Err e)
     | Ok (i, len, rest) \<Rightarrow>
         if length rest < len then (builders, Err PacketTooSmall)
         else (case build_first cr i (take len rest) role builders of
            Some (builders, Ok x) \<Rightarrow>
              InfoPacket_decode_extensions cr role (drop len rest) builders (exts @ [x])
          | Some (builders, Err e) \<Rightarrow> (builders, Err e)
          | Some (builders, Panic) \<Rightarrow> (builders, Panic)
          | None \<Rightarrow> InfoPacket_decode_extensions cr role (drop len rest) builders exts))"
  by pat_completeness auto
termination
  by (relation "measure (\<lambda>(cr, role, packet, builders, exts). length packet)")
    (auto simp: get_u32_le_eq_Ok)

declare InfoPacket_decode_extensions.simps [simp del]

definition InfoPacket_decode ::
    "crypto \<Rightarrow> bytes \<Rightarrow> AnyProtocolExtensionBuilder list \<Rightarrow> Role
      \<Rightarrow> AnyProtocolExtensionBuilder list \<times> InfoPacket wres" where
  "InfoPacket_decode cr packet builders role =
    (if length packet < 1 * 2 then (builders, Err PacketTooSmall)
     else case res_bind (get_u8 packet) (\<lambda>(a, packet).
               res_bind (get_u8 packet) (\<lambda>(b, packet). Ok (\<lparr>major = a, minor = b\<rparr>, packet))) of
       Panic \<Rightarrow> (builders, Panic)
     | Err e \<Rightarrow> (builders, Err e)
     | Ok (v, packet) \<Rightarrow>
         if major v \<noteq> major WISP_VERSION
         then (builders, Err (IncompatibleProtocolVersion v WISP_VERSION))
         else (case InfoPacket_decode_extensions cr role packet builders [] of
                 (builders, r) \<Rightarrow>
                   (builders, res_bind r (\<lambda>exts. Ok \<lparr>version = v, extensions = exts\<rparr>))))"

fun encode_extensions :: "AnyProtocolExtension list \<Rightarrow> bytes \<Rightarrow> bytes wres" where
  "encode_extensions [] packet = Ok packet"
| "encode_extensions (x # xs) packet =
     res_bind (extension_encode_into x packet) (\<lambda>packet. encode_extensions xs packet)"

definition InfoPacket_encode :: "InfoPacket \<Rightarrow> bytes wres" where
  "InfoPacket_encode p =
     encode_extensions (extensions p)
       (WispVersion_encode_into (version p) (put_u8 0x05 @ put_u32_be 0))"

section \<open>MaybeInfoPacket\<close>

datatype MaybeInfoPacket = MIPacket Packet | MIInfo InfoPacket

definition MaybeInfoPacket_decode ::
    "crypto \<Rightarrow> bytes \<Rightarrow> AnyProtocolExtensionBuilder list \<Rightarrow> Role
      \<Rightarrow> AnyProtocolExtensionBuilder list \<times> MaybeInfoPacket wres" where
  "MaybeInfoPacket_decode cr packet builders role =
    (if length packet < 1 + 4 then (builders, Err PacketTooSmall)
     else case res_bind (get_u8 packet) (\<lambda>(ty, packet).
               res_bind (get_u32_le packet) (\<lambda>(sid, packet). Ok (ty, sid, packet))) of
       Panic \<Rightarrow> (builders, Panic)
     | Err e \<Rightarrow> (builders, Err e)
     | Ok (ty, sid, packet) \<Rightarrow>
         if ty = 0x05 then
           (case InfoPacket_decode cr packet builders role of
              (builders, r) \<Rightarrow> (builders, res_map MIInfo r))
         else (builders, res_bind (PacketType_decode packet ty) (\<lambda>pt.
                 Ok (MIPacket \<lparr>stream_id = sid, packet_type = pt\<rparr>))))"

section \<open>MaybeExtensionPacket\<close>

datatype MaybeExtensionPacket = MEPacket Packet | ExtensionHandled

text \<open>
  The first extension that supports the packet type handles it, with the locked write half
  of the transport. Without one, the type is invalid.
\<close>

fun handle_by_extension ::
    "AnyProtocolExtension list \<Rightarrow> u8 \<Rightarrow> bytes \<Rightarrow> ext_env \<Rightarrow> ws_write
      \<Rightarrow> ext_env \<times> ws_write \<times> MaybeExtensionPacket wres" where
  "handle_by_extension [] ty packet env w = (env, w, Err (InvalidPacketType ty))"
| "handle_by_extension (x # xs) ty packet env w =
    (if ty \<in> set (get_supported_packets x) then
       (case extension_handle_packet env x ty packet of
          Ok es \<Rightarrow> (case run_effects es env w of
              (env, w, r) \<Rightarrow> (env, w, res_bind r (\<lambda>_. Ok ExtensionHandled)))
        | Err e \<Rightarrow> (env, w, Err e)
        | Panic \<Rightarrow> (env, w, Panic))
     else handle_by_extension xs ty packet env w)"

definition MaybeExtensionPacket_decode ::
    "bytes \<Rightarrow> AnyProtocolExtension list \<Rightarrow> ext_env \<Rightarrow> ws_write
      \<Rightarrow> ext_env \<times> ws_write \<times> MaybeExtensionPacket wres" where
  "MaybeExtensionPacket_decode packet exts env w =
    (if length packet < 1 + 4 then (env, w, Err PacketTooSmall)
     else case res_bind (get_u8 packet) (\<lambda>(ty, packet).
               res_bind (get_u32_le packet) (\<lambda>(sid, packet). Ok (ty, sid, packet))) of
       Panic \<Rightarrow> (env, w, Panic)
     | Err e \<Rightarrow> (env, w, Err e)
     | Ok (ty, sid, packet) \<Rightarrow>
         if 0x01 \<le> ty \<and> ty \<le> 0x04 then
           (env, w, res_bind (PacketType_decode packet ty) (\<lambda>pt.
              Ok (MEPacket \<lparr>stream_id = sid, packet_type = pt\<rparr>)))
         else handle_by_extension exts ty packet env w)"

section \<open>Specification: parse first, build afterwards\<close>

text \<open>
  The extension list of an INFO packet as a list of items \<open>(id, payload)\<close>, parsed without
  any builder, and the flag that tells that the last item is cut off; then the builders run
  on the items in order.
\<close>

definition tlv_encode :: "u8 \<times> bytes \<Rightarrow> bytes" where
  "tlv_encode = (\<lambda>(i, payload). i # put_u32_le (of_nat (length payload)) @ payload)"

function parse_tlvs :: "bytes \<Rightarrow> (u8 \<times> bytes) list \<times> bool" where
  "parse_tlvs bs =
    (case bs of
       i # a # b # c # d # rest \<Rightarrow>
         (let len = unat (ucast a OR push_bit 8 (ucast b) OR push_bit 16 (ucast c)
                          OR push_bit 24 (ucast d) :: u32)
          in if length rest < len then ([], True)
             else (case parse_tlvs (drop len rest) of
                     (items, truncated) \<Rightarrow> ((i, take len rest) # items, truncated)))
     | _ \<Rightarrow> ([], False))"
  by pat_completeness auto
termination
  by (relation "measure length") auto

declare parse_tlvs.simps [simp del]

fun build_all ::
    "crypto \<Rightarrow> Role \<Rightarrow> (u8 \<times> bytes) list \<Rightarrow> AnyProtocolExtensionBuilder list
      \<Rightarrow> AnyProtocolExtension list
      \<Rightarrow> AnyProtocolExtensionBuilder list \<times> AnyProtocolExtension list wres" where
  "build_all cr role [] builders exts = (builders, Ok exts)"
| "build_all cr role ((i, payload) # items) builders exts =
    (case build_first cr i payload role builders of
       Some (builders, Ok x) \<Rightarrow> build_all cr role items builders (exts @ [x])
     | Some (builders, Err e) \<Rightarrow> (builders, Err e)
     | Some (builders, Panic) \<Rightarrow> (builders, Panic)
     | None \<Rightarrow> build_all cr role items builders exts)"

definition info_spec ::
    "crypto \<Rightarrow> Role \<Rightarrow> bytes \<Rightarrow> AnyProtocolExtensionBuilder list \<Rightarrow> AnyProtocolExtension list
      \<Rightarrow> AnyProtocolExtensionBuilder list \<times> AnyProtocolExtension list wres" where
  "info_spec cr role bs builders exts =
    (case parse_tlvs bs of (items, truncated) \<Rightarrow>
       (case build_all cr role items builders exts of (builders, r) \<Rightarrow>
          (builders, if truncated then res_bind r (\<lambda>_. Err PacketTooSmall) else r)))"

section \<open>Lemmas\<close>

subsection \<open>Builders\<close>

lemma build_from_bytes_id [simp]:
  "builder_get_id (fst (build_from_bytes cr b bs role)) = builder_get_id b"
  by (cases b) (simp_all add: build_from_bytes_def builder_get_id_def)

lemma build_from_bytes_same_id:
  "build_from_bytes cr b bs role = (b', r) \<Longrightarrow> builder_get_id b' = builder_get_id b"
  using build_from_bytes_id [of cr b bs role] by simp

lemma build_from_bytes_ext_id:
  "snd (build_from_bytes cr b bs role) = Ok x \<Longrightarrow> extension_get_id x = builder_get_id b"
  by (cases b) (auto simp: build_from_bytes_def builder_get_id_def extension_get_id_def)

lemma build_to_extension_id [simp]:
  "builder_get_id (fst (build_to_extension cr b role)) = builder_get_id b"
  by (cases b) (simp_all add: build_to_extension_def builder_get_id_def)

lemma build_to_extension_ext_id:
  "snd (build_to_extension cr b role) = Ok x \<Longrightarrow> extension_get_id x = builder_get_id b"
  by (cases b) (auto simp: build_to_extension_def builder_get_id_def extension_get_id_def)

lemma build_first_eq_None:
  "build_first cr i payload role bs = None \<longleftrightarrow> i \<notin> builder_get_id ` set bs"
  by (induction bs) (auto split: prod.splits)

lemma build_first_ids:
  "build_first cr i payload role bs = Some (bs', r) \<Longrightarrow>
     map builder_get_id bs' = map builder_get_id bs"
proof (induction bs arbitrary: bs')
  case (Cons b bs)
  then show ?case
    by (auto split: if_splits prod.splits dest: build_from_bytes_same_id)
qed simp

lemma build_first_ext_id:
  "build_first cr i payload role bs = Some (bs', Ok x) \<Longrightarrow> extension_get_id x = i"
proof (induction bs arbitrary: bs')
  case (Cons b bs)
  then show ?case
    using build_from_bytes_ext_id [of cr b payload role x]
    by (auto split: if_splits prod.splits)
qed simp

text \<open>What is built has the ids that were sent and that a builder knows, in order.\<close>

lemma build_all_ids:
  assumes "build_all cr role items builders exts = (builders', Ok out)"
  shows "map builder_get_id builders' = map builder_get_id builders"
    and "map extension_get_id out =
      map extension_get_id exts @ filter (\<lambda>i. i \<in> builder_get_id ` set builders) (map fst items)"
proof -
  have "map builder_get_id builders' = map builder_get_id builders \<and>
    map extension_get_id out =
      map extension_get_id exts @ filter (\<lambda>i. i \<in> builder_get_id ` set builders) (map fst items)"
    using assms
  proof (induction cr role items builders exts rule: build_all.induct)
    case (2 cr role i payload items builders exts)
    show ?case
    proof (cases "build_first cr i payload role builders")
      case None
      with 2 show ?thesis by (simp add: build_first_eq_None)
    next
      case (Some p)
      obtain bs r where p: "p = (bs, r)" by (cases p)
      with 2 Some obtain x where r: "r = Ok x" by (cases r) auto
      have ids: "map builder_get_id bs = map builder_get_id builders"
        using Some by (auto simp: p dest: build_first_ids)
      then have "builder_get_id ` set bs = builder_get_id ` set builders"
        by (metis list.set_map)
      moreover have "i \<in> builder_get_id ` set builders"
        using Some by (metis build_first_eq_None option.distinct(1))
      moreover have "extension_get_id x = i"
        using Some by (auto simp: p r dest: build_first_ext_id)
      ultimately show ?thesis
        using 2 Some ids by (simp add: p r)
    qed
  qed simp
  then show "map builder_get_id builders' = map builder_get_id builders"
    and "map extension_get_id out =
      map extension_get_id exts @ filter (\<lambda>i. i \<in> builder_get_id ` set builders) (map fst items)"
    by auto
qed

subsection \<open>Items\<close>

lemma parse_tlvs_short: "length bs < 5 \<Longrightarrow> parse_tlvs bs = ([], False)"
  by (subst parse_tlvs.simps) (auto split: list.splits)

lemma parse_tlvs_cons:
  "parse_tlvs (i # put_u32_le len @ rest) =
     (if length rest < unat len then ([], True)
      else (case parse_tlvs (drop (unat len) rest) of
              (items, truncated) \<Rightarrow> ((i, take (unat len) rest) # items, truncated)))"
proof -
  have "get_u32_le (put_u32_le len @ rest) = (Ok (len, rest) :: (u32 \<times> bytes, unit) res)"
    by (rule get_put_u32_le)
  then show ?thesis
    by (subst parse_tlvs.simps) (simp add: put_u32_le_def Let_def)
qed

lemma parse_tlvs_encode:
  assumes "\<forall>(i, payload) \<in> set items. length payload < 2 ^ 32" "length trail < 5"
  shows "parse_tlvs (concat (map tlv_encode items) @ trail) = (items, False)"
  using assms
proof (induction items)
  case (Cons item items)
  obtain i payload where item: "item = (i, payload)" by (cases item)
  have "unat (of_nat (length payload) :: u32) = length payload"
    using Cons.prems by (simp add: item unat_of_nat)
  with Cons show ?case
    by (simp add: item tlv_encode_def parse_tlvs_cons)
qed (simp add: parse_tlvs_short)

lemma decode_extensions_short:
  "length packet < 5 \<Longrightarrow>
     InfoPacket_decode_extensions cr role packet builders exts = (builders, Ok exts)"
  by (subst InfoPacket_decode_extensions.simps) simp

lemma decode_extensions_cons:
  "InfoPacket_decode_extensions cr role (i # put_u32_le len @ rest) builders exts =
     (if length rest < unat len then (builders, Err PacketTooSmall)
      else (case build_first cr i (take (unat len) rest) role builders of
         Some (builders, Ok x) \<Rightarrow>
           InfoPacket_decode_extensions cr role (drop (unat len) rest) builders (exts @ [x])
       | Some (builders, Err e) \<Rightarrow> (builders, Err e)
       | Some (builders, Panic) \<Rightarrow> (builders, Panic)
       | None \<Rightarrow> InfoPacket_decode_extensions cr role (drop (unat len) rest) builders exts))"
  by (subst InfoPacket_decode_extensions.simps) simp

lemma decode_extensions_spec:
  "InfoPacket_decode_extensions cr role packet builders exts = info_spec cr role packet builders exts"
proof (induction "length packet" arbitrary: packet builders exts rule: less_induct)
  case less
  show ?case
  proof (cases "length packet < 5")
    case True
    then show ?thesis by (simp add: decode_extensions_short info_spec_def parse_tlvs_short)
  next
    case False
    then obtain i len rest where packet: "packet = i # put_u32_le len @ rest"
      using packet_header_split by (metis not_less)
    have "InfoPacket_decode_extensions cr role (drop (unat len) rest) bs xs =
        info_spec cr role (drop (unat len) rest) bs xs" for bs xs
      by (rule less) (simp add: packet)
    then show ?thesis
      by (auto simp: packet decode_extensions_cons info_spec_def parse_tlvs_cons
          split: option.splits prod.splits res.splits)
  qed
qed

text \<open>
  C31. The one-pass decoder of the INFO extension list, which interleaves parsing and building,
  computes what parsing the whole list first and running the builders afterwards computes,
  on every input: the same extensions in the same order, the same builder states, and the
  same first error (a builder's error, or \<open>PacketTooSmall\<close> for a truncated item).
\<close>

theorem info_decode_two_phase:
  "InfoPacket_decode_extensions cr role packet builders exts = info_spec cr role packet builders exts"
  by (rule decode_extensions_spec)

subsection \<open>Encoding\<close>

definition encodable :: "AnyProtocolExtension \<Rightarrow> bool" where
  "encodable x = (case extension_encode x of Ok payload \<Rightarrow> length payload < 2 ^ 32 | _ \<Rightarrow> False)"

text \<open>The items an INFO packet with these extensions carries.\<close>

definition tlv_of :: "AnyProtocolExtension \<Rightarrow> u8 \<times> bytes" where
  "tlv_of x = (extension_get_id x, case extension_encode x of Ok payload \<Rightarrow> payload | _ \<Rightarrow> [])"

lemma encode_extensions_eq:
  "\<forall>x \<in> set xs. encodable x \<Longrightarrow>
     encode_extensions xs packet = Ok (packet @ concat (map (tlv_encode \<circ> tlv_of) xs))"
  by (induction xs arbitrary: packet)
    (auto simp: extension_encode_into_def encodable_def tlv_of_def tlv_encode_def put_u8_def
      split: res.splits)

lemma info_encode_eq:
  assumes "\<forall>x \<in> set (extensions p). encodable x"
  shows "InfoPacket_encode p = Ok (5 # put_u32_le 0 @ major (version p) # minor (version p)
           # concat (map tlv_encode (map tlv_of (extensions p))))"
  using assms
  by (simp add: InfoPacket_encode_def encode_extensions_eq WispVersion_encode_into_def put_u8_def
      put_u32_be_0)

lemma InfoPacket_decode_cons:
  "InfoPacket_decode cr (a # b # packet) builders role =
     (if a \<noteq> 2 then (builders, Err (IncompatibleProtocolVersion \<lparr>major = a, minor = b\<rparr> WISP_VERSION))
      else (case info_spec cr role packet builders [] of
              (builders, r) \<Rightarrow>
                (builders, res_bind r (\<lambda>exts. Ok \<lparr>version = \<lparr>major = a, minor = b\<rparr>, extensions = exts\<rparr>))))"
  by (simp add: InfoPacket_decode_def decode_extensions_spec)

lemma MaybeInfoPacket_decode_info:
  "MaybeInfoPacket_decode cr (5 # put_u32_le sid @ packet) builders role =
     (case InfoPacket_decode cr packet builders role of (builders, r) \<Rightarrow> (builders, res_map MIInfo r))"
  by (simp add: MaybeInfoPacket_decode_def)

lemma info_spec_encode:
  assumes "\<forall>(i, payload) \<in> set items. length payload < 2 ^ 32"
  shows "info_spec cr role (concat (map tlv_encode items)) builders exts =
    build_all cr role items builders exts"
  using parse_tlvs_encode [OF assms, of "[]"]
  by (simp add: info_spec_def split: prod.splits)

lemma tlv_of_length:
  "\<forall>x \<in> set xs. encodable x \<Longrightarrow>
     \<forall>(i, payload) \<in> set (map tlv_of xs). length payload < 2 ^ 32"
  by (induction xs) (auto simp: encodable_def tlv_of_def split: res.splits)

lemma info_decode_encoded:
  assumes "\<forall>x \<in> set (extensions p). encodable x" "major (version p) = 2"
    and "InfoPacket_encode p = Ok bs"
  shows "MaybeInfoPacket_decode cr bs builders role =
    (case build_all cr role (map tlv_of (extensions p)) builders [] of
       (builders, r) \<Rightarrow>
         (builders, res_bind r (\<lambda>exts. Ok (MIInfo \<lparr>version = version p, extensions = exts\<rparr>))))"
proof -
  note items = info_spec_encode [OF tlv_of_length [OF assms(1)], of cr role builders "[]",
      simplified map_map]
  have v: "\<lparr>major = 2, minor = minor (version p)\<rparr> = version p"
    using assms(2) by (cases "version p") simp
  show ?thesis
    using assms(3) unfolding info_encode_eq [OF assms(1)]
    by (auto simp: MaybeInfoPacket_decode_info InfoPacket_decode_cons items assms(2) v res_map_def
        res_bind_assoc split: prod.splits)
qed

lemma build_all_items_ids:
  assumes "build_all cr role (map tlv_of xs) builders [] = (builders', Ok out)"
  shows "map extension_get_id out =
    filter (\<lambda>i. i \<in> builder_get_id ` set builders) (map extension_get_id xs)"
  using build_all_ids(2) [OF assms] by (simp add: comp_def tlv_of_def)

text \<open>
  An INFO packet whose extensions can be encoded survives the wire: the receiver sees the
  sender's version and runs, for each extension sent and in that order, the first of its
  builders with that id on exactly the payload sent; extensions it does not know are skipped.
  When every builder succeeds, the ids received are the ids sent that the receiver knows.
\<close>

theorem info_round_trip:
  assumes "\<forall>x \<in> set (extensions p). encodable x" "major (version p) = 2"
  shows "\<exists>bs. InfoPacket_encode p = Ok bs
    \<and> MaybeInfoPacket_decode cr bs builders role =
        (case build_all cr role (map tlv_of (extensions p)) builders [] of
           (builders', r) \<Rightarrow>
             (builders', res_bind r (\<lambda>exts. Ok (MIInfo \<lparr>version = version p, extensions = exts\<rparr>))))
    \<and> (\<forall>builders' q. MaybeInfoPacket_decode cr bs builders role = (builders', Ok q) \<longrightarrow>
         (\<exists>exts. q = MIInfo \<lparr>version = version p, extensions = exts\<rparr>
           \<and> map extension_get_id exts = filter (\<lambda>i. i \<in> builder_get_id ` set builders)
                (map extension_get_id (extensions p))))"
proof -
  obtain bs where bs: "InfoPacket_encode p = Ok bs"
    using info_encode_eq [OF assms(1)] by blast
  note decoded = info_decode_encoded [OF assms bs, of cr builders role]
  show ?thesis
    by (rule exI [of _ bs])
      (auto simp: bs decoded split: prod.splits dest!: build_all_items_ids)
qed

theorem info_round_trip_witness:
  "\<exists>bs. InfoPacket_encode \<lparr>version = \<lparr>major = 2, minor = 0\<rparr>, extensions =
        [UdpExtension, MotdExtension \<lparr>motd_role = Server, motd = [104, 105]\<rparr>]\<rparr> = Ok bs
    \<and> snd (MaybeInfoPacket_decode demo_crypto bs [MotdBuilder MotdClient] Client) =
        Ok (MIInfo \<lparr>version = \<lparr>major = 2, minor = 0\<rparr>,
          extensions = [MotdExtension \<lparr>motd_role = Client, motd = [104, 105]\<rparr>]\<rparr>)"
  using info_round_trip [of "\<lparr>version = \<lparr>major = 2, minor = 0\<rparr>, extensions =
        [UdpExtension, MotdExtension \<lparr>motd_role = Server, motd = [104, 105]\<rparr>]\<rparr>"
      demo_crypto "[MotdBuilder MotdClient]" Client]
  by (auto simp: encodable_def extension_encode_def Motd_encode_def tlv_of_def extension_get_id_def
      builder_get_id_def Udp_ID_def Motd_ID_def build_from_bytes_def Motd_build_from_bytes_def
      res_map_def)

section \<open>Packets of a running multiplexor\<close>

lemma MaybeExtensionPacket_decode_cons:
  "MaybeExtensionPacket_decode (ty # put_u32_le sid @ packet) exts env w =
     (if 1 \<le> ty \<and> ty \<le> 4
      then (env, w, res_map MEPacket (Packet_decode (ty # put_u32_le sid @ packet)))
      else handle_by_extension exts ty packet env w)"
  by (simp add: MaybeExtensionPacket_decode_def Packet_decode_cons res_map_def res_bind_assoc)

lemma handle_by_extension_none:
  "\<forall>x \<in> set exts. ty \<notin> set (get_supported_packets x) \<Longrightarrow>
     handle_by_extension exts ty packet env w = (env, w, Err (InvalidPacketType ty))"
  by (induction exts) auto

text \<open>
  The two packets the server's own extensions define never reach their handlers in the
  form they are specified in. The decoder has consumed the stream id when it calls the handler,
  and the handler reads it again from the body: the wispnet probe (type 0xF1, stream 0, no
  body) and a terminal resize (type 0xF0, stream id, rows, columns) are both answered with
  \<open>PacketTooSmall\<close>. Only a body that repeats the stream id is understood.
\<close>

theorem server_extension_packets_rejected:
  "MaybeExtensionPacket_decode (0xF1 # put_u32_le 0) [WispnetExtension x] env w
     = (env, w, Err PacketTooSmall)
   \<and> MaybeExtensionPacket_decode (0xF0 # put_u32_le sid @ put_u16_le rows @ put_u16_le cols)
       [TWispExtension] env w = (env, w, Err PacketTooSmall)
   \<and> (\<exists>env' r. MaybeExtensionPacket_decode
         (0xF0 # put_u32_le sid @ put_u32_le sid @ put_u16_le rows @ put_u16_le cols)
         [TWispExtension] env w = (env', w, Ok ExtensionHandled)
       \<and> ioctls env' = ioctls env @ (case twisp_map env sid of None \<Rightarrow> []
                                       | Some fd \<Rightarrow> [(fd, rows, cols)]))"
proof -
  note cons = MaybeExtensionPacket_decode_cons [where packet = "[]", simplified]
  have resize: "TWisp_handle_packet env 0xF0
      (put_u32_le sid @ put_u16_le rows @ put_u16_le cols) =
      Ok (case twisp_map env sid of None \<Rightarrow> [] | Some fd \<Rightarrow> [SetTermSize fd rows cols])"
    by (simp add: TWisp_handle_packet_def split: option.splits)
  show ?thesis
    by (auto simp: cons MaybeExtensionPacket_decode_cons get_supported_packets_def
        Wispnet_ID_def extension_handle_packet_def Wispnet_handle_packet_def resize
        split: option.splits)
      (simp_all add: TWisp_handle_packet_def)
qed

end
