(* ===== verification/Locked_Sink.thy ===== *)
theory Locked_Sink
  imports Wisp_Types
begin

text \<open>
  The unfair asynchronous mutex around the transport's write half, \<open>wisp/src/locked_sink.rs\<close>.

  The first part translates the operations as they run without interference. The second part
  cuts them at their atomic accesses (the swap of the flag, each critical section of the
  waiters mutex, the store, the call of a waker) and lets the handles of any number of tasks
  interleave. A task is named by the handle it polls, so its waker is the handle's number. The
  slab of waiters comes from another crate: a vacant key is chosen for an insertion and an
  iteration visits all keys in some order, both supplied from outside.
\<close>

section \<open>Waiters\<close>

datatype Waiter = Sleeping nat | Woken

definition Waiter_new :: "nat \<Rightarrow> Waiter" where
  "Waiter_new cx = Sleeping cx"

definition Waiter_register :: "Waiter \<Rightarrow> nat \<Rightarrow> Waiter" where
  "Waiter_register x cx = (case x of Sleeping _ \<Rightarrow> Sleeping cx | Woken \<Rightarrow> Sleeping cx)"

definition Waiter_wake :: "Waiter \<Rightarrow> Waiter \<times> nat option" where
  "Waiter_wake x = (Woken, case x of Sleeping w \<Rightarrow> Some w | Woken \<Rightarrow> None)"

type_synonym WakerList = "nat \<rightharpoonup> Waiter"

definition WakerList_add :: "nat \<Rightarrow> nat \<Rightarrow> WakerList \<Rightarrow> WakerList" where
  "WakerList_add key cx ws = ws(key \<mapsto> Waiter_new cx)"

definition WakerList_update :: "nat \<Rightarrow> nat \<Rightarrow> WakerList \<Rightarrow> (WakerList, 'e) res" where
  "WakerList_update key cx ws = (case ws key of
      None \<Rightarrow> Panic
    | Some w \<Rightarrow> Ok (ws(key \<mapsto> Waiter_register w cx)))"

definition WakerList_remove :: "nat \<Rightarrow> WakerList \<Rightarrow> (WakerList, 'e) res" where
  "WakerList_remove key ws = (case ws key of None \<Rightarrow> Panic | Some w \<Rightarrow> Ok (ws(key := None)))"

text \<open>\<open>iter_mut().find_map(|x| x.1.wake())\<close>, along the keys in iteration order.\<close>

fun get_next :: "nat list \<Rightarrow> WakerList \<Rightarrow> WakerList \<times> nat option" where
  "get_next [] ws = (ws, None)"
| "get_next (k # ks) ws = (case ws k of
      None \<Rightarrow> get_next ks ws
    | Some x \<Rightarrow> (case Waiter_wake x of
          (x', Some w) \<Rightarrow> (ws(k \<mapsto> x'), Some w)
        | (x', None) \<Rightarrow> get_next ks (ws(k \<mapsto> x'))))"

section \<open>The lock without interference\<close>

datatype LockStatus = Joined nat | Waiting | Unlocked

record SinkState =
  locked :: bool
  waiters :: WakerList

definition SinkState_new :: SinkState where
  "SinkState_new = \<lparr>locked = False, waiters = Map.empty\<rparr>"

definition SinkState_lock ::
    "nat \<Rightarrow> nat option \<Rightarrow> nat \<Rightarrow> SinkState \<Rightarrow> (SinkState \<times> LockStatus, 'e) res" where
  "SinkState_lock vacant key cx st =
    (let old_state = locked st; st = st\<lparr>locked := True\<rparr>
     in case (key, old_state) of
          (Some key, True) \<Rightarrow> res_bind (WakerList_update key cx (waiters st)) (\<lambda>ws.
             Ok (st\<lparr>waiters := ws\<rparr>, Waiting))
        | (None, True) \<Rightarrow> Ok (st\<lparr>waiters := WakerList_add vacant cx (waiters st)\<rparr>, Joined vacant)
        | (_, False) \<Rightarrow> Ok (st, Unlocked))"

definition SinkState_unlock :: "nat list \<Rightarrow> SinkState \<Rightarrow> SinkState \<times> nat option" where
  "SinkState_unlock ks st =
    (case get_next ks (waiters st) of
       (ws, next) \<Rightarrow> (st\<lparr>locked := False, waiters := ws\<rparr>, next))"

definition SinkState_remove :: "nat \<Rightarrow> SinkState \<Rightarrow> (SinkState, 'e) res" where
  "SinkState_remove key st =
     res_bind (WakerList_remove key (waiters st)) (\<lambda>ws. Ok (st\<lparr>waiters := ws\<rparr>))"

record LockedSink =
  pos :: "nat option"
  ls_locked :: bool

definition LockedSink_new :: LockedSink where
  "LockedSink_new = \<lparr>pos = None, ls_locked = False\<rparr>"

definition LockedSink_clone :: "LockedSink \<Rightarrow> LockedSink" where
  "LockedSink_clone l = \<lparr>pos = None, ls_locked = False\<rparr>"

text \<open>What all three branches of \<open>poll_lock\<close> do once the flag is theirs.\<close>

definition take_lock ::
    "SinkState \<Rightarrow> LockedSink \<Rightarrow> (SinkState \<times> LockedSink \<times> unit poll, 'e) res" where
  "take_lock st l =
     res_bind (case pos l of None \<Rightarrow> Ok st | Some key \<Rightarrow> SinkState_remove key st) (\<lambda>st.
       Ok (st, l\<lparr>pos := None, ls_locked := True\<rparr>, Ready ()))"

definition poll_lock ::
    "nat \<Rightarrow> nat \<Rightarrow> SinkState \<Rightarrow> LockedSink \<Rightarrow> (SinkState \<times> LockedSink \<times> unit poll, 'e) res" where
  "poll_lock vacant cx st l =
    (if ls_locked l then Ok (st, l, Ready ())
     else res_bind (SinkState_lock vacant (pos l) cx st) (\<lambda>(st, status).
       case status of
         Joined p \<Rightarrow>
           (let l = l\<lparr>pos := Some p\<rparr>
            in res_bind (SinkState_lock vacant (pos l) cx st) (\<lambda>(st, status).
                 if status = Unlocked then take_lock st l else Ok (st, l, Pending)))
       | Waiting \<Rightarrow>
           res_bind (SinkState_lock vacant (pos l) cx st) (\<lambda>(st, status).
             if status = Unlocked then take_lock st l else Ok (st, l, Pending))
       | Unlocked \<Rightarrow> take_lock st l))"

definition unlock :: "nat list \<Rightarrow> SinkState \<Rightarrow> LockedSink \<Rightarrow> SinkState \<times> LockedSink \<times> nat option" where
  "unlock ks st l =
    (if ls_locked l then
       (case SinkState_unlock ks st of (st, next) \<Rightarrow> (st, l\<lparr>ls_locked := False\<rparr>, next))
     else (st, l, None))"

text \<open>
  \<open>get_handle\<close> and \<open>get_guard\<close> move the ownership out of the handle; dropping the handle or the
  guard they return unlocks.
\<close>

definition get_handle :: "LockedSink \<Rightarrow> LockedSink" where
  "get_handle l = l\<lparr>ls_locked := False\<rparr>"

definition drop_handle :: "nat list \<Rightarrow> SinkState \<Rightarrow> SinkState \<times> nat option" where
  "drop_handle ks st = SinkState_unlock ks st"

definition LockedSink_drop ::
    "nat list \<Rightarrow> SinkState \<Rightarrow> LockedSink \<Rightarrow> SinkState \<times> LockedSink \<times> nat option" where
  "LockedSink_drop ks st l = unlock ks st l"

section \<open>The lock under interference\<close>

text \<open>
  Where a handle is between two atomic accesses: \<open>AddWait\<close>, \<open>UpdWait1\<close> and \<open>UpdWait2\<close> after a swap that
  found the flag set (without a key, with a key, on the second attempt), \<open>Recheck\<close> before the
  second swap, \<open>Won\<close> after a swap that found it clear and before the removal of the key,
  \<open>Parked\<close> after \<open>Pending\<close> was returned, \<open>Holding\<close> while the handle, or the guard made from it, owns
  the sink, \<open>Unlocking1\<close> and \<open>Unlocking2\<close> inside the critical section of \<open>unlock\<close>, \<open>Waking w\<close> between
  its end and the call of the waker. \<open>Gone\<close> is a handle that was dropped.
\<close>

datatype pc =
    Idle | AddWait | Recheck | UpdWait1 | UpdWait2 | Parked | Won | Holding
  | Unlocking1 | Unlocking2 | Waking nat | Gone

record sys =
  sink :: SinkState
  mutex :: "nat option"
  key :: "nat \<Rightarrow> nat option"
  pc :: "nat \<Rightarrow> pc"
  notified :: "nat \<Rightarrow> bool"

definition sys_init :: sys where
  "sys_init = \<lparr>sink = SinkState_new, mutex = None, key = (\<lambda>_. None), pc = (\<lambda>_. Idle),
     notified = (\<lambda>_. False)\<rparr>"

datatype action =
    Swap nat | Add nat nat | Update nat | Remove nat | LockWaiters nat | Store nat
  | GetNext nat "nat list" | Wake nat | StalePoll nat | DropParked nat

definition goto :: "nat \<Rightarrow> pc \<Rightarrow> sys \<Rightarrow> sys" where
  "goto h p s = s\<lparr>pc := (pc s)(h := p)\<rparr>"

definition set_sink :: "bool \<Rightarrow> WakerList \<Rightarrow> sys \<Rightarrow> sys" where
  "set_sink b ws s = s\<lparr>sink := \<lparr>locked = b, waiters = ws\<rparr>\<rparr>"

text \<open>
  One atomic access. \<open>None\<close> means that the handle is not at that access, that the waiters mutex
  is taken, or that what the slab supplies is not a vacant key or not an enumeration of its
  keys. A poll starts with \<open>Swap\<close> and consumes the notification.
\<close>

fun exec :: "action \<Rightarrow> sys \<Rightarrow> sys option" where
  "exec (Swap h) s =
    (let busy = locked (sink s); s' = set_sink True (waiters (sink s)) s
     in case pc s h of
          Idle \<Rightarrow> Some (goto h (if busy then AddWait else Holding) s')
        | Recheck \<Rightarrow> Some (goto h (if busy then UpdWait2 else Won) s')
        | Parked \<Rightarrow> Some (goto h (if busy then UpdWait1 else Won)
                     (s'\<lparr>notified := (notified s)(h := False)\<rparr>))
        | _ \<Rightarrow> None)"
| "exec (Add h k) s =
    (if pc s h = AddWait \<and> mutex s = None \<and> waiters (sink s) k = None
     then Some (goto h Recheck (set_sink (locked (sink s)) (WakerList_add k h (waiters (sink s)))
                 (s\<lparr>key := (key s)(h := Some k)\<rparr>)))
     else None)"
| "exec (Update h) s =
    (if (pc s h = UpdWait1 \<or> pc s h = UpdWait2) \<and> mutex s = None
     then (case WakerList_update (the (key s h)) h (waiters (sink s)) of
             Ok ws \<Rightarrow> Some (goto h (if pc s h = UpdWait1 then Recheck else Parked)
                        (set_sink (locked (sink s)) ws s))
           | Err () \<Rightarrow> None | Panic \<Rightarrow> None)
     else None)"
| "exec (Remove h) s =
    (if pc s h = Won \<and> mutex s = None
     then (case WakerList_remove (the (key s h)) (waiters (sink s)) of
             Ok ws \<Rightarrow> Some (goto h Holding (set_sink (locked (sink s)) ws
                        (s\<lparr>key := (key s)(h := None)\<rparr>)))
           | Err () \<Rightarrow> None | Panic \<Rightarrow> None)
     else None)"
| "exec (LockWaiters h) s =
    (if pc s h = Holding \<and> mutex s = None
     then Some (goto h Unlocking1 (s\<lparr>mutex := Some h\<rparr>)) else None)"
| "exec (Store h) s =
    (if pc s h = Unlocking1 then Some (goto h Unlocking2 (set_sink False (waiters (sink s)) s))
     else None)"
| "exec (GetNext h ks) s =
    (if pc s h = Unlocking2 \<and> set ks = dom (waiters (sink s))
     then (case get_next ks (waiters (sink s)) of
             (ws, next) \<Rightarrow> Some (goto h (case next of None \<Rightarrow> Idle | Some w \<Rightarrow> Waking w)
                 (set_sink (locked (sink s)) ws (s\<lparr>mutex := None\<rparr>))))
     else None)"
| "exec (Wake h) s =
    (case pc s h of
       Waking w \<Rightarrow> Some (goto h Idle (s\<lparr>notified := (notified s)(w := True)\<rparr>))
     | _ \<Rightarrow> None)"
| "exec (StalePoll h) s =
    (if pc s h = Idle \<or> pc s h = Holding
     then Some (s\<lparr>notified := (notified s)(h := False)\<rparr>) else None)"
| "exec (DropParked h) s = (if pc s h = Parked then Some (goto h Gone s) else None)"

fun run :: "action list \<Rightarrow> sys \<Rightarrow> sys option" where
  "run [] s = Some s"
| "run (a # as) s = (case exec a s of None \<Rightarrow> None | Some s' \<Rightarrow> run as s')"

fun is_drop :: "action \<Rightarrow> bool" where
  "is_drop (DropParked h) = True"
| "is_drop _ = False"

text \<open>The states any schedule reaches, as long as no handle is dropped while it waits.\<close>

inductive reachable :: "sys \<Rightarrow> bool" where
  init: "reachable sys_init"
| step: "reachable s \<Longrightarrow> exec a s = Some s' \<Longrightarrow> \<not> is_drop a \<Longrightarrow> reachable s'"

section \<open>Invariants\<close>

definition owner :: "pc \<Rightarrow> bool" where
  "owner p = (p \<in> {Won, Holding, Unlocking1})"

definition queued :: "pc \<Rightarrow> bool" where
  "queued p = (p \<in> {Recheck, UpdWait1, UpdWait2, Parked, Won})"

definition wanting :: "pc \<Rightarrow> bool" where
  "wanting p = (p \<in> {UpdWait2, Parked})"

text \<open>A handle whose next accesses try the flag again, or make another handle try it.\<close>

definition active :: "sys \<Rightarrow> bool" where
  "active s = (\<exists>h. pc s h \<in> {AddWait, Recheck, UpdWait1, Unlocking2}
      \<or> (\<exists>w. pc s h = Waking w \<and> wanting (pc s w)) \<or> (notified s h \<and> wanting (pc s h)))"

definition inv_owner :: "sys \<Rightarrow> bool" where
  "inv_owner s = ((\<forall>h h'. owner (pc s h) \<and> owner (pc s h') \<longrightarrow> h = h')
      \<and> (locked (sink s) \<longleftrightarrow> (\<exists>h. owner (pc s h))))"

definition inv_mutex :: "sys \<Rightarrow> bool" where
  "inv_mutex s = (\<forall>h. mutex s = Some h \<longleftrightarrow> pc s h \<in> {Unlocking1, Unlocking2})"

definition inv_key :: "sys \<Rightarrow> bool" where
  "inv_key s = ((\<forall>h. key s h \<noteq> None \<longleftrightarrow> queued (pc s h))
      \<and> (\<forall>h h' k. key s h = Some k \<and> key s h' = Some k \<longrightarrow> h = h')
      \<and> (\<forall>h k. key s h = Some k \<longrightarrow> waiters (sink s) k \<in> {Some (Sleeping h), Some Woken})
      \<and> (\<forall>k. waiters (sink s) k \<noteq> None \<longrightarrow> (\<exists>h. key s h = Some k)))"

definition inv_wanting :: "sys \<Rightarrow> bool" where
  "inv_wanting s = (\<forall>h k. pc s h \<in> {Recheck, UpdWait2, Parked} \<and> key s h = Some k \<longrightarrow>
      waiters (sink s) k = Some (Sleeping h) \<or> notified s h \<or> (\<exists>u. pc s u = Waking h))"

definition inv_active :: "sys \<Rightarrow> bool" where
  "inv_active s = (\<not> locked (sink s) \<longrightarrow>
      (\<exists>k w. waiters (sink s) k = Some (Sleeping w)) \<longrightarrow> active s)"

section \<open>Lemmas\<close>

lemma Waiter_register_eq [simp]: "Waiter_register x cx = Sleeping cx"
  by (cases x) (simp_all add: Waiter_register_def)

lemma get_next_Cons:
  "get_next (k # ks) ws = (case ws k of
     Some (Sleeping w) \<Rightarrow> (ws(k \<mapsto> Woken), Some w) | _ \<Rightarrow> get_next ks ws)"
  by (auto simp: Waiter_wake_def fun_upd_idem split: option.splits Waiter.splits)

declare get_next.simps(2) [simp del]

lemma get_next_None:
  "get_next ks ws = (ws', None) \<Longrightarrow> ws' = ws \<and> (\<forall>k \<in> set ks. \<forall>w. ws k \<noteq> Some (Sleeping w))"
  by (induction ks) (auto simp: get_next_Cons split: option.splits Waiter.splits)

lemma get_next_Some:
  "get_next ks ws = (ws', Some w) \<Longrightarrow> \<exists>k. ws k = Some (Sleeping w) \<and> ws' = ws(k \<mapsto> Woken)"
  by (induction ks) (auto simp: get_next_Cons split: option.splits Waiter.splits)

lemma goto_sel [simp]:
  "sink (goto h p s) = sink s" "mutex (goto h p s) = mutex s" "key (goto h p s) = key s"
  "pc (goto h p s) = (pc s)(h := p)" "notified (goto h p s) = notified s"
  by (simp_all add: goto_def)

lemma set_sink_sel [simp]:
  "locked (sink (set_sink b ws s)) = b" "waiters (sink (set_sink b ws s)) = ws"
  "mutex (set_sink b ws s) = mutex s" "key (set_sink b ws s) = key s"
  "pc (set_sink b ws s) = pc s" "notified (set_sink b ws s) = notified s"
  by (simp_all add: set_sink_def)

lemma owner_simps [simp]:
  "owner Won" "owner Holding" "owner Unlocking1" "\<not> owner Idle" "\<not> owner AddWait"
  "\<not> owner Recheck" "\<not> owner UpdWait1" "\<not> owner UpdWait2" "\<not> owner Parked"
  "\<not> owner Unlocking2" "\<not> owner (Waking w)" "\<not> owner Gone"
  by (simp_all add: owner_def)

lemma queued_simps [simp]:
  "queued Won" "queued Recheck" "queued UpdWait1" "queued UpdWait2" "queued Parked"
  "\<not> queued Holding" "\<not> queued Unlocking1" "\<not> queued Idle" "\<not> queued AddWait"
  "\<not> queued Unlocking2" "\<not> queued (Waking w)" "\<not> queued Gone"
  by (simp_all add: queued_def)

lemma wanting_simps [simp]:
  "wanting UpdWait2" "wanting Parked" "\<not> wanting Won" "\<not> wanting Recheck" "\<not> wanting UpdWait1"
  "\<not> wanting Holding" "\<not> wanting Unlocking1" "\<not> wanting Idle" "\<not> wanting AddWait"
  "\<not> wanting Unlocking2" "\<not> wanting (Waking w)" "\<not> wanting Gone"
  by (simp_all add: wanting_def)

text \<open>
  The effect of each access on the five components, by inversion: the shape every invariant
  proof starts from.
\<close>

lemma exec_cases:
  assumes "exec a s = Some s'"
  obtains
    (IdleBusy) h where "a = Swap h" "pc s h = Idle" "locked (sink s)"
      "s' = goto h AddWait (set_sink True (waiters (sink s)) s)"
  | (IdleFree) h where "a = Swap h" "pc s h = Idle" "\<not> locked (sink s)"
      "s' = goto h Holding (set_sink True (waiters (sink s)) s)"
  | (RecheckBusy) h where "a = Swap h" "pc s h = Recheck" "locked (sink s)"
      "s' = goto h UpdWait2 (set_sink True (waiters (sink s)) s)"
  | (RecheckFree) h where "a = Swap h" "pc s h = Recheck" "\<not> locked (sink s)"
      "s' = goto h Won (set_sink True (waiters (sink s)) s)"
  | (PollBusy) h where "a = Swap h" "pc s h = Parked" "locked (sink s)"
      "s' = goto h UpdWait1 (set_sink True (waiters (sink s)) s\<lparr>notified := (notified s)(h := False)\<rparr>)"
  | (PollFree) h where "a = Swap h" "pc s h = Parked" "\<not> locked (sink s)"
      "s' = goto h Won (set_sink True (waiters (sink s)) s\<lparr>notified := (notified s)(h := False)\<rparr>)"
  | (AddCase) h k where "a = Add h k" "pc s h = AddWait" "mutex s = None"
      "waiters (sink s) k = None"
      "s' = goto h Recheck (set_sink (locked (sink s)) ((waiters (sink s))(k \<mapsto> Sleeping h))
              (s\<lparr>key := (key s)(h := Some k)\<rparr>))"
  | (Update1) h w where "a = Update h" "pc s h = UpdWait1" "mutex s = None"
      "waiters (sink s) (the (key s h)) = Some w"
      "s' = goto h Recheck (set_sink (locked (sink s))
              ((waiters (sink s))(the (key s h) \<mapsto> Sleeping h)) s)"
  | (Update2) h w where "a = Update h" "pc s h = UpdWait2" "mutex s = None"
      "waiters (sink s) (the (key s h)) = Some w"
      "s' = goto h Parked (set_sink (locked (sink s))
              ((waiters (sink s))(the (key s h) \<mapsto> Sleeping h)) s)"
  | (RemoveCase) h w where "a = Remove h" "pc s h = Won" "mutex s = None"
      "waiters (sink s) (the (key s h)) = Some w"
      "s' = goto h Holding (set_sink (locked (sink s))
              ((waiters (sink s))(the (key s h) := None)) (s\<lparr>key := (key s)(h := None)\<rparr>))"
  | (LockCase) h where "a = LockWaiters h" "pc s h = Holding" "mutex s = None"
      "s' = goto h Unlocking1 (s\<lparr>mutex := Some h\<rparr>)"
  | (StoreCase) h where "a = Store h" "pc s h = Unlocking1"
      "s' = goto h Unlocking2 (set_sink False (waiters (sink s)) s)"
  | (NextNone) h where "pc s h = Unlocking2"
      "\<forall>k w. waiters (sink s) k \<noteq> Some (Sleeping w)"
      "s' = goto h Idle (set_sink (locked (sink s)) (waiters (sink s)) (s\<lparr>mutex := None\<rparr>))"
  | (NextSome) h k w where "pc s h = Unlocking2" "waiters (sink s) k = Some (Sleeping w)"
      "s' = goto h (Waking w) (set_sink (locked (sink s)) ((waiters (sink s))(k \<mapsto> Woken))
              (s\<lparr>mutex := None\<rparr>))"
  | (WakeCase) h w where "a = Wake h" "pc s h = Waking w"
      "s' = goto h Idle (s\<lparr>notified := (notified s)(w := True)\<rparr>)"
  | (Stale) h where "a = StalePoll h" "pc s h = Idle \<or> pc s h = Holding"
      "s' = s\<lparr>notified := (notified s)(h := False)\<rparr>"
  | (DropCase) h where "a = DropParked h" "pc s h = Parked" "s' = goto h Gone s"
proof (cases a)
  case (Swap h)
  with assms have "exec (Swap h) s = Some s'" by simp
  then consider
      "pc s h = Idle" "s' = goto h (if locked (sink s) then AddWait else Holding)
         (set_sink True (waiters (sink s)) s)"
    | "pc s h = Recheck" "s' = goto h (if locked (sink s) then UpdWait2 else Won)
         (set_sink True (waiters (sink s)) s)"
    | "pc s h = Parked" "s' = goto h (if locked (sink s) then UpdWait1 else Won)
         (set_sink True (waiters (sink s)) s\<lparr>notified := (notified s)(h := False)\<rparr>)"
    by (auto simp: Let_def split: pc.splits)
  then show ?thesis
    using Swap by cases (metis that(1,2), metis that(3,4), metis that(5,6))
next
  case (GetNext h ks)
  obtain ws n where g: "get_next ks (waiters (sink s)) = (ws, n)" by fastforce
  with GetNext assms have pc: "pc s h = Unlocking2" and ks: "set ks = dom (waiters (sink s))"
    and s': "s' = goto h (case n of None \<Rightarrow> Idle | Some w \<Rightarrow> Waking w)
      (set_sink (locked (sink s)) ws (s\<lparr>mutex := None\<rparr>))"
    by (auto split: if_splits)
  show ?thesis
  proof (cases n)
    case None
    then have "ws = waiters (sink s)" "\<forall>k w. waiters (sink s) k \<noteq> Some (Sleeping w)"
      using get_next_None [of ks "waiters (sink s)" ws] g ks by auto
    with None pc s' show ?thesis by (intro that(13) [of h]) auto
  next
    case (Some w)
    then obtain k where "waiters (sink s) k = Some (Sleeping w)" "ws = (waiters (sink s))(k \<mapsto> Woken)"
      using get_next_Some [of ks "waiters (sink s)" ws w] g by auto
    with Some pc s' show ?thesis by (intro that(14) [of h k w]) auto
  qed
next
  case (Update h)
  with assms that(8,9) [of h] show ?thesis
    by (auto simp: WakerList_update_def split: if_splits option.splits)
next
  case (Remove h)
  with assms that(10) [of h] show ?thesis
    by (auto simp: WakerList_remove_def split: if_splits option.splits)
next
  case (Wake h)
  with assms that(15) [of h] show ?thesis by (auto split: pc.splits)
next
  case (Add h k)
  with assms that(7) [of h k] show ?thesis
    by (auto simp: WakerList_add_def Waiter_new_def split: if_splits)
next
  case (LockWaiters h)
  with assms that(11) [of h] show ?thesis by (auto split: if_splits)
next
  case (Store h)
  with assms that(12) [of h] show ?thesis by (auto split: if_splits)
next
  case (StalePoll h)
  with assms that(16) [of h] show ?thesis by (auto split: if_splits)
next
  case (DropParked h)
  with assms that(17) [of h] show ?thesis by (auto split: if_splits)
qed

lemma inv_owner_move:
  assumes "inv_owner s" "locked (sink t) = locked (sink s)" "pc t = pc s" "owner p = owner (pc s h)"
  shows "inv_owner (goto h p t)"
proof -
  have "owner (pc (goto h p t) x) = owner (pc s x)" for x using assms(3,4) by simp
  with assms(1,2) show ?thesis by (simp add: inv_owner_def)
qed

lemma inv_owner_acquire:
  assumes "inv_owner s" "\<not> locked (sink s)" "locked (sink t)" "pc t = pc s" "owner p"
  shows "inv_owner (goto h p t)"
  using assms by (auto simp: inv_owner_def)

lemma inv_owner_release:
  assumes "inv_owner s" "owner (pc s h)" "\<not> locked (sink t)" "pc t = pc s" "\<not> owner p"
  shows "inv_owner (goto h p t)"
  using assms by (auto simp: inv_owner_def)

lemma owner_locked: "inv_owner s \<Longrightarrow> owner (pc s h) \<Longrightarrow> locked (sink s)"
  by (auto simp: inv_owner_def)

lemma inv_owner_step:
  assumes "exec a s = Some s'" "inv_owner s"
  shows "inv_owner s'"
  using assms(1)
proof (cases rule: exec_cases)
  case (Stale h)
  with assms(2) show ?thesis by (simp add: inv_owner_def)
qed (simp_all add: inv_owner_move [OF assms(2)] inv_owner_acquire [OF assms(2)]
      inv_owner_release [OF assms(2)])

lemma inv_mutex_step:
  assumes "exec a s = Some s'" "inv_mutex s"
  shows "inv_mutex s'"
  using assms(1)
proof (cases rule: exec_cases)
  case (NextNone h)
  then have "mutex s = Some h" using assms(2) by (simp add: inv_mutex_def)
  with NextNone assms(2) show ?thesis by (auto simp: inv_mutex_def)
next
  case (NextSome h k w)
  then have "mutex s = Some h" using assms(2) by (simp add: inv_mutex_def)
  with NextSome assms(2) show ?thesis by (auto simp: inv_mutex_def)
qed (use assms(2) in \<open>auto simp: inv_mutex_def\<close>)

lemma inv_keyD:
  assumes "inv_key s"
  shows "queued (pc s h) \<Longrightarrow> \<exists>k. key s h = Some k"
    and "key s h = Some k \<Longrightarrow> queued (pc s h)"
    and "key s h = Some k \<Longrightarrow> key s h' = Some k \<Longrightarrow> h = h'"
    and "key s h = Some k \<Longrightarrow> waiters (sink s) k = Some (Sleeping h) \<or> waiters (sink s) k = Some Woken"
    and "waiters (sink s) k = Some w \<Longrightarrow> \<exists>h. key s h = Some k"
  using assms by (auto simp: inv_key_def)

lemma sleeping_key:
  assumes "inv_key s" "waiters (sink s) k = Some (Sleeping w)"
  shows "key s w = Some k \<and> queued (pc s w)"
  using inv_keyD(2,4,5) [OF assms(1)] assms(2) by fastforce

lemma inv_key_step:
  assumes "exec a s = Some s'" "inv_key s" "\<not> is_drop a"
  shows "inv_key s'"
  using assms(1)
proof (cases rule: exec_cases)
  case (Update1 h w)
  then obtain k where "key s h = Some k" using inv_keyD(1) [OF assms(2), of h] by auto
  with Update1 assms(2) show ?thesis by (auto simp: inv_key_def)
next
  case (Update2 h w)
  then obtain k where "key s h = Some k" using inv_keyD(1) [OF assms(2), of h] by auto
  with Update2 assms(2) show ?thesis by (auto simp: inv_key_def)
next
  case (RemoveCase h w)
  then obtain k where "key s h = Some k" using inv_keyD(1) [OF assms(2), of h] by auto
  with RemoveCase assms(2) show ?thesis by (simp add: inv_key_def) (metis option.inject)
next
  case (AddCase h k)
  then have "key s h' \<noteq> Some k" for h' using inv_keyD(4) [OF assms(2)] by fastforce
  moreover have "key s h = None" using AddCase inv_keyD(2) [OF assms(2), of h] by force
  ultimately show ?thesis using AddCase assms(2)
    by (simp add: inv_key_def) (metis option.distinct(1))
next
  case (NextSome h k w)
  with assms(2) show ?thesis by (auto simp: inv_key_def)
qed (use assms(2,3) in \<open>auto simp: inv_key_def\<close>)

lemma inv_wanting_goto:
  assumes "inv_wanting s" "pc t = pc s"
    and other: "\<And>x k. x \<noteq> h \<Longrightarrow> key t x = Some k \<Longrightarrow>
      key s x = Some k \<and> (notified s x \<longrightarrow> notified t x)
      \<and> (waiters (sink s) k = Some (Sleeping x) \<longrightarrow>
          waiters (sink t) k = Some (Sleeping x) \<or> p = Waking x)"
    and waking: "\<And>x. pc s h = Waking x \<Longrightarrow> notified t x"
    and self: "\<And>k. p \<in> {Recheck, UpdWait2, Parked} \<Longrightarrow> key t h = Some k \<Longrightarrow>
      waiters (sink t) k = Some (Sleeping h) \<or> notified t h \<or> (\<exists>u. u \<noteq> h \<and> pc s u = Waking h)"
  shows "inv_wanting (goto h p t)"
  unfolding inv_wanting_def
proof (intro allI impI, elim conjE)
  fix x k
  assume at: "pc (goto h p t) x \<in> {Recheck, UpdWait2, Parked}" and key: "key (goto h p t) x = Some k"
  show "waiters (sink (goto h p t)) k = Some (Sleeping x) \<or> notified (goto h p t) x
      \<or> (\<exists>u. pc (goto h p t) u = Waking x)"
  proof (cases "x = h")
    case True
    with at key self [of k] show ?thesis by (auto simp: assms(2))
  next
    case False
    with at key other [of x k] assms(1)
    consider "waiters (sink s) k = Some (Sleeping x)" | "notified s x" | u where "pc s u = Waking x"
      by (auto simp: inv_wanting_def assms(2))
    then show ?thesis
    proof cases
      case (3 u)
      with waking [of x] show ?thesis by (cases "u = h") (auto simp: assms(2))
    qed (use False key other [of x k] in auto)
  qed
qed

lemma inv_wantingD:
  "inv_wanting s \<Longrightarrow> pc s h \<in> {Recheck, UpdWait2, Parked} \<Longrightarrow> key s h = Some k \<Longrightarrow>
     waiters (sink s) k = Some (Sleeping h) \<or> notified s h \<or> (\<exists>u. pc s u = Waking h)"
  by (auto simp: inv_wanting_def)

lemma inv_wanting_step:
  assumes "exec a s = Some s'" "inv_wanting s" "inv_key s" "\<not> is_drop a"
  shows "inv_wanting s'"
  using assms(1)
proof (cases rule: exec_cases)
  case (RecheckBusy h)
  then have "u \<noteq> h" if "pc s u = Waking h" for u using that by auto
  then show ?thesis
    unfolding RecheckBusy(4) using RecheckBusy(2) inv_wantingD [OF assms(2), of h]
    by (intro inv_wanting_goto [OF assms(2)]) auto
next
  case (AddCase h k)
  then have "key s h' \<noteq> Some k" for h' using inv_keyD(4) [OF assms(3)] by fastforce
  then show ?thesis unfolding AddCase(5) using AddCase(2)
    by (intro inv_wanting_goto [OF assms(2)]) auto
next
  case (Update1 h w)
  then obtain k where k: "key s h = Some k" using inv_keyD(1) [OF assms(3), of h] by auto
  have "key s x \<noteq> Some k" if "x \<noteq> h" for x using that inv_keyD(3) [OF assms(3) k] by blast
  then show ?thesis unfolding Update1(5) using Update1(2) k
    by (intro inv_wanting_goto [OF assms(2)]) auto
next
  case (Update2 h w)
  then obtain k where k: "key s h = Some k" using inv_keyD(1) [OF assms(3), of h] by auto
  have "key s x \<noteq> Some k" if "x \<noteq> h" for x using that inv_keyD(3) [OF assms(3) k] by blast
  then show ?thesis unfolding Update2(5) using Update2(2) k
    by (intro inv_wanting_goto [OF assms(2)]) auto
next
  case (RemoveCase h w)
  then obtain k where k: "key s h = Some k" using inv_keyD(1) [OF assms(3), of h] by auto
  have "key s x \<noteq> Some k" if "x \<noteq> h" for x using that inv_keyD(3) [OF assms(3) k] by blast
  then show ?thesis unfolding RemoveCase(5) using RemoveCase(2) k
    by (intro inv_wanting_goto [OF assms(2)]) auto
next
  case (NextSome h k w)
  then show ?thesis unfolding NextSome(3) by (intro inv_wanting_goto [OF assms(2)]) auto
next
  case (Stale h)
  then have "\<not> pc s h \<in> {Recheck, UpdWait2, Parked}" by auto
  then show ?thesis unfolding Stale(3) using assms(2) by (auto simp: inv_wanting_def)
next
  case (DropCase h)
  with assms(4) show ?thesis by simp
qed (simp only:, intro inv_wanting_goto [OF assms(2)]; auto)+

lemma active_pc: "pc s h \<in> {AddWait, Recheck, UpdWait1, Unlocking2} \<Longrightarrow> active s"
  by (auto simp: active_def)

lemma active_waking: "pc s u = Waking w \<Longrightarrow> wanting (pc s w) \<Longrightarrow> active s"
  by (auto simp: active_def)

lemma active_notified: "notified s w \<Longrightarrow> wanting (pc s w) \<Longrightarrow> active s"
  by (auto simp: active_def)

lemma active_cases:
  assumes "active s"
  obtains (pc) h where "pc s h \<in> {AddWait, Recheck, UpdWait1, Unlocking2}"
  | (waking) u w where "pc s u = Waking w" "wanting (pc s w)"
  | (notified) w where "notified s w" "wanting (pc s w)"
  using assms by (auto simp: active_def)

lemma wanting_active:
  assumes "inv_wanting s" "inv_active s" "inv_key s" "\<not> locked (sink s)" "wanting (pc s h)"
  shows "active s"
proof -
  obtain k where "key s h = Some k" "pc s h \<in> {Recheck, UpdWait2, Parked}"
    using inv_keyD(1) [OF assms(3), of h] assms(5) by (auto simp: wanting_def queued_def)
  then consider "waiters (sink s) k = Some (Sleeping h)" | "notified s h" | u where "pc s u = Waking h"
    using assms(1) by (auto simp: inv_wanting_def)
  then show ?thesis
    using assms(2,4,5) by cases (auto simp: inv_active_def intro: active_notified active_waking)
qed

lemma active_mono:
  assumes "active s"
    and "\<And>u. pc s u \<in> {AddWait, Recheck, UpdWait1, Unlocking2} \<Longrightarrow> pc t u = pc s u"
    and "\<And>u w. pc s u = Waking w \<Longrightarrow> pc t u = Waking w \<or> notified t w"
    and "\<And>w. wanting (pc s w) \<Longrightarrow> wanting (pc t w) \<and> (notified s w \<longrightarrow> notified t w)"
  shows "active t"
  using assms(1)
proof (cases rule: active_cases)
  case (pc u)
  with assms(2) show ?thesis by (metis active_pc)
next
  case (waking u w)
  with assms(3,4) show ?thesis by (meson active_notified active_waking)
next
  case (notified w)
  with assms(4) show ?thesis by (meson active_notified)
qed

lemma inv_activeI: "(\<And>k w. \<not> locked (sink s) \<Longrightarrow> waiters (sink s) k = Some (Sleeping w) \<Longrightarrow> active s) \<Longrightarrow> inv_active s"
  by (auto simp: inv_active_def)

lemma inv_activeD: "inv_active s \<Longrightarrow> \<not> locked (sink s) \<Longrightarrow> waiters (sink s) k = Some (Sleeping w) \<Longrightarrow> active s"
  by (auto simp: inv_active_def)

lemma inv_active_step:
  assumes "exec a s = Some s'" "inv_active s" "inv_wanting s" "inv_key s" "inv_owner s"
    and "\<not> is_drop a"
  shows "inv_active s'"
  using assms(1)
proof (cases rule: exec_cases)
  case (AddCase h k)
  then show ?thesis by (auto intro!: inv_activeI active_pc [of _ h])
next
  case (Update1 h w)
  then show ?thesis by (auto intro!: inv_activeI active_pc [of _ h])
next
  case (StoreCase h)
  then show ?thesis by (auto intro!: inv_activeI active_pc [of _ h])
next
  case (Update2 h w)
  then have "active s" if "\<not> locked (sink s)"
    using wanting_active [OF assms(3,2,4) that, of h] by simp
  with Update2 show ?thesis by (auto intro!: inv_activeI elim!: active_mono)
next
  case (RemoveCase h w)
  then show ?thesis using owner_locked [OF assms(5), of h] by (simp add: inv_active_def)
next
  case (LockCase h)
  then show ?thesis using owner_locked [OF assms(5), of h] by (simp add: inv_active_def)
next
  case (NextSome h k w)
  have "pc s w \<in> {Recheck, UpdWait1} \<or> wanting (pc s w)" if "\<not> locked (sink s)"
    using sleeping_key [OF assms(4) NextSome(2)] owner_locked [OF assms(5), of w] that
    by (auto simp: queued_def owner_def wanting_def)
  moreover have "w \<noteq> h"
    using sleeping_key [OF assms(4) NextSome(2)] NextSome(1) by auto
  ultimately show ?thesis
    using NextSome active_pc [of s' w] active_waking [of s' h w] by (auto simp: inv_active_def)
next
  case (WakeCase h w)
  then have "active s'" if "active s" using that by (elim active_mono) auto
  with WakeCase assms(2) show ?thesis by (simp add: inv_active_def)
next
  case (Stale h)
  then have "active s'" if "active s" using that by (elim active_mono) auto
  with Stale assms(2) show ?thesis by (simp add: inv_active_def)
next
  case (DropCase h)
  with assms(6) show ?thesis by simp
qed (auto simp: inv_active_def)

lemma reachable_invs:
  assumes "reachable s"
  shows "inv_owner s" "inv_mutex s" "inv_key s" "inv_wanting s" "inv_active s"
proof -
  from assms have "inv_owner s \<and> inv_mutex s \<and> inv_key s \<and> inv_wanting s \<and> inv_active s"
  proof (induction rule: reachable.induct)
    case init
    then show ?case
      by (simp add: sys_init_def SinkState_new_def inv_owner_def inv_mutex_def inv_key_def
          inv_wanting_def inv_active_def)
  next
    case (step s a s')
    then show ?case
      by (meson inv_owner_step inv_mutex_step inv_key_step inv_wanting_step inv_active_step)
  qed
  then show "inv_owner s" "inv_mutex s" "inv_key s" "inv_wanting s" "inv_active s" by auto
qed

section \<open>Properties\<close>



text \<open>
  The \<open>expect\<close> of \<open>WakerList::update\<close> (``task should never have invalid key'') and the removal of
  a key never panic: whenever a handle is about to access its slot, the slot exists, belongs
  to no other handle, and holds its own waker or none.
\<close>

theorem lock_keys_valid:
  assumes "reachable s" "pc s h \<in> {UpdWait1, UpdWait2, Won}"
  shows "\<exists>k. key s h = Some k \<and> waiters (sink s) k \<in> {Some (Sleeping h), Some Woken}
    \<and> (\<forall>h'. key s h' = Some k \<longrightarrow> h' = h)
    \<and> WakerList_update k h (waiters (sink s)) \<noteq> (Panic :: (WakerList, unit) res)
    \<and> WakerList_remove k (waiters (sink s)) \<noteq> (Panic :: (WakerList, unit) res)"
proof -
  note inv = reachable_invs(3) [OF assms(1)]
  obtain k where k: "key s h = Some k" using inv_keyD(1) [OF inv, of h] assms(2) by auto
  have slot: "waiters (sink s) k \<in> {Some (Sleeping h), Some Woken}"
    using inv_keyD(4) [OF inv k] by simp
  then have "WakerList_update k h (waiters (sink s)) \<noteq> (Panic :: (WakerList, unit) res)"
    "WakerList_remove k (waiters (sink s)) \<noteq> (Panic :: (WakerList, unit) res)"
    by (auto simp: WakerList_update_def WakerList_remove_def)
  with k slot inv_keyD(3) [OF inv k] show ?thesis by blast
qed

text \<open>A run in which handle 0 takes the sink and handle 1 parks, up to the wakeup of handle 1.\<close>

definition demo_run :: "action list" where
  "demo_run = [Swap 0, Swap 1, Add 1 7, Swap 1, Update 1, LockWaiters 0, Store 0, GetNext 0 [7]]"

definition demo_parked :: sys where
  "demo_parked = \<lparr>sink = \<lparr>locked = False, waiters = [7 \<mapsto> Woken]\<rparr>, mutex = None,
     key = (\<lambda>_. None)(1 := Some 7), pc = (\<lambda>_. Idle)(1 := Parked, 0 := Waking 1),
     notified = (\<lambda>_. False)\<rparr>"

lemma run_reachable:
  "run as s = Some s' \<Longrightarrow> reachable s \<Longrightarrow> \<forall>a \<in> set as. \<not> is_drop a \<Longrightarrow> reachable s'"
  by (induction as arbitrary: s) (auto split: option.splits intro: reachable.step)

lemmas exec_eval = sys_init_def SinkState_new_def WakerList_add_def WakerList_update_def
  WakerList_remove_def Waiter_new_def goto_def set_sink_def get_next_Cons fun_upd_twist

lemma demo_parked_reachable: "reachable demo_parked"
proof (rule run_reachable [OF _ reachable.init])
  show "run demo_run sys_init = Some demo_parked"
    by (simp add: demo_run_def demo_parked_def exec_eval Let_def)
qed (simp add: demo_run_def)



definition demo_updating :: sys where
  "demo_updating = \<lparr>sink = \<lparr>locked = True, waiters = [7 \<mapsto> Sleeping 1]\<rparr>, mutex = None,
     key = (\<lambda>_. None)(1 := Some 7), pc = (\<lambda>_. Idle)(0 := Holding, 1 := UpdWait2),
     notified = (\<lambda>_. False)\<rparr>"

lemma demo_updating_reachable: "reachable demo_updating"
proof (rule run_reachable [OF _ reachable.init])
  show "run [Swap 0, Swap 1, Add 1 7, Swap 1] sys_init = Some demo_updating"
    by (simp add: demo_updating_def exec_eval Let_def)
qed simp

theorem lock_keys_valid_witness:
  "\<exists>k. key demo_updating 1 = Some k
    \<and> WakerList_update k 1 (waiters (sink demo_updating)) \<noteq> (Panic :: (WakerList, unit) res)"
  using lock_keys_valid [OF demo_updating_reachable, of 1] by (auto simp: demo_updating_def)

text \<open>
  Dropping a handle while it waits breaks the guarantee: \<open>Drop\<close> only unlocks, so the waiter of
  a dropped handle stays in the slab and a wakeup can be spent on it. In the run below handles
  1 and 2 wait for handle 0, handle 0 unlocks and wakes handle 1, which was dropped; the sink
  is then free, nothing is in flight, and handle 2 stays parked without a notification.
\<close>

theorem dropped_waiter_loses_wakeup:
  "\<exists>s. run [Swap 0, Swap 1, Add 1 7, Swap 1, Update 1, Swap 2, Add 2 8, Swap 2, Update 2,
            DropParked 1, LockWaiters 0, Store 0, GetNext 0 [7, 8], Wake 0] sys_init = Some s
     \<and> \<not> locked (sink s) \<and> pc s 2 = Parked \<and> \<not> active s
     \<and> (\<forall>h. pc s h \<in> {Idle, Parked, Gone})"
proof -
  have "run [Swap 0, Swap 1, Add 1 7, Swap 1, Update 1, Swap 2, Add 2 8, Swap 2, Update 2,
            DropParked 1, LockWaiters 0, Store 0, GetNext 0 [7, 8], Wake 0] sys_init
    = Some \<lparr>sink = \<lparr>locked = False, waiters = [7 \<mapsto> Woken, 8 \<mapsto> Sleeping 2]\<rparr>, mutex = None,
        key = (\<lambda>_. None)(1 := Some 7, 2 := Some 8),
        pc = (\<lambda>_. Idle)(1 := Gone, 2 := Parked), notified = (\<lambda>_. False)(1 := True)\<rparr>"
    (is "?run = Some ?s")
    by (simp add: exec_eval Let_def) (auto simp: fun_eq_iff)
  moreover have "\<not> active ?s" by (auto simp: active_def split: if_splits)
  ultimately show ?thesis by (intro exI [of _ ?s]) auto
qed

text \<open>
  C33. A call of \<open>poll_lock\<close> that is not interfered with is a run of the interleaved accesses: from
  a reachable state in which the handle is not polling, the call does not panic, ends in the
  same shared state, and the handle owns the sink exactly when it returned \<open>Ready\<close>.
\<close>

theorem poll_lock_refines:
  assumes "reachable s" "mutex s = None" "pc s h = Idle \<or> pc s h = Parked"
    and "waiters (sink s) vacant = None"
  shows "\<exists>st l r as s'.
      poll_lock vacant h (sink s) \<lparr>pos = key s h, ls_locked = False\<rparr>
        = (Ok (st, l, r) :: (SinkState \<times> LockedSink \<times> unit poll, unit) res)
    \<and> run as s = Some s' \<and> (\<forall>a \<in> set as. \<not> is_drop a)
    \<and> sink s' = st \<and> key s' h = pos l \<and> pc s' h = (if ls_locked l then Holding else Parked)
    \<and> (r = Ready () \<longleftrightarrow> ls_locked l) \<and> (ls_locked l \<longleftrightarrow> \<not> locked (sink s))"
proof -
  note inv = reachable_invs(3) [OF assms(1)]
  note poll = poll_lock_def SinkState_lock_def SinkState_remove_def take_lock_def Let_def
    WakerList_add_def WakerList_update_def WakerList_remove_def Waiter_new_def
  show ?thesis
  proof (cases "pc s h = Idle")
    case True
    then have "key s h = None" using inv_keyD(2) [OF inv, of h] by force
    with True assms show ?thesis
      by (cases "locked (sink s)")
        (auto simp: poll goto_def set_sink_def
          intro!: exI [of _ "if locked (sink s) then [Swap h, Add h vacant, Swap h, Update h]
                            else [Swap h]"])
  next
    case False
    with assms(3) have parked: "pc s h = Parked" by simp
    then obtain k w where "key s h = Some k" "waiters (sink s) k = Some w"
      using inv_keyD(1,4) [OF inv, of h] by fastforce
    with parked assms show ?thesis
      by (cases "locked (sink s)")
        (auto simp: poll goto_def set_sink_def
          intro!: exI [of _ "if locked (sink s) then [Swap h, Update h, Swap h, Update h]
                            else [Swap h, Remove h]"])
  qed
qed

text \<open>
  \<open>unlock\<close> without interference is the run of its three accesses; it frees the sink and wakes
  a sleeping waiter exactly when there is one.
\<close>

theorem unlock_refines:
  assumes "reachable s" "mutex s = None" "pc s h = Holding" "set ks = dom (waiters (sink s))"
  shows "\<exists>st l next s'.
      unlock ks (sink s) \<lparr>pos = key s h, ls_locked = True\<rparr> = (st, l, next)
    \<and> run [LockWaiters h, Store h, GetNext h ks] s = Some s' \<and> sink s' = st
    \<and> key s' h = pos l \<and> \<not> locked st \<and> \<not> ls_locked l
    \<and> pc s' h = (case next of None \<Rightarrow> Idle | Some w \<Rightarrow> Waking w)
    \<and> (next = None \<longleftrightarrow> (\<forall>k w. waiters (sink s) k \<noteq> Some (Sleeping w)))"
proof -
  obtain ws n where g: "get_next ks (waiters (sink s)) = (ws, n)" by fastforce
  have "n = None \<longleftrightarrow> (\<forall>k w. waiters (sink s) k \<noteq> Some (Sleeping w))"
  proof (cases n)
    case None
    then show ?thesis using get_next_None [of ks "waiters (sink s)" ws] g assms(4) by auto
  next
    case (Some w)
    then show ?thesis using get_next_Some [of ks "waiters (sink s)" ws w] g by auto
  qed
  then show ?thesis
    using assms g by (simp add: unlock_def SinkState_unlock_def goto_def set_sink_def)
qed

lemma sys_init_sel:
  "mutex sys_init = None" "pc sys_init h = Idle" "locked (sink sys_init) = False"
  "waiters (sink sys_init) k = None" "key sys_init h = None"
  by (simp_all add: sys_init_def SinkState_new_def)

theorem poll_lock_refines_witness:
  "\<exists>st l as s'.
      poll_lock 5 1 (sink sys_init) \<lparr>pos = key sys_init 1, ls_locked = False\<rparr>
        = (Ok (st, l, Ready ()) :: (SinkState \<times> LockedSink \<times> unit poll, unit) res)
    \<and> run as sys_init = Some s' \<and> sink s' = st \<and> pc s' 1 = Holding"
  using poll_lock_refines [OF reachable.init, of 1 5] by (simp add: sys_init_sel) metis

definition demo_held :: sys where
  "demo_held = \<lparr>sink = \<lparr>locked = True, waiters = [7 \<mapsto> Sleeping 1]\<rparr>, mutex = None,
     key = (\<lambda>_. None)(1 := Some 7), pc = (\<lambda>_. Idle)(0 := Holding, 1 := Parked),
     notified = (\<lambda>_. False)\<rparr>"

lemma demo_held_reachable: "reachable demo_held"
proof (rule run_reachable [OF _ reachable.init])
  show "run [Swap 0, Swap 1, Add 1 7, Swap 1, Update 1] sys_init = Some demo_held"
    by (simp add: demo_held_def exec_eval Let_def)
qed simp

theorem unlock_refines_witness:
  "\<exists>st l w s'.
      unlock [7] (sink demo_held) \<lparr>pos = None, ls_locked = True\<rparr> = (st, l, Some w)
    \<and> run [LockWaiters 0, Store 0, GetNext 0 [7]] demo_held = Some s' \<and> sink s' = st
    \<and> pc s' 0 = Waking w"
  using unlock_refines [OF demo_held_reachable, of 0 "[7]"]
  by (auto simp: demo_held_def split: if_splits)

end
