(* ===== verification/Mux_Stream.thy ===== *)
theory Mux_Stream
  imports Packet Locked_Sink
begin

text \<open>
  A multiplexed stream: its flow-control state \<open>StreamInfo\<close> (\<open>wisp/src/mux/inner.rs\<close>) and its two
  halves \<open>MuxStreamRead\<close> and \<open>MuxStreamWrite\<close> (\<open>wisp/src/stream/mod.rs\<close>).

  The payload channel comes from the crate \<open>flume\<close> and is a parameter, the record \<open>flume\<close>: the
  operations the code calls, and observations in which the law \<open>flume_laws\<close> states their
  documented behaviour. What another component answers during one poll (the lock, the sink,
  the channel to the multiplexor task) is the record \<open>poll_env\<close>.
\<close>

section \<open>Channels\<close>

record 'c flume =
  fl_bounded :: "nat \<Rightarrow> 'c"
  fl_unbounded :: 'c
  fl_try_send :: "bytes \<Rightarrow> 'c \<Rightarrow> 'c option"
  fl_poll_next :: "'c \<Rightarrow> 'c \<times> bytes option poll"
  fl_drop_tx :: "'c \<Rightarrow> 'c"
  fl_drop_rx :: "'c \<Rightarrow> 'c"
  fl_is_disconnected :: "'c \<Rightarrow> bool"
  fl_queue :: "'c \<Rightarrow> bytes list"
  fl_capacity :: "'c \<Rightarrow> nat option"
  fl_rx_alive :: "'c \<Rightarrow> bool"

text \<open>
  A channel of capacity zero is a rendezvous channel; no send on it is assumed to succeed or fail. \<open>try_send\<close> fails
  when the receiver is gone or the channel is full; a receiver yields what is queued, also
  after the sender was dropped, and ends when nothing is queued and no sender is left.
\<close>

definition fl_obs :: "'c flume \<Rightarrow> 'c \<Rightarrow> bytes list \<times> nat option \<times> bool \<times> bool" where
  "fl_obs fl c = (fl_queue fl c, fl_capacity fl c, fl_is_disconnected fl c, fl_rx_alive fl c)"

definition fl_full :: "'c flume \<Rightarrow> 'c \<Rightarrow> bool" where
  "fl_full fl c = (case fl_capacity fl c of None \<Rightarrow> False | Some n \<Rightarrow> n \<le> length (fl_queue fl c))"

definition fl_send_law :: "'c flume \<Rightarrow> bytes \<Rightarrow> 'c \<Rightarrow> bool" where
  "fl_send_law fl b c = (case fl_try_send fl b c of
      None \<Rightarrow> \<not> fl_rx_alive fl c \<or> fl_full fl c
    | Some c' \<Rightarrow> fl_rx_alive fl c \<and> \<not> fl_full fl c \<and>
        fl_obs fl c' = (fl_queue fl c @ [b], fl_capacity fl c, fl_is_disconnected fl c, True))"

definition fl_recv_law :: "'c flume \<Rightarrow> 'c \<Rightarrow> bool" where
  "fl_recv_law fl c \<longleftrightarrow>
     snd (fl_poll_next fl c) = (case fl_queue fl c of
        [] \<Rightarrow> if fl_is_disconnected fl c then Ready None else Pending
      | x # q \<Rightarrow> Ready (Some x))
   \<and> fl_obs fl (fst (fl_poll_next fl c)) =
       (tl (fl_queue fl c), fl_capacity fl c, fl_is_disconnected fl c, fl_rx_alive fl c)"

definition flume_laws :: "'c flume \<Rightarrow> bool" where
  "flume_laws fl \<longleftrightarrow>
     (\<forall>n. fl_obs fl (fl_bounded fl n) = ([], Some n, False, True))
   \<and> fl_obs fl (fl_unbounded fl) = ([], None, False, True)
   \<and> (\<forall>b c. fl_capacity fl c \<noteq> Some 0 \<longrightarrow> fl_send_law fl b c)
   \<and> (\<forall>c. fl_recv_law fl c)
   \<and> (\<forall>c. fl_obs fl (fl_drop_tx fl c) = (fl_queue fl c, fl_capacity fl c, True, fl_rx_alive fl c))
   \<and> (\<forall>c. fl_rx_alive fl (fl_drop_rx fl c) = False)"

section \<open>mux/inner.rs: StreamInfo\<close>

datatype FlowControl = Disabled | EnabledTrackAmount | EnabledSendMessages

record StreamInfo =
  info_id :: u32
  flow_status :: FlowControl
  target_flow_control :: u32
  flow_control :: u32
  close_reason :: u8
  flow_waker :: Waiter

definition StreamInfo_new :: "u32 \<Rightarrow> FlowControl \<Rightarrow> u32 \<Rightarrow> StreamInfo" where
  "StreamInfo_new i status buffer_size =
    \<lparr>info_id = i, flow_status = status,
     target_flow_control = ucast ((ucast buffer_size :: u64) * 90 div 100),
     flow_control = buffer_size, close_reason = CloseReason_into Unknown, flow_waker = Woken\<rparr>"

definition flow_set :: "u32 \<Rightarrow> StreamInfo \<Rightarrow> StreamInfo" where
  "flow_set amt i = i\<lparr>flow_control := amt\<rparr>"

definition flow_add :: "u32 \<Rightarrow> StreamInfo \<Rightarrow> StreamInfo \<times> u32" where
  "flow_add amt i =
    (let new = u32_saturating_add (flow_control i) amt in (i\<lparr>flow_control := new\<rparr>, new))"

definition flow_sub :: "u32 \<Rightarrow> StreamInfo \<Rightarrow> StreamInfo \<times> u32" where
  "flow_sub amt i =
    (let new = u32_saturating_sub (flow_control i) amt in (i\<lparr>flow_control := new\<rparr>, new))"

definition flow_dec :: "StreamInfo \<Rightarrow> StreamInfo" where
  "flow_dec i = fst (flow_sub 1 i)"

definition flow_empty :: "StreamInfo \<Rightarrow> bool" where
  "flow_empty i = (flow_control i = 0)"

definition flow_register :: "nat \<Rightarrow> StreamInfo \<Rightarrow> StreamInfo" where
  "flow_register cx i = i\<lparr>flow_waker := Waiter_register (flow_waker i) cx\<rparr>"

text \<open>The task woken, if any, is the second component.\<close>

definition flow_wake :: "StreamInfo \<Rightarrow> StreamInfo \<times> nat option" where
  "flow_wake i = (case Waiter_wake (flow_waker i) of (x, w) \<Rightarrow> (i\<lparr>flow_waker := x\<rparr>, w))"

definition get_reason :: "StreamInfo \<Rightarrow> CloseReason" where
  "get_reason i = CloseReason_from (close_reason i)"

definition set_reason :: "CloseReason \<Rightarrow> StreamInfo \<Rightarrow> StreamInfo" where
  "set_reason r i = i\<lparr>close_reason := CloseReason_into r\<rparr>"

section \<open>What a poll sees of the other components\<close>

text \<open>
  \<open>e_poll_lock\<close>: the answer of \<open>poll_lock\<close> to a handle that does not hold the sink. \<open>e_poll_ready\<close>
  and \<open>e_poll_flush\<close>: the transport. \<open>e_mux_gone\<close>: the task that owns the other end of the event channel
  has ended. \<open>e_actor_ready\<close>, \<open>e_actor_send\<close>: that channel accepts the next event. \<open>e_oneshot\<close>: the
  reply channel, \<open>None\<close> when it was cancelled. \<open>e_cx\<close>: the polling task.
\<close>

record poll_env =
  e_cx :: nat
  e_poll_lock :: "unit poll"
  e_poll_ready :: "unit wres poll"
  e_poll_flush :: "unit wres poll"
  e_mux_gone :: bool
  e_actor_ready :: "bool poll"
  e_actor_send :: bool
  e_oneshot :: "unit wres option poll"

section \<open>stream/mod.rs: MuxStreamRead\<close>

record MuxStreamRead =
  r_locked :: bool
  read_cnt :: u32
  r_chunk :: "bytes option"

definition MuxStreamRead_new :: MuxStreamRead where
  "MuxStreamRead_new = \<lparr>r_locked = False, read_cnt = 0, r_chunk = None\<rparr>"

definition read_get_close_reason :: "'c flume \<Rightarrow> 'c \<Rightarrow> StreamInfo \<Rightarrow> CloseReason option" where
  "read_get_close_reason fl c i =
     (if fl_is_disconnected fl c then Some (get_reason i) else None)"

text \<open>
  The part of \<open>poll_next\<close> after a chunk is in hand. Inside it \<open>ready!\<close> puts the chunk back before it
  returns \<open>Pending\<close>; an error of the sink unlocks it and loses the chunk.
\<close>

definition read_grant ::
    "poll_env \<Rightarrow> MuxStreamRead \<Rightarrow> StreamInfo \<Rightarrow> ws_write \<Rightarrow> bytes
      \<Rightarrow> MuxStreamRead \<times> StreamInfo \<times> ws_write \<times> bytes wres option poll" where
  "read_grant e r i w chunk =
    (if \<not> r_locked r \<and> e_poll_lock e = Pending then (r\<lparr>r_chunk := Some chunk\<rparr>, i, w, Pending)
     else let r = r\<lparr>r_locked := True\<rparr>
     in case e_poll_ready e of
          Pending \<Rightarrow> (r\<lparr>r_chunk := Some chunk\<rparr>, i, w, Pending)
        | Ready (Err err) \<Rightarrow> (r\<lparr>r_locked := False\<rparr>, i, w, Ready (Some (Err err)))
        | Ready Panic \<Rightarrow> (r, i, w, Ready (Some Panic))
        | Ready (Ok _) \<Rightarrow>
            (case flow_add (read_cnt r) i of (i, remaining) \<Rightarrow>
             case ws_send (Packet_encode (new_continue (info_id i) remaining)) w of
               (w, Err err) \<Rightarrow> (r\<lparr>r_locked := False\<rparr>, i, w, Ready (Some (Err err)))
             | (w, Panic) \<Rightarrow> (r, i, w, Ready (Some Panic))
             | (w, Ok _) \<Rightarrow>
                 (r\<lparr>r_locked := False, read_cnt := 0\<rparr>, i, w, Ready (Some (Ok chunk)))))"

definition read_deliver ::
    "poll_env \<Rightarrow> MuxStreamRead \<Rightarrow> StreamInfo \<Rightarrow> ws_write \<Rightarrow> bytes \<Rightarrow> bool
      \<Rightarrow> MuxStreamRead \<times> StreamInfo \<times> ws_write \<times> bytes wres option poll" where
  "read_deliver e r i w chunk was_reading =
    (if flow_status i = EnabledSendMessages then
       let r = (if was_reading then r else r\<lparr>read_cnt := read_cnt r + 1\<rparr>)
       in if read_cnt r > target_flow_control i then read_grant e r i w chunk
          else (r, i, w, Ready (Some (Ok chunk)))
     else (r, i, w, Ready (Some (Ok chunk))))"

definition read_poll_next ::
    "'c flume \<Rightarrow> poll_env \<Rightarrow> 'c \<Rightarrow> MuxStreamRead \<Rightarrow> StreamInfo \<Rightarrow> ws_write
      \<Rightarrow> 'c \<times> MuxStreamRead \<times> StreamInfo \<times> ws_write \<times> bytes wres option poll" where
  "read_poll_next fl e c r i w =
    (if fl_is_disconnected fl c then (c, r, i, w, Ready None)
     else case r_chunk r of
       Some chunk \<Rightarrow> (c, read_deliver e (r\<lparr>r_chunk := None\<rparr>) i w chunk True)
     | None \<Rightarrow>
         (case fl_poll_next fl c of
            (c, Pending) \<Rightarrow> (c, r, i, w, Pending)
          | (c, Ready None) \<Rightarrow> (c, r, i, w, Ready None)
          | (c, Ready (Some chunk)) \<Rightarrow> (c, read_deliver e r i w chunk False)))"

section \<open>stream/mod.rs: MuxStreamWrite\<close>

record MuxStreamWrite =
  w_locked :: bool
  w_chunk :: "bytes option"
  oneshot :: bool

definition MuxStreamWrite_new :: MuxStreamWrite where
  "MuxStreamWrite_new = \<lparr>w_locked = False, w_chunk = None, oneshot = False\<rparr>"

definition write_get_close_reason :: "poll_env \<Rightarrow> StreamInfo \<Rightarrow> CloseReason option" where
  "write_get_close_reason e i = (if e_mux_gone e then Some (get_reason i) else None)"

definition maybe_write ::
    "MuxStreamWrite \<Rightarrow> StreamInfo \<Rightarrow> ws_write \<Rightarrow> MuxStreamWrite \<times> StreamInfo \<times> ws_write \<times> unit wres" where
  "maybe_write s i w = (case w_chunk s of
      None \<Rightarrow> (s, i, w, Ok ())
    | Some chunk \<Rightarrow>
        (case ws_send (Packet_encode (new_data (info_id i) (Owned chunk))) w of
           (w, Ok _) \<Rightarrow> (s\<lparr>w_chunk := None\<rparr>,
              if flow_status i = EnabledTrackAmount then flow_dec i else i, w, Ok ())
         | (w, r) \<Rightarrow> (s\<lparr>w_chunk := None\<rparr>, i, w, r)))"

text \<open>
  \<open>poll_lock\<close>, then the transport's \<open>poll_ready\<close>, then \<open>maybe_write\<close>: the sequence \<open>poll_ready\<close> and
  \<open>poll_flush\<close> share. The sink stays locked on \<open>Ready (Ok ())\<close> and while it is not ready.
\<close>

definition lock_and_write ::
    "poll_env \<Rightarrow> MuxStreamWrite \<Rightarrow> StreamInfo \<Rightarrow> ws_write
      \<Rightarrow> MuxStreamWrite \<times> StreamInfo \<times> ws_write \<times> unit wres poll" where
  "lock_and_write e s i w =
    (case e_poll_ready e of
       Pending \<Rightarrow> (s, i, w, Pending)
     | Ready (Err err) \<Rightarrow> (s\<lparr>w_locked := False\<rparr>, i, w, Ready (Err err))
     | Ready Panic \<Rightarrow> (s, i, w, Ready Panic)
     | Ready (Ok _) \<Rightarrow>
         (case maybe_write s i w of
            (s, i, w, Err err) \<Rightarrow> (s\<lparr>w_locked := False\<rparr>, i, w, Ready (Err err))
          | (s, i, w, r) \<Rightarrow> (s, i, w, Ready r)))"

definition write_poll_ready ::
    "poll_env \<Rightarrow> MuxStreamWrite \<Rightarrow> StreamInfo \<Rightarrow> ws_write
      \<Rightarrow> MuxStreamWrite \<times> StreamInfo \<times> ws_write \<times> unit wres poll" where
  "write_poll_ready e s i w =
    (if e_mux_gone e then (s, i, w, Ready (Err StreamAlreadyClosed))
     else if flow_status i = EnabledTrackAmount \<and> flow_empty i
     then (s, flow_register (e_cx e) i, w, Pending)
     else if w_chunk s \<noteq> None then
       if \<not> w_locked s \<and> e_poll_lock e = Pending then (s, i, w, Pending)
       else (case lock_and_write e (s\<lparr>w_locked := True\<rparr>) i w of
               (s, i, w, Ready (Ok _)) \<Rightarrow> (s\<lparr>w_locked := False\<rparr>, i, w, Ready (Ok ()))
             | (s, i, w, r) \<Rightarrow> (s, i, w, r))
     else (s, i, w, Ready (Ok ())))"

text \<open>The \<open>debug_assert!\<close> that no chunk is stored is part of the contract of \<open>Sink::start_send\<close>.\<close>

definition write_start_send :: "bytes \<Rightarrow> MuxStreamWrite \<Rightarrow> MuxStreamWrite \<times> unit wres" where
  "write_start_send item s = (s\<lparr>w_chunk := Some item\<rparr>, Ok ())"

definition write_poll_flush ::
    "poll_env \<Rightarrow> MuxStreamWrite \<Rightarrow> StreamInfo \<Rightarrow> ws_write
      \<Rightarrow> MuxStreamWrite \<times> StreamInfo \<times> ws_write \<times> unit wres poll" where
  "write_poll_flush e s i w =
    (if \<not> w_locked s \<and> e_poll_lock e = Pending then (s, i, w, Pending)
     else
       (case (if w_chunk s \<noteq> None then lock_and_write e (s\<lparr>w_locked := True\<rparr>) i w
              else (s\<lparr>w_locked := True\<rparr>, i, w, Ready (Ok ()))) of
          (s, i, w, Ready (Ok _)) \<Rightarrow>
            (case e_poll_flush e of
               Pending \<Rightarrow> (s, i, w, Pending)
             | Ready (Err err) \<Rightarrow> (s\<lparr>w_locked := False\<rparr>, i, w, Ready (Err err))
             | Ready Panic \<Rightarrow> (s, i, w, Ready Panic)
             | Ready (Ok _) \<Rightarrow> (s\<lparr>w_locked := False\<rparr>, i, w, Ready (Ok ())))
        | (s, i, w, r) \<Rightarrow> (s, i, w, r)))"

text \<open>
  \<open>poll_close\<close> answers with the event it hands to the multiplexor task, when it does: the
  request to close the stream with reason \<open>Unknown\<close>.
\<close>

definition write_poll_close ::
    "poll_env \<Rightarrow> MuxStreamWrite \<Rightarrow> StreamInfo \<Rightarrow> ws_write
      \<Rightarrow> MuxStreamWrite \<times> StreamInfo \<times> ws_write \<times> (u32 \<times> ClosePacket) option \<times> unit wres poll" where
  "write_poll_close e s i w =
    (if oneshot s then
       (case e_oneshot e of
          Pending \<Rightarrow> (s, i, w, None, Pending)
        | Ready ret \<Rightarrow> (s\<lparr>oneshot := False\<rparr>, i, w, None,
            Ready (case ret of None \<Rightarrow> Err MuxMessageFailedToSend | Some r \<Rightarrow> r)))
     else
       (case write_poll_flush e s i w of
          (s, i, w, Ready (Ok _)) \<Rightarrow>
            (case e_actor_ready e of
               Pending \<Rightarrow> (s, i, w, None, Pending)
             | Ready False \<Rightarrow> (s, i, w, None, Ready (Err MuxMessageFailedToSend))
             | Ready True \<Rightarrow>
                 (if e_actor_send e
                  then (s\<lparr>oneshot := True\<rparr>, i, w, Some (info_id i, \<lparr>reason = Unknown\<rparr>), Pending)
                  else (s\<lparr>oneshot := True\<rparr>, i, w, None, Ready (Err MuxMessageFailedToSend))))
        | (s, i, w, r) \<Rightarrow> (s, i, w, None, r)))"

text \<open>
  The asynchronous \<open>close\<close> of a stream and of a \<open>MuxStreamCloser\<close>: refused when the task has ended,
  otherwise the event is sent and the reply is awaited.
\<close>

definition write_close ::
    "poll_env \<Rightarrow> CloseReason \<Rightarrow> StreamInfo \<Rightarrow> (u32 \<times> ClosePacket) option \<times> unit wres poll" where
  "write_close e r i =
    (if e_mux_gone e then (None, Ready (Err StreamAlreadyClosed))
     else if \<not> e_actor_send e then (None, Ready (Err MuxMessageFailedToSend))
     else (Some (info_id i, \<lparr>reason = r\<rparr>),
           case e_oneshot e of
             Pending \<Rightarrow> Pending
           | Ready None \<Rightarrow> Ready (Err MuxMessageFailedToRecv)
           | Ready (Some ret) \<Rightarrow> Ready ret))"

section \<open>stream/compat.rs: MuxStreamAsyncWrite\<close>

text \<open>
  \<open>io::Error::other\<close> wraps a \<open>WispError\<close> and keeps it. An error returned by \<open>?\<close> leaves the function
  before \<open>unlock\<close>.
\<close>

record MuxStreamAsyncWrite =
  aw_locked :: bool
  aw_oneshot :: bool

definition MuxStreamAsyncWrite_new :: "MuxStreamWrite \<Rightarrow> MuxStreamAsyncWrite" where
  "MuxStreamAsyncWrite_new s = \<lparr>aw_locked = w_locked s, aw_oneshot = False\<rparr>"

definition async_poll_write ::
    "poll_env \<Rightarrow> bytes \<Rightarrow> MuxStreamAsyncWrite \<Rightarrow> StreamInfo \<Rightarrow> ws_write
      \<Rightarrow> MuxStreamAsyncWrite \<times> ws_write \<times> nat wres poll" where
  "async_poll_write e buf s i w =
    (if \<not> aw_locked s \<and> e_poll_lock e = Pending then (s, w, Pending)
     else let s = s\<lparr>aw_locked := True\<rparr>
     in case e_poll_ready e of
          Pending \<Rightarrow> (s, w, Pending)
        | Ready (Err err) \<Rightarrow> (s, w, Ready (Err err))
        | Ready Panic \<Rightarrow> (s, w, Ready Panic)
        | Ready (Ok _) \<Rightarrow>
            (case ws_send (Packet_encode (new_data (info_id i) (Borrowed buf))) w of
               (w, Ok _) \<Rightarrow> (s\<lparr>aw_locked := False\<rparr>, w, Ready (Ok (length buf)))
             | (w, Err err) \<Rightarrow> (s, w, Ready (Err err))
             | (w, Panic) \<Rightarrow> (s, w, Ready Panic)))"

definition async_poll_flush ::
    "poll_env \<Rightarrow> MuxStreamAsyncWrite \<Rightarrow> MuxStreamAsyncWrite \<times> unit wres poll" where
  "async_poll_flush e s =
    (if \<not> aw_locked s \<and> e_poll_lock e = Pending then (s, Pending)
     else let s = s\<lparr>aw_locked := True\<rparr>
     in case e_poll_flush e of
          Pending \<Rightarrow> (s, Pending)
        | Ready (Err err) \<Rightarrow> (s, Ready (Err err))
        | Ready Panic \<Rightarrow> (s, Ready Panic)
        | Ready (Ok _) \<Rightarrow> (s\<lparr>aw_locked := False\<rparr>, Ready (Ok ())))"

definition async_poll_close ::
    "poll_env \<Rightarrow> MuxStreamAsyncWrite \<Rightarrow> StreamInfo
      \<Rightarrow> MuxStreamAsyncWrite \<times> (u32 \<times> ClosePacket) option \<times> unit wres poll" where
  "async_poll_close e s i =
    (if aw_oneshot s then
       (case e_oneshot e of
          Pending \<Rightarrow> (s, None, Pending)
        | Ready ret \<Rightarrow> (s\<lparr>aw_oneshot := False\<rparr>, None,
            Ready (case ret of None \<Rightarrow> Err MuxMessageFailedToSend | Some r \<Rightarrow> r)))
     else
       (case async_poll_flush e s of
          (s, Ready (Ok _)) \<Rightarrow>
            (case e_actor_ready e of
               Pending \<Rightarrow> (s, None, Pending)
             | Ready False \<Rightarrow> (s, None, Ready (Err MuxMessageFailedToSend))
             | Ready True \<Rightarrow>
                 (if e_actor_send e
                  then (s\<lparr>aw_oneshot := True\<rparr>, Some (info_id i, \<lparr>reason = Unknown\<rparr>), Pending)
                  else (s\<lparr>aw_oneshot := True\<rparr>, None, Ready (Err MuxMessageFailedToSend))))
        | (s, r) \<Rightarrow> (s, None, r)))"

section \<open>stream/handles.rs: MuxProtocolExtensionStream\<close>

definition extension_stream_send ::
    "bool \<Rightarrow> u8 \<Rightarrow> PayloadRef \<Rightarrow> StreamInfo \<Rightarrow> ws_write \<Rightarrow> ws_write \<times> unit wres" where
  "extension_stream_send mux_gone ty data i w =
    (if mux_gone then (w, Err StreamAlreadyClosed)
     else ws_send ((put_u8 ty @ put_u32_le (info_id i)) @ PayloadRef_deref data) w)"

section \<open>Lemmas on channels\<close>

lemma flume_new:
  assumes "flume_laws fl"
  shows "fl_queue fl (fl_bounded fl n) = [] \<and> fl_capacity fl (fl_bounded fl n) = Some n
      \<and> \<not> fl_is_disconnected fl (fl_bounded fl n) \<and> fl_rx_alive fl (fl_bounded fl n)"
    and "fl_queue fl (fl_unbounded fl) = [] \<and> fl_capacity fl (fl_unbounded fl) = None
      \<and> \<not> fl_is_disconnected fl (fl_unbounded fl) \<and> fl_rx_alive fl (fl_unbounded fl)"
  using assms by (simp_all add: flume_laws_def fl_obs_def)

lemma flume_send:
  "flume_laws fl \<Longrightarrow> fl_capacity fl c \<noteq> Some 0 \<Longrightarrow> fl_send_law fl b c"
  by (simp add: flume_laws_def)

lemma flume_try_send_Some:
  assumes "flume_laws fl" "fl_capacity fl c \<noteq> Some 0" "fl_try_send fl b c = Some c'"
  shows "fl_queue fl c' = fl_queue fl c @ [b]" "fl_capacity fl c' = fl_capacity fl c"
    "fl_is_disconnected fl c' = fl_is_disconnected fl c" "fl_rx_alive fl c'" "\<not> fl_full fl c"
  using flume_send [OF assms(1,2), of b] assms(3) by (auto simp: fl_send_law_def fl_obs_def)

lemma flume_try_send_None:
  assumes "flume_laws fl" "fl_capacity fl c \<noteq> Some 0"
  shows "fl_try_send fl b c = None \<longleftrightarrow> \<not> fl_rx_alive fl c \<or> fl_full fl c"
  using flume_send [OF assms, of b] by (auto simp: fl_send_law_def split: option.splits)

lemma flume_poll_next:
  assumes "flume_laws fl" "fl_poll_next fl c = (c', r)"
  shows "fl_capacity fl c' = fl_capacity fl c" "fl_is_disconnected fl c' = fl_is_disconnected fl c"
    "fl_rx_alive fl c' = fl_rx_alive fl c" "fl_queue fl c' = tl (fl_queue fl c)"
    "r = (case fl_queue fl c of
        [] \<Rightarrow> if fl_is_disconnected fl c then Ready None else Pending
      | x # q \<Rightarrow> Ready (Some x))"
proof -
  have "fl_recv_law fl c" using assms(1) by (simp add: flume_laws_def)
  then show "fl_capacity fl c' = fl_capacity fl c"
    "fl_is_disconnected fl c' = fl_is_disconnected fl c"
    "fl_rx_alive fl c' = fl_rx_alive fl c" "fl_queue fl c' = tl (fl_queue fl c)"
    "r = (case fl_queue fl c of
        [] \<Rightarrow> if fl_is_disconnected fl c then Ready None else Pending
      | x # q \<Rightarrow> Ready (Some x))"
    by (simp_all add: assms(2) fl_recv_law_def fl_obs_def)
qed

lemma flume_drop_tx:
  assumes "flume_laws fl"
  shows "fl_queue fl (fl_drop_tx fl c) = fl_queue fl c" "fl_is_disconnected fl (fl_drop_tx fl c)"
    "fl_capacity fl (fl_drop_tx fl c) = fl_capacity fl c"
    "fl_rx_alive fl (fl_drop_tx fl c) = fl_rx_alive fl c"
  using assms by (simp_all add: flume_laws_def fl_obs_def)

text \<open>A channel that is a list of payloads satisfies the laws.\<close>

record list_chan =
  lc_queue :: "bytes list"
  lc_cap :: "nat option"
  lc_disc :: bool
  lc_alive :: bool

definition list_flume :: "list_chan flume" where
  "list_flume = \<lparr>
     fl_bounded = (\<lambda>n. \<lparr>lc_queue = [], lc_cap = Some n, lc_disc = False, lc_alive = True\<rparr>),
     fl_unbounded = \<lparr>lc_queue = [], lc_cap = None, lc_disc = False, lc_alive = True\<rparr>,
     fl_try_send = (\<lambda>b c. if lc_alive c \<and> (case lc_cap c of None \<Rightarrow> True | Some n \<Rightarrow> length (lc_queue c) < n)
                          then Some (c\<lparr>lc_queue := lc_queue c @ [b]\<rparr>) else None),
     fl_poll_next = (\<lambda>c. case lc_queue c of
          [] \<Rightarrow> (c, if lc_disc c then Ready None else Pending)
        | x # q \<Rightarrow> (c\<lparr>lc_queue := q\<rparr>, Ready (Some x))),
     fl_drop_tx = (\<lambda>c. c\<lparr>lc_disc := True\<rparr>), fl_drop_rx = (\<lambda>c. c\<lparr>lc_alive := False\<rparr>),
     fl_is_disconnected = lc_disc, fl_queue = lc_queue, fl_capacity = lc_cap, fl_rx_alive = lc_alive\<rparr>"

lemma list_flume_laws: "flume_laws list_flume"
  by (auto simp: flume_laws_def fl_send_law_def fl_recv_law_def list_flume_def fl_obs_def
      fl_full_def not_le split: option.splits list.splits)

section \<open>Lemmas on streams\<close>

lemma unat_ucast_u64: "unat (ucast (b :: u32) :: u64) = unat b"
  by (simp add: unsigned_ucast_eq take_bit_nat_eq_self order_less_trans [OF u32_bound])

lemma target_exact:
  "unat (target_flow_control (StreamInfo_new i status b)) = unat b * 90 div 100"
proof -
  have b: "unat b < 2 ^ 32" by (rule u32_bound)
  then have "unat ((ucast b :: u64) * 90) = unat b * 90"
    by (simp add: unat_word_ariths unat_ucast_u64)
  then have *: "unat ((ucast b :: u64) * 90 div 100) = unat b * 90 div 100"
    by (simp add: unat_div)
  have "unat b * 90 div 100 < 2 ^ 32" using b by linarith
  then show ?thesis using * by (simp add: StreamInfo_new_def unsigned_ucast_eq take_bit_nat_eq_self)
qed

lemma flow_dec_sel [simp]:
  "info_id (flow_dec i) = info_id i" "flow_status (flow_dec i) = flow_status i"
  "target_flow_control (flow_dec i) = target_flow_control i"
  "unat (flow_control (flow_dec i)) = unat (flow_control i) - 1"
  by (simp_all add: flow_dec_def flow_sub_def Let_def unat_saturating_sub)

lemma flow_add_sel:
  "flow_add amt i = (i', n) \<Longrightarrow> info_id i' = info_id i \<and> flow_status i' = flow_status i
     \<and> target_flow_control i' = target_flow_control i \<and> flow_control i' = n
     \<and> unat n = min (unat (flow_control i) + unat amt) (2 ^ 32 - 1)"
  by (auto simp: flow_add_def Let_def unat_saturating_add)

end
