(* ===== verification/Mux_Inner.thy ===== *)
theory Mux_Inner
  imports Info_Packet Mux_Stream "HOL-Library.AList"
begin

text \<open>
  The multiplexor task, \<open>wisp/src/mux/inner.rs\<close>, with the actors of the two roles
  (\<open>mux/client.rs\<close>, \<open>mux/server.rs\<close>).

  What the task and a stream share through \<open>Arc\<close> and the channel, the \<open>StreamInfo\<close> and the
  payload queue, is a cell of an explicit heap; the stream table maps ids to cells. The trait
  \<open>MultiplexorActor\<close> is the dictionary \<open>actor_ops\<close>, and the locale \<open>multiplexor_actor\<close> its contract. The
  task is driven by a list of inputs: what the transport yields and what the event channel
  yields, in the order \<open>unfair_select\<close> merges them. Replies to the callers and woken tasks are
  recorded.
\<close>

section \<open>State\<close>

record 'c cell =
  c_info :: StreamInfo
  c_chan :: 'c

record 'c heap =
  cells :: "nat \<Rightarrow> 'c cell"
  next_ref :: nat
  woken :: "nat list"

type_synonym StreamMap = "(u32 \<times> nat) list"

record MuxStream =
  ms_ref :: nat
  ms_read :: MuxStreamRead
  ms_write :: MuxStreamWrite

definition MuxStream_new :: "nat \<Rightarrow> MuxStream" where
  "MuxStream_new r = \<lparr>ms_ref = r, ms_read = MuxStreamRead_new, ms_write = MuxStreamWrite_new\<rparr>"

datatype WsEvent =
    EvClose u32 ClosePacket nat
  | EvCreateStream ConnectPacket nat
  | EvWispMessage Packet
  | EvEndFut "CloseReason option"

datatype reply = ReplyClose "unit wres" | ReplyStream "MuxStream wres"

record ('c, 'm) actor_ops =
  handle_connect_packet :: "MuxStream \<Rightarrow> ConnectPacket \<Rightarrow> 'm \<Rightarrow> 'm \<times> unit wres"
  handle_data_packet :: "u32 \<Rightarrow> bytes \<Rightarrow> StreamMap \<Rightarrow> 'c heap \<Rightarrow> 'c heap \<times> unit wres"
  handle_continue_packet :: "u32 \<Rightarrow> ContinuePacket \<Rightarrow> StreamMap \<Rightarrow> 'c heap \<Rightarrow> 'c heap \<times> unit wres"
  get_flow_control :: "StreamType \<Rightarrow> u8 list \<Rightarrow> FlowControl"

record MuxStart =
  downgrade :: "Packet option"
  start_extensions :: "AnyProtocolExtension list"

record ('c, 'm) MuxInner =
  start :: "MuxStart option"
  tx :: ws_write
  tx_held :: bool
  tx_closed :: bool
  flow_stream_types :: "u8 list"
  mux :: 'm
  streams :: StreamMap
  current_id :: u32
  buffer_size :: u32
  hp :: "'c heap"
  env :: ext_env
  replies :: "(nat \<times> reply) list"

definition set_info :: "nat \<Rightarrow> StreamInfo \<Rightarrow> 'c heap \<Rightarrow> 'c heap" where
  "set_info r i h = h\<lparr>cells := (cells h)(r := (cells h r)\<lparr>c_info := i\<rparr>)\<rparr>"

definition set_chan :: "nat \<Rightarrow> 'c \<Rightarrow> 'c heap \<Rightarrow> 'c heap" where
  "set_chan r c h = h\<lparr>cells := (cells h)(r := (cells h r)\<lparr>c_chan := c\<rparr>)\<rparr>"

definition alloc :: "'c cell \<Rightarrow> 'c heap \<Rightarrow> 'c heap" where
  "alloc c h = h\<lparr>cells := (cells h)(next_ref h := c), next_ref := next_ref h + 1\<rparr>"

section \<open>The actors\<close>

text \<open>A \<open>MuxStream\<close> that is dropped instead of being handed out takes the receiver with it.\<close>

definition drop_stream :: "'c flume \<Rightarrow> MuxStream \<Rightarrow> 'c heap \<Rightarrow> 'c heap" where
  "drop_stream fl s h = set_chan (ms_ref s) (fl_drop_rx fl (c_chan (cells h (ms_ref s)))) h"

text \<open>The default implementation of \<open>handle_data_packet\<close>, which the client uses.\<close>

definition default_handle_data_packet ::
    "'c flume \<Rightarrow> u32 \<Rightarrow> bytes \<Rightarrow> StreamMap \<Rightarrow> 'c heap \<Rightarrow> 'c heap \<times> unit wres" where
  "default_handle_data_packet fl i pkt ss h = (case map_of ss i of
      Some r \<Rightarrow> (case fl_try_send fl pkt (c_chan (cells h r)) of
          Some c \<Rightarrow> (set_chan r c h, Ok ())
        | None \<Rightarrow> (h, Ok ()))
    | None \<Rightarrow> (h, Ok ()))"

definition client_handle_connect_packet :: "MuxStream \<Rightarrow> ConnectPacket \<Rightarrow> unit \<Rightarrow> unit \<times> unit wres" where
  "client_handle_connect_packet s pkt m = (m, Err (InvalidPacketType 0x01))"

definition client_handle_continue_packet ::
    "u32 \<Rightarrow> ContinuePacket \<Rightarrow> StreamMap \<Rightarrow> 'c heap \<Rightarrow> 'c heap \<times> unit wres" where
  "client_handle_continue_packet i pkt ss h = (case map_of ss i of
      Some r \<Rightarrow>
        (if flow_status (c_info (cells h r)) = EnabledTrackAmount then
           (case flow_wake (flow_set (buffer_remaining pkt) (c_info (cells h r))) of
              (info, w) \<Rightarrow>
                ((set_info r info h)\<lparr>woken := woken h @ (case w of None \<Rightarrow> [] | Some x \<Rightarrow> [x])\<rparr>, Ok ()))
         else (h, Ok ()))
    | None \<Rightarrow> (h, Ok ()))"

definition client_get_flow_control :: "StreamType \<Rightarrow> u8 list \<Rightarrow> FlowControl" where
  "client_get_flow_control ty tys =
     (if StreamType_into ty \<in> set tys then EnabledTrackAmount else Disabled)"

definition ClientActor :: "'c flume \<Rightarrow> ('c, unit) actor_ops" where
  "ClientActor fl = \<lparr>
     handle_connect_packet = client_handle_connect_packet,
     handle_data_packet = default_handle_data_packet fl,
     handle_continue_packet = client_handle_continue_packet,
     get_flow_control = client_get_flow_control\<rparr>"

text \<open>
  The server's actor holds the sending end of the channel of new streams: what it has sent,
  and whether the channel takes the next one (it does not when the receiver is gone).
\<close>

record ServerState =
  stream_tx_sent :: "(ConnectPacket \<times> MuxStream) list"
  stream_tx_accepts :: "(ConnectPacket \<times> MuxStream) list \<Rightarrow> bool"

definition server_handle_connect_packet ::
    "MuxStream \<Rightarrow> ConnectPacket \<Rightarrow> ServerState \<Rightarrow> ServerState \<times> unit wres" where
  "server_handle_connect_packet s pkt m =
    (if stream_tx_accepts m (stream_tx_sent m)
     then (m\<lparr>stream_tx_sent := stream_tx_sent m @ [(pkt, s)]\<rparr>, Ok ())
     else (m, Err MuxMessageFailedToSend))"

definition server_handle_data_packet ::
    "'c flume \<Rightarrow> u32 \<Rightarrow> bytes \<Rightarrow> StreamMap \<Rightarrow> 'c heap \<Rightarrow> 'c heap \<times> unit wres" where
  "server_handle_data_packet fl i pkt ss h = (case map_of ss i of
      Some r \<Rightarrow> (case fl_try_send fl pkt (c_chan (cells h r)) of
          Some c \<Rightarrow> (set_info r (flow_dec (c_info (cells h r))) (set_chan r c h), Ok ())
        | None \<Rightarrow> (h, Ok ()))
    | None \<Rightarrow> (h, Ok ()))"

definition server_handle_continue_packet ::
    "u32 \<Rightarrow> ContinuePacket \<Rightarrow> StreamMap \<Rightarrow> 'c heap \<Rightarrow> 'c heap \<times> unit wres" where
  "server_handle_continue_packet i pkt ss h = (h, Err (InvalidPacketType 0x03))"

definition server_get_flow_control :: "StreamType \<Rightarrow> u8 list \<Rightarrow> FlowControl" where
  "server_get_flow_control ty tys =
     (if StreamType_into ty \<in> set tys then EnabledSendMessages else Disabled)"

definition ServerActor :: "'c flume \<Rightarrow> ('c, ServerState) actor_ops" where
  "ServerActor fl = \<lparr>
     handle_connect_packet = server_handle_connect_packet,
     handle_data_packet = server_handle_data_packet fl,
     handle_continue_packet = server_handle_continue_packet,
     get_flow_control = server_get_flow_control\<rparr>"

section \<open>MuxInner\<close>

definition MuxInner_new ::
    "ws_write \<Rightarrow> 'm \<Rightarrow> Packet option \<Rightarrow> AnyProtocolExtension list \<Rightarrow> u32 \<Rightarrow> 'c heap \<Rightarrow> ext_env
      \<Rightarrow> ('c, 'm) MuxInner" where
  "MuxInner_new w m dg exts bs h en =
    \<lparr>start = Some \<lparr>downgrade = dg, start_extensions = exts\<rparr>, tx = w, tx_held = False,
     tx_closed = False,
     flow_stream_types = concat (map get_congestion_stream_types exts) @ [StreamType_into Tcp],
     mux = m, streams = [], current_id = 0, buffer_size = bs, hp = h, env = en, replies = []\<rparr>"

definition add_stream ::
    "'c flume \<Rightarrow> ('c, 'm) actor_ops \<Rightarrow> u32 \<Rightarrow> StreamType \<Rightarrow> ('c, 'm) MuxInner
      \<Rightarrow> ('c, 'm) MuxInner \<times> MuxStream" where
  "add_stream fl ops i ty m =
    (let flow = get_flow_control ops ty (flow_stream_types m);
         chan = (if flow = EnabledSendMessages then fl_bounded fl (unat (buffer_size m))
                 else fl_unbounded fl);
         info = StreamInfo_new i flow (buffer_size m);
         r = next_ref (hp m)
     in (m\<lparr>streams := AList.update i r (streams m),
          hp := alloc \<lparr>c_info = info, c_chan = chan\<rparr> (hp m)\<rparr>,
         MuxStream_new r))"

definition create_stream ::
    "'c flume \<Rightarrow> ('c, 'm) actor_ops \<Rightarrow> StreamType \<Rightarrow> ('c, 'm) MuxInner
      \<Rightarrow> ('c, 'm) MuxInner \<times> (MuxStream \<times> u32) wres" where
  "create_stream fl ops ty m = (case u32_checked_add (current_id m) 1 of
      None \<Rightarrow> (m, Err MaxStreamCountReached)
    | Some i \<Rightarrow> (case add_stream fl ops i ty (m\<lparr>current_id := i\<rparr>) of (m, s) \<Rightarrow> (m, Ok (s, i))))"

definition close_stream :: "'c flume \<Rightarrow> nat \<Rightarrow> ClosePacket \<Rightarrow> 'c heap \<Rightarrow> 'c heap" where
  "close_stream fl r close h =
     (let h = set_chan r (fl_drop_tx fl (c_chan (cells h r))) h
      in set_info r (set_reason (reason close) (c_info (cells h r))) h)"

definition handle_close_packet ::
    "'c flume \<Rightarrow> u32 \<Rightarrow> ClosePacket \<Rightarrow> ('c, 'm) MuxInner \<Rightarrow> ('c, 'm) MuxInner \<times> bool" where
  "handle_close_packet fl i close m =
    (if i = 0 then (m, True)
     else (case map_of (streams m) i of
        Some r \<Rightarrow> (m\<lparr>streams := AList.delete i (streams m), hp := close_stream fl r close (hp m)\<rparr>, False)
      | None \<Rightarrow> (m, False)))"

definition handle_packet ::
    "'c flume \<Rightarrow> ('c, 'm) actor_ops \<Rightarrow> Packet \<Rightarrow> ('c, 'm) MuxInner
      \<Rightarrow> ('c, 'm) MuxInner \<times> bool wres" where
  "handle_packet fl ops packet m = (case packet_type packet of
      Connect connect \<Rightarrow>
        (case add_stream fl ops (stream_id packet) (stream_type connect) m of (m, s) \<Rightarrow>
         case handle_connect_packet ops s connect (mux m) of
           (a, Ok _) \<Rightarrow> (m\<lparr>mux := a\<rparr>, Ok False)
         | (a, Err e) \<Rightarrow> (m\<lparr>mux := a, hp := drop_stream fl s (hp m)\<rparr>, Err e)
         | (a, Panic) \<Rightarrow> (m\<lparr>mux := a\<rparr>, Panic))
    | Data data \<Rightarrow>
        (case handle_data_packet ops (stream_id packet) (into_owned data) (streams m) (hp m) of
           (h, r) \<Rightarrow> (m\<lparr>hp := h\<rparr>, res_bind r (\<lambda>_. Ok False)))
    | Continue cont \<Rightarrow>
        (case handle_continue_packet ops (stream_id packet) cont (streams m) (hp m) of
           (h, r) \<Rightarrow> (m\<lparr>hp := h\<rparr>, res_bind r (\<lambda>_. Ok False)))
    | Close close \<Rightarrow>
        (case handle_close_packet fl (stream_id packet) close m of (m, b) \<Rightarrow> (m, Ok b)))"

text \<open>
  One round of the loop of \<open>entry\<close>: the event, and whether the loop ends. Locking the sink, sending
  and unlocking is one step of the task; \<open>tx_held\<close> records that an early return skipped the unlock.
\<close>

definition mux_send :: "bytes \<Rightarrow> ('c, 'm) MuxInner \<Rightarrow> ('c, 'm) MuxInner \<times> unit wres" where
  "mux_send msg m = (case ws_send msg (tx m) of (w, r) \<Rightarrow> (m\<lparr>tx := w, tx_held := True\<rparr>, r))"

definition add_reply :: "nat \<Rightarrow> reply \<Rightarrow> ('c, 'm) MuxInner \<Rightarrow> ('c, 'm) MuxInner" where
  "add_reply n r m = m\<lparr>replies := replies m @ [(n, r)]\<rparr>"

definition handle_event ::
    "'c flume \<Rightarrow> ('c, 'm) actor_ops \<Rightarrow> WsEvent \<Rightarrow> ('c, 'm) MuxInner
      \<Rightarrow> ('c, 'm) MuxInner \<times> bool wres" where
  "handle_event fl ops ev m = (case ev of
      EvCreateStream connect ch \<Rightarrow>
        (case create_stream fl ops (stream_type connect) m of
           (m, Ok (s, i)) \<Rightarrow>
             (case mux_send (Packet_encode \<lparr>stream_id = i, packet_type = Connect connect\<rparr>) m of
                (m, Ok _) \<Rightarrow> (add_reply ch (ReplyStream (Ok s)) (m\<lparr>tx_held := False\<rparr>), Ok False)
              | (m, Err e) \<Rightarrow>
                  (add_reply ch (ReplyStream (Err e)) (m\<lparr>hp := drop_stream fl s (hp m)\<rparr>), Ok False)
              | (m, Panic) \<Rightarrow> (m, Panic))
         | (m, Err e) \<Rightarrow> (add_reply ch (ReplyStream (Err e)) m, Ok False)
         | (m, Panic) \<Rightarrow> (m, Panic))
    | EvClose i close ch \<Rightarrow>
        (case map_of (streams m) i of
           Some r \<Rightarrow>
             (case mux_send (Packet_encode \<lparr>stream_id = i, packet_type = Close close\<rparr>)
                     (m\<lparr>streams := AList.delete i (streams m), hp := close_stream fl r close (hp m)\<rparr>) of
                (m, ret) \<Rightarrow> (add_reply ch (ReplyClose ret) (m\<lparr>tx_held := False\<rparr>), Ok False))
         | None \<Rightarrow> (add_reply ch (ReplyClose (Err (InvalidStreamId i))) m, Ok False))
    | EvEndFut x \<Rightarrow>
        (case x of
           Some r \<Rightarrow> ((fst (mux_send (Packet_encode (new_close 0 r)) m))\<lparr>tx_held := False\<rparr>, Ok True)
         | None \<Rightarrow> (m, Ok True))
    | EvWispMessage packet \<Rightarrow> handle_packet fl ops packet m)"

text \<open>
  The read side, an \<open>unfold\<close> over the transport: \<open>None\<close> ends the stream. It ends when the transport
  ends, and also after a packet that an extension handled.
\<close>

definition read_stream_item ::
    "AnyProtocolExtension list \<Rightarrow> bytes wres option \<Rightarrow> ext_env \<Rightarrow> ws_write
      \<Rightarrow> ext_env \<times> ws_write \<times> WsEvent wres option" where
  "read_stream_item exts item en w = (case item of
      None \<Rightarrow> (en, w, None)
    | Some (Err e) \<Rightarrow> (en, w, Some (Err e))
    | Some Panic \<Rightarrow> (en, w, Some Panic)
    | Some (Ok msg) \<Rightarrow>
        (case MaybeExtensionPacket_decode msg exts en w of
           (en, w, Ok (MEPacket x)) \<Rightarrow> (en, w, Some (Ok (EvWispMessage x)))
         | (en, w, Ok ExtensionHandled) \<Rightarrow> (en, w, None)
         | (en, w, Err e) \<Rightarrow> (en, w, Some (Err e))
         | (en, w, Panic) \<Rightarrow> (en, w, Some Panic)))"

datatype input = FromTransport "bytes wres option" | FromActor WsEvent

definition next_event ::
    "AnyProtocolExtension list \<Rightarrow> input \<Rightarrow> ('c, 'm) MuxInner
      \<Rightarrow> ('c, 'm) MuxInner \<times> WsEvent wres option" where
  "next_event exts inp m = (case inp of
      FromActor ev \<Rightarrow> (m, Some (Ok ev))
    | FromTransport item \<Rightarrow>
        (case read_stream_item exts item (env m) (tx m) of (en, w, r) \<Rightarrow> (m\<lparr>env := en, tx := w\<rparr>, r)))"

text \<open>\<open>None\<close> as the result: the loop waits for further inputs.\<close>

fun entry_loop ::
    "'c flume \<Rightarrow> ('c, 'm) actor_ops \<Rightarrow> AnyProtocolExtension list \<Rightarrow> input list \<Rightarrow> ('c, 'm) MuxInner
      \<Rightarrow> ('c, 'm) MuxInner \<times> unit wres option" where
  "entry_loop fl ops exts [] m = (m, None)"
| "entry_loop fl ops exts (inp # inps) m =
    (case next_event exts inp m of
       (m, None) \<Rightarrow> (m, Some (Ok ()))
     | (m, Some (Err e)) \<Rightarrow> (m, Some (Err e))
     | (m, Some Panic) \<Rightarrow> (m, Some Panic)
     | (m, Some (Ok ev)) \<Rightarrow>
         (case handle_event fl ops ev m of
            (m, Ok True) \<Rightarrow> (m, Some (Ok ()))
          | (m, Ok False) \<Rightarrow> entry_loop fl ops exts inps m
          | (m, Err e) \<Rightarrow> (m, Some (Err e))
          | (m, Panic) \<Rightarrow> (m, Some Panic)))"

definition entry ::
    "'c flume \<Rightarrow> ('c, 'm) actor_ops \<Rightarrow> input list \<Rightarrow> ('c, 'm) MuxInner
      \<Rightarrow> ('c, 'm) MuxInner \<times> unit wres option" where
  "entry fl ops inps m = (case start m of
      None \<Rightarrow> (m, Some (Err MuxTaskStarted))
    | Some st \<Rightarrow>
        (let m = m\<lparr>start := None\<rparr>
         in case downgrade st of
              None \<Rightarrow> entry_loop fl ops (start_extensions st) inps m
            | Some packet \<Rightarrow>
                (case handle_packet fl ops packet m of
                   (m, Ok True) \<Rightarrow> (m, Some (Ok ()))
                 | (m, Ok False) \<Rightarrow> entry_loop fl ops (start_extensions st) inps m
                 | (m, Err e) \<Rightarrow> (m, Some (Err e))
                 | (m, Panic) \<Rightarrow> (m, Some Panic))))"

fun close_all :: "'c flume \<Rightarrow> StreamMap \<Rightarrow> 'c heap \<Rightarrow> 'c heap" where
  "close_all fl [] h = h"
| "close_all fl ((i, r) # ss) h = close_all fl ss (close_stream fl r \<lparr>reason = Unknown\<rparr> h)"

definition into_future ::
    "'c flume \<Rightarrow> ('c, 'm) actor_ops \<Rightarrow> input list \<Rightarrow> ('c, 'm) MuxInner
      \<Rightarrow> ('c, 'm) MuxInner \<times> unit wres option" where
  "into_future fl ops inps m = (case entry fl ops inps m of
      (m, None) \<Rightarrow> (m, None)
    | (m, Some Panic) \<Rightarrow> (m, Some Panic)
    | (m, Some ret) \<Rightarrow>
        (m\<lparr>streams := [], hp := close_all fl (streams m) (hp m), tx_closed := True, tx_held := False\<rparr>,
         Some ret))"

section \<open>Invariant\<close>

text \<open>
  Every id of the table has one entry, which refers to an allocated cell whose \<open>StreamInfo\<close>
  carries that id. Distinct ids therefore refer to distinct cells.
\<close>

definition table_inv :: "StreamMap \<Rightarrow> 'c heap \<Rightarrow> bool" where
  "table_inv ss h \<longleftrightarrow> distinct (map fst ss) \<and>
     (\<forall>i r. map_of ss i = Some r \<longrightarrow> r < next_ref h \<and> info_id (c_info (cells h r)) = i)"

definition mux_inv :: "('c, 'm) MuxInner \<Rightarrow> bool" where
  "mux_inv m = table_inv (streams m) (hp m)"

section \<open>Lemmas on the heap\<close>

lemma set_info_sel [simp]:
  "next_ref (set_info r i h) = next_ref h"
  "cells (set_info r i h) = (cells h)(r := (cells h r)\<lparr>c_info := i\<rparr>)"
  "woken (set_info r i h) = woken h"
  by (simp_all add: set_info_def)

lemma set_chan_sel [simp]:
  "next_ref (set_chan r c h) = next_ref h"
  "cells (set_chan r c h) = (cells h)(r := (cells h r)\<lparr>c_chan := c\<rparr>)"
  "woken (set_chan r c h) = woken h"
  by (simp_all add: set_chan_def)

lemma alloc_sel [simp]:
  "next_ref (alloc c h) = next_ref h + 1" "cells (alloc c h) = (cells h)(next_ref h := c)"
  "woken (alloc c h) = woken h"
  by (simp_all add: alloc_def)

lemma set_reason_sel [simp]:
  "info_id (set_reason r i) = info_id i" "flow_control (set_reason r i) = flow_control i"
  "flow_status (set_reason r i) = flow_status i" "close_reason (set_reason r i) = CloseReason_into r"
  by (simp_all add: set_reason_def)

lemma close_stream_sel [simp]:
  "next_ref (close_stream fl r c h) = next_ref h"
  "x \<noteq> r \<Longrightarrow> cells (close_stream fl r c h) x = cells h x"
  "info_id (c_info (cells (close_stream fl r c h) x)) = info_id (c_info (cells h x))"
  "c_chan (cells (close_stream fl r c h) r) = fl_drop_tx fl (c_chan (cells h r))"
  "close_reason (c_info (cells (close_stream fl r c h) r)) = CloseReason_into (reason c)"
  by (simp_all add: close_stream_def Let_def)

lemma drop_stream_sel [simp]:
  "next_ref (drop_stream fl s h) = next_ref h"
  "x \<noteq> ms_ref s \<Longrightarrow> cells (drop_stream fl s h) x = cells h x"
  "c_info (cells (drop_stream fl s h) x) = c_info (cells h x)"
  by (simp_all add: drop_stream_def)

lemma table_invD:
  assumes "table_inv ss h" "map_of ss i = Some r"
  shows "r < next_ref h" "info_id (c_info (cells h r)) = i"
  using assms unfolding table_inv_def by blast+

lemma table_invI:
  assumes "distinct (map fst ss)"
    and "\<And>i r. map_of ss i = Some r \<Longrightarrow> r < next_ref h \<and> info_id (c_info (cells h r)) = i"
  shows "table_inv ss h"
  using assms unfolding table_inv_def by blast

lemma table_inv_distinct: "table_inv ss h \<Longrightarrow> distinct (map fst ss)"
  by (simp add: table_inv_def)

lemma table_inv_frame:
  assumes "table_inv ss h" "next_ref h' = next_ref h"
    and "\<And>x. info_id (c_info (cells h' x)) = info_id (c_info (cells h x))"
  shows "table_inv ss h'"
  using assms(2,3) table_invD [OF assms(1)]
  by (intro table_invI table_inv_distinct [OF assms(1)]) auto

lemma table_inv_delete:
  assumes "table_inv ss h"
  shows "table_inv (AList.delete i ss) h"
proof (rule table_invI)
  show "distinct (map fst (AList.delete i ss))"
    by (rule distinct_delete [OF table_inv_distinct [OF assms]])
  fix j r assume "map_of (AList.delete i ss) j = Some r"
  then have "map_of ss j = Some r" by (cases "j = i") (simp_all add: delete_conv')
  then show "r < next_ref h \<and> info_id (c_info (cells h r)) = j" using table_invD [OF assms] by blast
qed

lemma table_inv_add:
  assumes "table_inv ss h" "info_id (c_info c) = i"
  shows "table_inv (AList.update i (next_ref h) ss) (alloc c h)"
proof (rule table_invI)
  show "distinct (map fst (AList.update i (next_ref h) ss))"
    by (rule distinct_update [OF table_inv_distinct [OF assms(1)]])
  fix j r assume upd: "map_of (AList.update i (next_ref h) ss) j = Some r"
  show "r < next_ref (alloc c h) \<and> info_id (c_info (cells (alloc c h) r)) = j"
  proof (cases "j = i")
    case True
    with upd have "r = next_ref h" by (simp add: update_conv')
    with True assms(2) show ?thesis by simp
  next
    case False
    with upd have "map_of ss j = Some r" by (simp add: update_conv')
    from table_invD [OF assms(1) this] show ?thesis by simp
  qed
qed

lemma table_inv_inj:
  "table_inv ss h \<Longrightarrow> map_of ss i = Some r \<Longrightarrow> map_of ss j = Some r \<Longrightarrow> i = j"
  by (metis table_invD(2))

lemma table_inv_fresh: "table_inv ss h \<Longrightarrow> map_of ss i = Some r \<Longrightarrow> r \<noteq> next_ref h"
  by (metis table_invD(1) less_irrefl)

lemma StreamInfo_new_id [simp]: "info_id (StreamInfo_new i s b) = i"
  by (simp add: StreamInfo_new_def)

section \<open>The contract of an actor\<close>

text \<open>
  A handler of DATA or CONTINUE packets may change the cell of the stream it was called for
  and no other, keeps the id of every cell, and allocates nothing.
\<close>

definition handler_frame :: "u32 \<Rightarrow> StreamMap \<Rightarrow> 'c heap \<Rightarrow> 'c heap \<Rightarrow> bool" where
  "handler_frame i ss h h' \<longleftrightarrow> next_ref h' = next_ref h
     \<and> (\<forall>x. map_of ss i \<noteq> Some x \<longrightarrow> cells h' x = cells h x)
     \<and> (\<forall>x. info_id (c_info (cells h' x)) = info_id (c_info (cells h x)))"

locale multiplexor_actor =
  fixes ops :: "('c, 'm) actor_ops"
  assumes data_frame: "handle_data_packet ops i pkt ss h = (h', r) \<Longrightarrow> handler_frame i ss h h'"
    and data_ok: "snd (handle_data_packet ops i pkt ss h) = Ok ()"
    and continue_frame: "handle_continue_packet ops i cont ss h = (h', r) \<Longrightarrow> handler_frame i ss h h'"
    and continue_no_panic: "snd (handle_continue_packet ops i cont ss h) \<noteq> Panic"
    and connect_no_panic: "snd (handle_connect_packet ops s c a) \<noteq> Panic"
begin

lemma add_stream_inv:
  assumes "table_inv (streams m) (hp m)" "add_stream fl ops i ty m = (m', s)"
  shows "table_inv (streams m') (hp m')"
  using assms(2) by (auto simp: add_stream_def Let_def intro!: table_inv_add [OF assms(1)])

lemma add_stream_frame:
  assumes "table_inv (streams m) (hp m)" "add_stream fl ops i ty m = (m', s)"
    and "map_of (streams m) j = Some x" "j \<noteq> i"
  shows "map_of (streams m') j = Some x" "cells (hp m') x = cells (hp m) x" "x \<noteq> ms_ref s"
  using assms(2-4) table_inv_fresh [OF assms(1,3)]
  by (auto simp: add_stream_def Let_def update_conv' MuxStream_new_def)

lemma handle_close_inv:
  assumes "table_inv (streams m) (hp m)" "handle_close_packet fl i c m = (m', b)"
  shows "table_inv (streams m') (hp m')"
proof (cases "map_of (streams m) i")
  case (Some r)
  have "table_inv (AList.delete i (streams m)) (close_stream fl r c (hp m))"
    by (rule table_inv_frame [OF table_inv_delete [OF assms(1)]]) simp_all
  with Some assms show ?thesis by (auto simp: handle_close_packet_def split: if_splits)
qed (use assms in \<open>auto simp: handle_close_packet_def split: if_splits\<close>)

lemma handler_frame_inv:
  "table_inv ss h \<Longrightarrow> handler_frame i ss' h h' \<Longrightarrow> table_inv ss h'"
  by (rule table_inv_frame) (auto simp: handler_frame_def)

lemma handle_packet_cases:
  assumes "handle_packet fl ops p m = (m', r)"
  obtains
    (Accepted) c m1 s a where "packet_type p = Connect c"
      "add_stream fl ops (stream_id p) (stream_type c) m = (m1, s)" "m' = m1\<lparr>mux := a\<rparr>" "r = Ok False"
  | (Refused) c m1 s a e where "packet_type p = Connect c"
      "add_stream fl ops (stream_id p) (stream_type c) m = (m1, s)"
      "m' = m1\<lparr>mux := a, hp := drop_stream fl s (hp m1)\<rparr>" "r = Err e"
  | (DataCase) d h where "packet_type p = Data d"
      "handle_data_packet ops (stream_id p) (into_owned d) (streams m) (hp m) = (h, Ok ())"
      "m' = m\<lparr>hp := h\<rparr>" "r = Ok False"
  | (ContinueCase) c h a where "packet_type p = Continue c"
      "handle_continue_packet ops (stream_id p) c (streams m) (hp m) = (h, a)"
      "m' = m\<lparr>hp := h\<rparr>" "r = res_bind a (\<lambda>_. Ok False)"
  | (CloseCase) c b where "packet_type p = Close c"
      "handle_close_packet fl (stream_id p) c m = (m', b)" "r = Ok b"
proof (cases "packet_type p")
  case (Connect c)
  obtain m1 s where a: "add_stream fl ops (stream_id p) (stream_type c) m = (m1, s)" by fastforce
  obtain a' r' where h: "handle_connect_packet ops s c (mux m1) = (a', r')" by fastforce
  show thesis
  proof (cases r')
    case (Ok u)
    with assms Connect a h show thesis by (intro Accepted) (auto simp: handle_packet_def)
  next
    case (Err e)
    with assms Connect a h show thesis by (intro Refused) (auto simp: handle_packet_def)
  next
    case Panic
    with connect_no_panic [of s c "mux m1"] h show thesis by simp
  qed
next
  case (Data d)
  then obtain h where "handle_data_packet ops (stream_id p) (into_owned d) (streams m) (hp m) = (h, Ok ())"
    using data_ok [of "stream_id p" "into_owned d" "streams m" "hp m"] by (metis prod.collapse)
  with assms Data show thesis by (intro DataCase) (auto simp: handle_packet_def)
next
  case (Continue c)
  obtain h a where "handle_continue_packet ops (stream_id p) c (streams m) (hp m) = (h, a)" by fastforce
  with assms Continue show thesis by (intro ContinueCase) (auto simp: handle_packet_def)
next
  case (Close c)
  obtain m1 b where "handle_close_packet fl (stream_id p) c m = (m1, b)" by fastforce
  with assms Close show thesis by (intro CloseCase) (auto simp: handle_packet_def)
qed

lemma handle_packet_inv:
  assumes "mux_inv m" "handle_packet fl ops p m = (m', r)"
  shows "mux_inv m'"
proof -
  have inv: "table_inv (streams m) (hp m)" using assms(1) by (simp add: mux_inv_def)
  from assms(2) show ?thesis
  proof (cases rule: handle_packet_cases)
    case (Accepted c m1 s a)
    with add_stream_inv [OF inv] show ?thesis by (simp add: mux_inv_def)
  next
    case (Refused c m1 s a e)
    have "table_inv (streams m1) (drop_stream fl s (hp m1))"
      by (rule table_inv_frame [OF add_stream_inv [OF inv Refused(2)]]) simp_all
    with Refused show ?thesis by (simp add: mux_inv_def)
  next
    case (DataCase d h)
    with handler_frame_inv [OF inv] data_frame show ?thesis by (fastforce simp: mux_inv_def)
  next
    case (ContinueCase c h a)
    with handler_frame_inv [OF inv] continue_frame show ?thesis by (fastforce simp: mux_inv_def)
  next
    case (CloseCase c b)
    with handle_close_inv [OF inv] show ?thesis by (simp add: mux_inv_def)
  qed
qed

lemma handle_packet_isolated:
  assumes "mux_inv m" "handle_packet fl ops p m = (m', r)"
    and "map_of (streams m) j = Some x" "j \<noteq> stream_id p"
  shows "map_of (streams m') j = Some x \<and> cells (hp m') x = cells (hp m) x"
proof -
  have inv: "table_inv (streams m) (hp m)" using assms(1) by (simp add: mux_inv_def)
  have other: "map_of (streams m) (stream_id p) \<noteq> Some x"
    using table_inv_inj [OF inv assms(3)] assms(4) by blast
  from assms(2) show ?thesis
  proof (cases rule: handle_packet_cases)
    case (Accepted c m1 s a)
    with add_stream_frame [OF inv Accepted(2) assms(3,4)] show ?thesis by simp
  next
    case (Refused c m1 s a e)
    with add_stream_frame [OF inv Refused(2) assms(3,4)] show ?thesis by simp
  next
    case (DataCase d h)
    with data_frame [OF DataCase(2)] other assms(3) show ?thesis by (simp add: handler_frame_def)
  next
    case (ContinueCase c h a)
    with continue_frame [OF ContinueCase(2)] other assms(3) show ?thesis by (simp add: handler_frame_def)
  next
    case (CloseCase c b)
    with other assms(3,4) show ?thesis
      by (auto simp: handle_close_packet_def delete_conv' split: if_splits option.splits)
  qed
qed

lemma handle_packet_no_panic: "snd (handle_packet fl ops p m) \<noteq> Panic"
proof -
  obtain m' r where h: "handle_packet fl ops p m = (m', r)" by fastforce
  then have "r \<noteq> Panic"
  proof (cases rule: handle_packet_cases)
    case (ContinueCase c h a)
    with continue_no_panic [of "stream_id p" c "streams m" "hp m"] show ?thesis by simp
  qed auto
  with h show ?thesis by simp
qed

lemma mux_send_inv: "mux_inv m \<Longrightarrow> mux_inv (fst (mux_send msg m))"
  by (simp add: mux_inv_def mux_send_def split: prod.splits)

lemma create_stream_inv:
  assumes "mux_inv m" "create_stream fl ops ty m = (m', r)"
  shows "mux_inv m'"
  using assms add_stream_inv [of "m\<lparr>current_id := the (u32_checked_add (current_id m) 1)\<rparr>" fl]
  by (auto simp: create_stream_def mux_inv_def split: option.splits prod.splits)

lemma mux_inv_drop_stream: "mux_inv m \<Longrightarrow> mux_inv (m\<lparr>hp := drop_stream fl s (hp m)\<rparr>)"
  by (auto simp: mux_inv_def intro: table_inv_frame)

lemma mux_inv_close:
  "mux_inv m \<Longrightarrow>
     mux_inv (m\<lparr>streams := AList.delete i (streams m), hp := close_stream fl r c (hp m)\<rparr>)"
  by (auto simp: mux_inv_def intro: table_inv_frame [OF table_inv_delete])

lemma mux_inv_cong [simp]:
  "mux_inv (add_reply n x m) = mux_inv m" "mux_inv (m\<lparr>tx_held := b\<rparr>) = mux_inv m"
  by (simp_all add: mux_inv_def add_reply_def)

lemma handle_event_inv:
  assumes "mux_inv m" "handle_event fl ops ev m = (m', r)"
  shows "mux_inv m'"
proof (cases ev)
  case (EvCreateStream c ch)
  obtain m1 r1 where cs: "create_stream fl ops (stream_type c) m = (m1, r1)" by fastforce
  then have m1: "mux_inv m1" by (rule create_stream_inv [OF assms(1)])
  show ?thesis
  proof (cases r1)
    case (Ok si)
    obtain s i where si: "si = (s, i)" by (cases si)
    obtain m2 r2 where ms: "mux_send (Packet_encode \<lparr>stream_id = i, packet_type = Connect c\<rparr>) m1 = (m2, r2)"
      by fastforce
    then have "mux_inv m2" using mux_send_inv [OF m1] by (metis fst_conv)
    with assms(2) mux_inv_drop_stream [of m2 fl s] show ?thesis
      by (cases r2) (auto simp: handle_event_def EvCreateStream cs Ok si ms)
  qed (use assms(2) m1 in \<open>auto simp: handle_event_def EvCreateStream cs\<close>)
next
  case (EvClose i c ch)
  show ?thesis
  proof (cases "map_of (streams m) i")
    case (Some x)
    let ?m = "m\<lparr>streams := AList.delete i (streams m), hp := close_stream fl x c (hp m)\<rparr>"
    have "mux_inv (fst (mux_send (Packet_encode \<lparr>stream_id = i, packet_type = Close c\<rparr>) ?m))"
      by (rule mux_send_inv [OF mux_inv_close [OF assms(1)]])
    with assms(2) Some show ?thesis by (auto simp: handle_event_def EvClose split: prod.splits)
  qed (use assms in \<open>auto simp: handle_event_def EvClose\<close>)
next
  case (EvEndFut x)
  then show ?thesis
    using assms mux_send_inv by (auto simp: handle_event_def split: option.splits)
next
  case (EvWispMessage p)
  with assms handle_packet_inv show ?thesis by (simp add: handle_event_def)
qed

lemma next_event_inv: "mux_inv m \<Longrightarrow> next_event exts inp m = (m', r) \<Longrightarrow> mux_inv m'"
  by (auto simp: next_event_def mux_inv_def split: input.splits prod.splits)

lemma entry_loop_inv:
  assumes "mux_inv m" "entry_loop fl ops exts inps m = (m', r)"
  shows "mux_inv m'"
  using assms
proof (induction inps arbitrary: m)
  case (Cons inp inps)
  obtain m1 r1 where n: "next_event exts inp m = (m1, r1)" by fastforce
  have m1: "mux_inv m1" by (rule next_event_inv [OF Cons.prems(1) n])
  show ?case
  proof (cases "\<exists>ev. r1 = Some (Ok ev)")
    case True
    then obtain ev where ev: "r1 = Some (Ok ev)" by blast
    obtain m2 r2 where h: "handle_event fl ops ev m1 = (m2, r2)" by fastforce
    have "mux_inv m2" by (rule handle_event_inv [OF m1 h])
    with Cons.prems(2) Cons.IH [of m2] show ?thesis
      by (cases r2) (auto simp: n ev h split: bool.splits)
  next
    case False
    with Cons.prems(2) m1 show ?thesis
      by (auto simp: n split: option.splits res.splits)
  qed
qed simp

lemma entry_inv:
  assumes "mux_inv m" "entry fl ops inps m = (m', r)"
  shows "mux_inv m'"
proof (cases "start m")
  case (Some st)
  let ?m = "m\<lparr>start := None\<rparr>"
  have m: "mux_inv ?m" using assms(1) by (simp add: mux_inv_def)
  show ?thesis
  proof (cases "downgrade st")
    case None
    with Some assms(2) entry_loop_inv [OF m] show ?thesis by (simp add: entry_def)
  next
    case (Some p)
    obtain m1 r1 where h: "handle_packet fl ops p ?m = (m1, r1)" by fastforce
    have "mux_inv m1" by (rule handle_packet_inv [OF m h])
    with \<open>start m = Some st\<close> Some assms(2) entry_loop_inv [of m1] show ?thesis
      by (cases r1) (auto simp: entry_def h split: bool.splits)
  qed
qed (use assms in \<open>simp add: entry_def\<close>)

lemma into_future_inv:
  assumes "mux_inv m" "into_future fl ops inps m = (m', r)"
  shows "mux_inv m'"
proof -
  obtain m1 r1 where e: "entry fl ops inps m = (m1, r1)" by fastforce
  have "mux_inv m1" by (rule entry_inv [OF assms(1) e])
  with assms(2) show ?thesis
    by (auto simp: into_future_def e mux_inv_def table_inv_def split: option.splits res.splits)
qed

end

section \<open>The actors meet the contract\<close>

lemma default_data_frame:
  "default_handle_data_packet fl i pkt ss h = (h', r) \<Longrightarrow> handler_frame i ss h h' \<and> r = Ok ()"
  by (auto simp: default_handle_data_packet_def handler_frame_def split: option.splits)

lemma server_data_frame:
  "server_handle_data_packet fl i pkt ss h = (h', r) \<Longrightarrow> handler_frame i ss h h' \<and> r = Ok ()"
  by (auto simp: server_handle_data_packet_def handler_frame_def split: option.splits)

lemma flow_wake_sel: "flow_wake i = (i', w) \<Longrightarrow> info_id i' = info_id i \<and> flow_control i' = flow_control i"
  by (auto simp: flow_wake_def Waiter_wake_def)

lemma client_continue_frame:
  "client_handle_continue_packet i pkt ss h = (h', r) \<Longrightarrow> handler_frame i ss h h' \<and> r = Ok ()"
  by (auto simp: client_handle_continue_packet_def handler_frame_def flow_set_def
      split: option.splits if_splits prod.splits dest!: flow_wake_sel)

interpretation client_actor: multiplexor_actor "ClientActor fl" for fl
proof
  show "handle_data_packet (ClientActor fl) i pkt ss h = (h', r) \<Longrightarrow> handler_frame i ss h h'"
    for i pkt ss h h' r using default_data_frame [of fl] by (simp add: ClientActor_def)
  show "snd (handle_data_packet (ClientActor fl) i pkt ss h) = Ok ()" for i pkt ss h
    using default_data_frame [of fl i pkt ss h] by (simp add: ClientActor_def) (metis prod.collapse)
  show "handle_continue_packet (ClientActor fl) i c ss h = (h', r) \<Longrightarrow> handler_frame i ss h h'"
    for i c ss h h' r using client_continue_frame by (simp add: ClientActor_def) blast
  show "snd (handle_continue_packet (ClientActor fl) i c ss h) \<noteq> Panic" for i c ss h
    using client_continue_frame [of i c ss h] by (simp add: ClientActor_def) (metis prod.collapse res.distinct(3))
qed (simp add: ClientActor_def client_handle_connect_packet_def)

interpretation server_actor: multiplexor_actor "ServerActor fl" for fl
proof
  show "handle_data_packet (ServerActor fl) i pkt ss h = (h', r) \<Longrightarrow> handler_frame i ss h h'"
    for i pkt ss h h' r using server_data_frame [of fl] by (simp add: ServerActor_def)
  show "snd (handle_data_packet (ServerActor fl) i pkt ss h) = Ok ()" for i pkt ss h
    using server_data_frame [of fl i pkt ss h] by (simp add: ServerActor_def) (metis prod.collapse)
qed (auto simp: ServerActor_def server_handle_connect_packet_def server_handle_continue_packet_def
       handler_frame_def)

section \<open>Properties of the task\<close>

lemma MuxInner_new_inv: "mux_inv (MuxInner_new w a dg exts bs h en)"
  by (simp add: MuxInner_new_def mux_inv_def table_inv_def)



text \<open>An executable instance: a server with two streams over list channels.\<close>

definition demo_heap :: "list_chan heap" where
  "demo_heap = \<lparr>cells = (\<lambda>_. \<lparr>c_info = StreamInfo_new 0 Disabled 0, c_chan = fl_unbounded list_flume\<rparr>),
     next_ref = 0, woken = []\<rparr>"

definition demo_env :: ext_env where
  "demo_env = \<lparr>twisp_map = Map.empty, wispnet_servers = [], ioctls = []\<rparr>"

definition demo_ws :: ws_write where
  "demo_ws = \<lparr>ws_sent = [], ws_accepts = (\<lambda>_ _. None)\<rparr>"

definition demo_server :: ServerState where
  "demo_server = \<lparr>stream_tx_sent = [], stream_tx_accepts = (\<lambda>_. True)\<rparr>"

definition demo_connect :: "u32 \<Rightarrow> Packet" where
  "demo_connect i = \<lparr>stream_id = i, packet_type = Connect \<lparr>stream_type = Tcp, host = [], port = 80\<rparr>\<rparr>"

definition demo_mux :: "(list_chan, ServerState) MuxInner" where
  "demo_mux = fst (handle_packet list_flume (ServerActor list_flume) (demo_connect 2)
     (fst (handle_packet list_flume (ServerActor list_flume) (demo_connect 1)
        (MuxInner_new demo_ws demo_server None [] 4 demo_heap demo_env))))"

lemma demo_mux_inv: "mux_inv demo_mux"
  unfolding demo_mux_def
  by (metis MuxInner_new_inv server_actor.handle_packet_inv prod.collapse)

lemmas demo_eval = demo_mux_def demo_connect_def MuxInner_new_def handle_packet_def add_stream_def
  ServerActor_def server_handle_connect_packet_def demo_server_def demo_heap_def alloc_def
  server_get_flow_control_def StreamType_into_def MuxStream_new_def Let_def

lemma demo_mux_streams: "streams demo_mux = [(1, 0), (2, 1)]"
  by (simp add: demo_eval)


subsection \<open>Delivery\<close>

text \<open>The payloads queued for the reader of a stream, and its credit.\<close>

definition stream_queue :: "'c flume \<Rightarrow> ('c, 'm) MuxInner \<Rightarrow> u32 \<Rightarrow> bytes list option" where
  "stream_queue fl m i = map_option (\<lambda>r. fl_queue fl (c_chan (cells (hp m) r))) (map_of (streams m) i)"

definition deliverable :: "'c flume \<Rightarrow> ('c, 'm) MuxInner \<Rightarrow> u32 \<Rightarrow> bool" where
  "deliverable fl m i = (case map_of (streams m) i of
      None \<Rightarrow> False
    | Some r \<Rightarrow> fl_rx_alive fl (c_chan (cells (hp m) r)) \<and> \<not> fl_full fl (c_chan (cells (hp m) r)))"

definition stream_flow :: "('c, 'm) MuxInner \<Rightarrow> u32 \<Rightarrow> u32 option" where
  "stream_flow m i = map_option (\<lambda>r. flow_control (c_info (cells (hp m) r))) (map_of (streams m) i)"

definition no_rendezvous :: "'c flume \<Rightarrow> ('c, 'm) MuxInner \<Rightarrow> bool" where
  "no_rendezvous fl m = (\<forall>r. fl_capacity fl (c_chan (cells (hp m) r)) \<noteq> Some 0)"

text \<open>
  What the server does with a DATA packet: the payload is appended to the queue of its
  stream, in order, and costs one unit of credit, exactly when the stream exists, its reader
  is alive and there is room; in every other case the packet is dropped silently and nothing
  changes. The task always continues.
\<close>

theorem server_data_delivery:
  assumes "flume_laws fl" "no_rendezvous fl m"
  shows "\<exists>m'. handle_packet fl (ServerActor fl) (new_data i d) m = (m', Ok False)
    \<and> streams m' = streams m
    \<and> stream_queue fl m' i = (if deliverable fl m i
        then map_option (\<lambda>q. q @ [PayloadRef_deref d]) (stream_queue fl m i) else stream_queue fl m i)
    \<and> stream_flow m' i = (if deliverable fl m i
        then map_option (\<lambda>f. u32_saturating_sub f 1) (stream_flow m i) else stream_flow m i)
    \<and> (\<not> deliverable fl m i \<longrightarrow> m' = m)"
proof (cases "map_of (streams m) i")
  case None
  then show ?thesis
    by (simp add: handle_packet_def new_data_def ServerActor_def server_handle_data_packet_def
        deliverable_def)
next
  case (Some r)
  let ?c = "c_chan (cells (hp m) r)"
  have cap: "fl_capacity fl ?c \<noteq> Some 0" using assms(2) by (simp add: no_rendezvous_def)
  show ?thesis
  proof (cases "fl_try_send fl (PayloadRef_deref d) ?c")
    case None
    with flume_try_send_None [OF assms(1) cap] Some show ?thesis
      by (auto simp: handle_packet_def new_data_def ServerActor_def server_handle_data_packet_def
          deliverable_def)
  next
    case (Some c')
    with flume_try_send_None [OF assms(1) cap, of "PayloadRef_deref d"] flume_try_send_Some(1) [OF assms(1) cap Some]
      \<open>map_of (streams m) i = Some r\<close>
    show ?thesis
      by (auto simp: handle_packet_def new_data_def ServerActor_def server_handle_data_packet_def
          deliverable_def stream_queue_def stream_flow_def flow_dec_def flow_sub_def Let_def)
  qed
qed

lemma demo_mux_cells:
  "c_chan (cells (hp demo_mux) 0) = fl_bounded list_flume 4"
  "flow_control (c_info (cells (hp demo_mux) 0)) = 4"
  by (simp_all add: demo_eval StreamInfo_new_def)

lemma demo_no_rendezvous: "no_rendezvous list_flume demo_mux"
  by (simp add: no_rendezvous_def demo_eval list_flume_def)

theorem server_data_delivery_witness:
  "\<exists>m'. handle_packet list_flume (ServerActor list_flume) (new_data 1 (Owned [7])) demo_mux = (m', Ok False)
    \<and> stream_queue list_flume m' 1 = Some [[7]] \<and> stream_flow m' 1 = Some 3"
proof -
  have "stream_queue list_flume demo_mux 1 = Some []" "stream_flow demo_mux 1 = Some 4"
    "deliverable list_flume demo_mux 1"
    by (simp_all add: stream_queue_def stream_flow_def deliverable_def demo_mux_streams
        demo_mux_cells list_flume_def fl_full_def)
  then show ?thesis
    using server_data_delivery [OF list_flume_laws demo_no_rendezvous, of 1 "Owned [7]"]
    by (auto simp: u32_saturating_sub_def)
qed

subsection \<open>Closing\<close>

text \<open>
  A CLOSE packet of the peer ends its stream and only that: the entry is removed, the
  sending end of the payload queue is dropped, and the reader learns the peer's reason. Id 0
  closes the whole connection: the task ends. Both roles behave alike.
\<close>

theorem peer_close:
  assumes "flume_laws fl" "CloseReason_ok why"
  shows "(i \<noteq> 0 \<and> map_of (streams m) i = Some r \<longrightarrow>
      (\<exists>m'. handle_packet fl ops (new_close i why) m = (m', Ok False)
        \<and> map_of (streams m') = (map_of (streams m))(i := None)
        \<and> read_get_close_reason fl (c_chan (cells (hp m') r)) (c_info (cells (hp m') r)) = Some why
        \<and> fl_queue fl (c_chan (cells (hp m') r)) = fl_queue fl (c_chan (cells (hp m) r))))
    \<and> (i \<noteq> 0 \<and> map_of (streams m) i = None \<longrightarrow>
        handle_packet fl ops (new_close i why) m = (m, Ok False))
    \<and> handle_packet fl ops (new_close 0 why) m = (m, Ok True)"
  using assms(2) flume_drop_tx [OF assms(1)]
  by (simp add: handle_packet_def new_close_def handle_close_packet_def delete_conv'
      read_get_close_reason_def get_reason_def CloseReason_ok_def)

theorem peer_close_witness:
  "\<exists>m'. handle_packet list_flume (ServerActor list_flume) (new_close 2 Voluntary) demo_mux = (m', Ok False)
    \<and> map_of (streams m') 2 = None
    \<and> read_get_close_reason list_flume (c_chan (cells (hp m') 1)) (c_info (cells (hp m') 1)) = Some Voluntary"
proof -
  have "CloseReason_ok Voluntary" by (simp add: CloseReason_ok_def CloseReason_from_def CloseReason_into_def)
  from peer_close [OF list_flume_laws this, of 2 demo_mux 1 "ServerActor list_flume"]
  show ?thesis by (auto simp: demo_mux_streams)
qed

lemma close_all_frame:
  "r \<notin> snd ` set ss \<Longrightarrow> cells (close_all fl ss h) r = cells h r"
  by (induction ss arbitrary: h) auto

lemma drop_tx_disc: "flume_laws fl \<Longrightarrow> fl_is_disconnected fl (fl_drop_tx fl c)"
  by (rule flume_drop_tx)

lemma close_all_closes:
  assumes "flume_laws fl" "r \<in> snd ` set ss"
  shows "fl_is_disconnected fl (c_chan (cells (close_all fl ss h) r))
    \<and> close_reason (c_info (cells (close_all fl ss h) r)) = CloseReason_into Unknown"
  using assms(2)
proof (induction ss arbitrary: h)
  case (Cons s ss)
  obtain i x where s: "s = (i, x)" by (cases s)
  show ?case
  proof (cases "r \<in> snd ` set ss")
    case True
    with Cons.IH show ?thesis by (simp add: s)
  next
    case False
    with Cons.prems have "r = x" by (auto simp: s)
    with False drop_tx_disc [OF assms(1)] show ?thesis by (simp add: s close_all_frame)
  qed
qed simp

text \<open>
  C36. However the task ends, no stream outlives it: the table is empty, the transport is closed
  and not left locked, and every stream that was open when the loop ended sees its payload
  channel disconnected and the reason \<open>Unknown\<close>. The result of the loop is passed on.
\<close>

theorem task_end_closes_streams:
  assumes "flume_laws fl" "entry fl ops inps m = (m1, Some ret)" "ret \<noteq> Panic"
  shows "\<exists>m'. into_future fl ops inps m = (m', Some ret)
    \<and> streams m' = [] \<and> tx_closed m' \<and> \<not> tx_held m'
    \<and> (\<forall>i r. map_of (streams m1) i = Some r \<longrightarrow>
        read_get_close_reason fl (c_chan (cells (hp m') r)) (c_info (cells (hp m') r)) = Some Unknown)"
proof -
  have closed: "read_get_close_reason fl (c_chan (cells (close_all fl (streams m1) (hp m1)) r))
      (c_info (cells (close_all fl (streams m1) (hp m1)) r)) = Some Unknown"
    if "map_of (streams m1) i = Some r" for i r
  proof -
    have "r \<in> snd ` set (streams m1)" using map_of_SomeD [OF that] by force
    from close_all_closes [OF assms(1) this, of "hp m1"] show ?thesis
      by (simp add: read_get_close_reason_def get_reason_def CloseReason_into_def CloseReason_from_def)
  qed
  show ?thesis
    using assms(2,3) closed by (cases ret) (simp_all add: into_future_def)
qed

theorem task_end_closes_streams_witness:
  "\<exists>m'. into_future list_flume (ServerActor list_flume)
      [FromActor (EvWispMessage (demo_connect 1)), FromTransport None]
      (MuxInner_new demo_ws demo_server None [] 4 demo_heap demo_env) = (m', Some (Ok ()))
    \<and> streams m' = []
    \<and> read_get_close_reason list_flume (c_chan (cells (hp m') 0)) (c_info (cells (hp m') 0)) = Some Unknown"
proof -
  let ?m0 = "MuxInner_new demo_ws demo_server None [] 4 demo_heap demo_env"
  let ?inps = "[FromActor (EvWispMessage (demo_connect 1)), FromTransport None]"
  obtain m1 where e: "entry list_flume (ServerActor list_flume) ?inps ?m0 = (m1, Some (Ok ()))"
    and s: "streams m1 = [(1, 0)]"
    by (simp add: entry_def demo_eval next_event_def handle_event_def read_stream_item_def)
  show ?thesis
    using task_end_closes_streams [OF list_flume_laws e] s by (auto simp: Let_def)
qed

subsection \<open>Stream ids of the client\<close>

text \<open>Ids in the table of a client were handed out by its own counter.\<close>

definition ids_inv :: "('c, 'm) MuxInner \<Rightarrow> bool" where
  "ids_inv m = (\<forall>i. map_of (streams m) i \<noteq> None \<longrightarrow> 0 < unat i \<and> unat i \<le> unat (current_id m))"

definition id_of_reply :: "('c, 'm) MuxInner \<Rightarrow> nat \<times> reply \<Rightarrow> u32 list" where
  "id_of_reply m x = (case snd x of
      ReplyStream (Ok s) \<Rightarrow> [info_id (c_info (cells (hp m) (ms_ref s)))] | _ \<Rightarrow> [])"

lemma create_stream_Ok:
  assumes "create_stream fl ops ty m = (m', Ok (s, i))"
  shows "unat i = unat (current_id m) + 1" "current_id m' = i" "ms_ref s = next_ref (hp m)"
    "map_of (streams m') = (map_of (streams m))(i \<mapsto> ms_ref s)"
    "info_id (c_info (cells (hp m') (ms_ref s))) = i"
proof -
  obtain j where j: "u32_checked_add (current_id m) 1 = Some j"
    using assms by (cases "u32_checked_add (current_id m) 1") (simp_all add: create_stream_def)
  with assms have i: "j = i"
    by (simp add: create_stream_def split: prod.splits)
  show "unat i = unat (current_id m) + 1" using checked_add_unat [OF j] by (simp add: i)
  show "current_id m' = i" "ms_ref s = next_ref (hp m)"
    "map_of (streams m') = (map_of (streams m))(i \<mapsto> ms_ref s)"
    "info_id (c_info (cells (hp m') (ms_ref s))) = i"
    using assms j i
    by (auto simp: create_stream_def add_stream_def Let_def MuxStream_new_def update_conv')
qed

lemma create_stream_Err:
  "create_stream fl ops ty m = (m', Err e) \<Longrightarrow>
     m' = m \<and> e = MaxStreamCountReached \<and> current_id m = 0xFFFFFFFF"
proof -
  assume a: "create_stream fl ops ty m = (m', Err e)"
  then have n: "u32_checked_add (current_id m) 1 = None"
    by (auto simp: create_stream_def split: option.splits prod.splits)
  then have "2 ^ 32 \<le> unat (current_id m) + 1"
    by (simp add: u32_checked_add_def split: if_splits)
  then have "unat (current_id m) = unat (0xFFFFFFFF :: u32)"
    using u32_bound [of "current_id m"] by simp
  then have "current_id m = 0xFFFFFFFF" by (simp add: word_unat_eq_iff)
  with a n show ?thesis by (simp add: create_stream_def)
qed

lemma create_stream_no_panic: "create_stream fl ops ty m \<noteq> (m', Panic)"
  by (simp add: create_stream_def split: option.splits prod.splits)

lemma mux_send_ids [simp]:
  "streams (fst (mux_send msg m)) = streams m" "current_id (fst (mux_send msg m)) = current_id m"
  "hp (fst (mux_send msg m)) = hp m"
  by (simp_all add: mux_send_def split: prod.splits)

lemma mux_send_eq:
  "mux_send msg m = (m', r) \<Longrightarrow> streams m' = streams m \<and> current_id m' = current_id m \<and> hp m' = hp m"
  using mux_send_ids [of msg m] by simp

lemma create_stream_ids:
  "create_stream fl ops ty m = (m', r) \<Longrightarrow> ids_inv m \<Longrightarrow> ids_inv m'"
  using create_stream_Ok [of fl ops ty m m'] create_stream_Err [of fl ops ty m m']
    create_stream_no_panic [of fl ops ty m m']
  by (cases r) (auto simp: ids_inv_def le_SucI split: if_splits)

lemma ids_inv_delete:
  "ids_inv m \<Longrightarrow> ids_inv (m\<lparr>streams := AList.delete i (streams m), hp := h\<rparr>)"
  by (auto simp: ids_inv_def delete_conv')

lemma client_packet_ids:
  assumes "ids_inv m" "handle_packet fl (ClientActor fl) p m = (m', Ok b)"
  shows "ids_inv m'"
proof (cases "packet_type p")
  case (Connect c)
  with assms(2) show ?thesis
    by (simp add: handle_packet_def ClientActor_def client_handle_connect_packet_def split: prod.splits)
next
  case (Close c)
  with assms show ?thesis
    by (auto simp: handle_packet_def handle_close_packet_def ids_inv_delete split: if_splits option.splits)
qed (use assms in \<open>auto simp: handle_packet_def ids_inv_def split: prod.splits\<close>)

lemma client_event_ids:
  assumes "ids_inv m" "handle_event fl (ClientActor fl) ev m = (m', Ok b)"
  shows "ids_inv m'"
proof (cases ev)
  case (EvCreateStream c ch)
  obtain m1 r1 where cs: "create_stream fl (ClientActor fl) (stream_type c) m = (m1, r1)" by fastforce
  then have m1: "ids_inv m1" by (rule create_stream_ids [OF _ assms(1)])
  show ?thesis
  proof (cases r1)
    case (Ok si)
    obtain s i where si: "si = (s, i)" by (cases si)
    obtain m2 r2 where ms: "mux_send (Packet_encode \<lparr>stream_id = i, packet_type = Connect c\<rparr>) m1 = (m2, r2)"
      by fastforce
    with assms(2) m1 mux_send_eq [OF ms] show ?thesis
      by (cases r2) (auto simp: handle_event_def EvCreateStream cs Ok si ids_inv_def add_reply_def)
  qed (use assms(2) m1 in \<open>auto simp: handle_event_def EvCreateStream cs ids_inv_def add_reply_def\<close>)
next
  case (EvClose i c ch)
  with assms show ?thesis
    by (auto simp: handle_event_def ids_inv_def add_reply_def delete_conv'
        split: option.splits prod.splits if_splits dest!: mux_send_eq)
next
  case (EvEndFut x)
  with assms show ?thesis by (auto simp: handle_event_def ids_inv_def split: option.splits)
next
  case (EvWispMessage p)
  with assms client_packet_ids show ?thesis by (simp add: handle_event_def)
qed

lemma client_loop_ids:
  assumes "ids_inv m" "entry_loop fl (ClientActor fl) exts inps m = (m', None)"
  shows "ids_inv m'"
  using assms
proof (induction inps arbitrary: m)
  case (Cons inp inps)
  obtain m1 r1 where n: "next_event exts inp m = (m1, r1)" by fastforce
  then have m1: "ids_inv m1"
    using Cons.prems(1) by (auto simp: next_event_def ids_inv_def split: input.splits prod.splits)
  obtain ev where ev: "r1 = Some (Ok ev)"
    using Cons.prems(2) by (auto simp: n split: option.splits res.splits)
  obtain m2 r2 where h: "handle_event fl (ClientActor fl) ev m1 = (m2, r2)" by fastforce
  with Cons.prems(2) have r2: "r2 = Ok False"
    by (auto simp: n ev split: res.splits bool.splits)
  have "ids_inv m2" using client_event_ids [OF m1] h r2 by blast
  with Cons.prems(2) show ?case by (intro Cons.IH [of m2]) (simp_all add: n ev h r2)
qed simp

lemma client_entry_ids:
  assumes "entry fl (ClientActor fl) inps (MuxInner_new w () dg exts bs h en) = (m, None)"
  shows "ids_inv m"
proof -
  let ?m = "(MuxInner_new w () dg exts bs h en)\<lparr>start := None\<rparr>"
  have m0: "ids_inv ?m" by (simp add: ids_inv_def MuxInner_new_def)
  show ?thesis
  proof (cases dg)
    case None
    with assms client_loop_ids [OF m0, of fl exts inps] show ?thesis
      by (simp add: entry_def MuxInner_new_def)
  next
    case (Some p)
    obtain m1 r1 where hp: "handle_packet fl (ClientActor fl) p ?m = (m1, r1)" by fastforce
    have s: "start (MuxInner_new w () dg exts bs h en) = Some \<lparr>downgrade = Some p, start_extensions = exts\<rparr>"
      using Some by (simp add: MuxInner_new_def)
    from assms have "r1 = Ok False" "entry_loop fl (ClientActor fl) exts inps m1 = (m, None)"
      by (auto simp: entry_def s hp split: res.splits bool.splits)
    with client_packet_ids [OF m0] hp client_loop_ids [of m1] show ?thesis by blast
  qed
qed



text \<open>
  A request to open a stream whose CONNECT packet cannot be sent is answered with the error
  of the transport, but it leaves two traces: the new stream stays in the table, and the
  sink stays locked by the task.
\<close>

theorem failed_connect_leaves_lock:
  assumes "current_id m \<noteq> 0xFFFFFFFF" "\<forall>msg. ws_accepts (tx m) (ws_sent (tx m)) msg = Some e"
  shows "\<exists>m'. handle_event fl ops (EvCreateStream connect ch) m = (m', Ok False)
    \<and> tx_held m' \<and> map_of (streams m') (current_id m') \<noteq> None
    \<and> replies m' = replies m @ [(ch, ReplyStream (Err e))]"
proof -
  obtain m1 r1 where c: "create_stream fl ops (stream_type connect) m = (m1, r1)" by fastforce
  then obtain s i where r1: "r1 = Ok (s, i)"
    using create_stream_Err [of fl ops "stream_type connect" m m1] assms(1)
      create_stream_no_panic [of fl ops "stream_type connect" m m1]
    by (cases r1) auto
  note ok = create_stream_Ok [OF c [unfolded r1]]
  have same: "tx m1 = tx m" "replies m1 = replies m"
    using c by (auto simp: create_stream_def add_stream_def Let_def split: option.splits)
  show ?thesis
    using ok assms(2)
    by (simp add: handle_event_def c r1 mux_send_def ws_send_def same add_reply_def)
qed

theorem failed_connect_leaves_lock_witness:
  "\<exists>m'. handle_event list_flume (ClientActor list_flume)
      (EvCreateStream \<lparr>stream_type = Tcp, host = [], port = 80\<rparr> 5)
      (MuxInner_new \<lparr>ws_sent = [], ws_accepts = (\<lambda>_ _. Some WsImplSocketClosed)\<rparr> () None [] 4
         demo_heap demo_env) = (m', Ok False) \<and> tx_held m'"
  using failed_connect_leaves_lock [of "MuxInner_new \<lparr>ws_sent = [], ws_accepts = (\<lambda>_ _. Some WsImplSocketClosed)\<rparr>
      () None [] 4 demo_heap demo_env" WsImplSocketClosed list_flume "ClientActor list_flume"
      "\<lparr>stream_type = Tcp, host = [], port = 80\<rparr>" 5]
  by (auto simp: MuxInner_new_def)

text \<open>
  The read side ends as soon as an extension has handled a packet, and the loop ends with it:
  a packet that an extension supports terminates the multiplexor, which then closes every
  stream, although the packet was handled without error.
\<close>

theorem extension_packet_ends_task:
  assumes "MaybeExtensionPacket_decode msg exts (env m) (tx m) = (en, w, Ok ExtensionHandled)"
  shows "entry_loop fl ops exts (FromTransport (Some (Ok msg)) # inps) m
    = (m\<lparr>env := en, tx := w\<rparr>, Some (Ok ()))"
proof -
  have "next_event exts (FromTransport (Some (Ok msg))) m = (m\<lparr>env := en, tx := w\<rparr>, None)"
    by (simp add: next_event_def read_stream_item_def assms)
  then show ?thesis by simp
qed

lemma demo_wispnet_list:
  "MaybeExtensionPacket_decode (0xF1 # put_u32_le 0 @ put_u32_le 0)
      [WispnetExtension (WispnetServerProtocolExtension 1 False)] demo_env demo_ws
    = (demo_env, demo_ws\<lparr>ws_sent := [0xF1 # put_u32_le 0]\<rparr>, Ok ExtensionHandled)"
  by (simp add: MaybeExtensionPacket_decode_cons get_supported_packets_def Wispnet_ID_def
      extension_handle_packet_def Wispnet_handle_packet_def demo_env_def demo_ws_def ws_send_def
      put_u8_def)

theorem extension_packet_ends_task_witness:
  "snd (entry_loop list_flume (ServerActor list_flume)
      [WispnetExtension (WispnetServerProtocolExtension 1 False)]
      [FromTransport (Some (Ok (0xF1 # put_u32_le 0 @ put_u32_le 0))),
       FromActor (EvWispMessage (demo_connect 1))]
      (MuxInner_new demo_ws demo_server None [] 4 demo_heap demo_env)) = Some (Ok ())"
proof -
  have "env (MuxInner_new demo_ws demo_server None [] 4 demo_heap demo_env) = demo_env"
    "tx (MuxInner_new demo_ws demo_server None [] 4 demo_heap demo_env) = demo_ws"
    by (simp_all add: MuxInner_new_def)
  with demo_wispnet_list show ?thesis
    by (subst extension_packet_ends_task) (simp_all only: snd_conv)
qed

end
