(* ===== verification/Flow_Control.thy ===== *)
theory Flow_Control
  imports Mux_Inner
begin

text \<open>
  Flow control across components: the server's handler of DATA packets and the stream reader,
  which share a \<open>StreamInfo\<close> and a bounded queue, and the client's handler of CONTINUE packets and
  the stream writer. A server stream is driven by a list of events, arrivals of payloads and
  polls of its reader, in any order.
\<close>

section \<open>A server stream\<close>

record 'c sstream =
  ss_cell :: "'c cell"
  ss_read :: MuxStreamRead
  ss_ws :: ws_write

datatype sevent = Arrive bytes | PollRead poll_env

definition sstream_new :: "'c flume \<Rightarrow> u32 \<Rightarrow> u32 \<Rightarrow> ws_write \<Rightarrow> 'c sstream" where
  "sstream_new fl i b w =
    \<lparr>ss_cell = \<lparr>c_info = StreamInfo_new i EnabledSendMessages b, c_chan = fl_bounded fl (unat b)\<rparr>,
     ss_read = MuxStreamRead_new, ss_ws = w\<rparr>"

text \<open>The server's handler, applied to a heap that holds just this cell at reference 0.\<close>

definition arrive :: "'c flume \<Rightarrow> bytes \<Rightarrow> 'c cell \<Rightarrow> 'c cell" where
  "arrive fl d c =
     cells (fst (server_handle_data_packet fl 0 d [(0, 0)] \<lparr>cells = (\<lambda>_. c), next_ref = 1, woken = []\<rparr>)) 0"

definition poll_read ::
    "'c flume \<Rightarrow> poll_env \<Rightarrow> 'c sstream \<Rightarrow> 'c sstream \<times> bytes wres option poll" where
  "poll_read fl e s =
    (case read_poll_next fl e (c_chan (ss_cell s)) (ss_read s) (c_info (ss_cell s)) (ss_ws s) of
       (c, r, i, w, out) \<Rightarrow> (\<lparr>ss_cell = \<lparr>c_info = i, c_chan = c\<rparr>, ss_read = r, ss_ws = w\<rparr>, out))"

definition sstep :: "'c flume \<Rightarrow> sevent \<Rightarrow> 'c sstream \<Rightarrow> 'c sstream" where
  "sstep fl ev s = (case ev of
      Arrive d \<Rightarrow> s\<lparr>ss_cell := arrive fl d (ss_cell s)\<rparr>
    | PollRead e \<Rightarrow> fst (poll_read fl e s))"

text \<open>
  A peer that respects the credit, and a transport that does not fail: a payload arrives
  only while the server grants credit, and no poll ends in an error.
\<close>

definition credit_ok :: "'c flume \<Rightarrow> sevent \<Rightarrow> 'c sstream \<Rightarrow> bool" where
  "credit_ok fl ev s = (case ev of
      Arrive d \<Rightarrow> flow_control (c_info (ss_cell s)) \<noteq> 0
    | PollRead e \<Rightarrow> (case snd (poll_read fl e s) of Ready (Some (Err x)) \<Rightarrow> False
                                              | Ready (Some Panic) \<Rightarrow> False | _ \<Rightarrow> True))"

inductive sreach :: "'c flume \<Rightarrow> u32 \<Rightarrow> u32 \<Rightarrow> ws_write \<Rightarrow> 'c sstream \<Rightarrow> bool" for fl i b w where
  start: "sreach fl i b w (sstream_new fl i b w)"
| step: "sreach fl i b w s \<Longrightarrow> credit_ok fl ev s \<Longrightarrow> sreach fl i b w (sstep fl ev s)"

section \<open>The ledger\<close>

text \<open>
  Every slot of the buffer is accounted for once: granted to the peer, queued, or read but not
  yet granted again.
\<close>

definition ledger :: "'c flume \<Rightarrow> u32 \<Rightarrow> 'c sstream \<Rightarrow> bool" where
  "ledger fl b s \<longleftrightarrow>
     flow_status (c_info (ss_cell s)) = EnabledSendMessages
   \<and> unat (target_flow_control (c_info (ss_cell s))) = unat b * 90 div 100
   \<and> fl_capacity fl (c_chan (ss_cell s)) = Some (unat b)
   \<and> fl_rx_alive fl (c_chan (ss_cell s))
   \<and> unat (flow_control (c_info (ss_cell s))) + unat (read_cnt (ss_read s))
       + length (fl_queue fl (c_chan (ss_cell s))) = unat b"

lemma arrive_eq:
  "arrive fl d c = (case fl_try_send fl d (c_chan c) of
      Some ch \<Rightarrow> \<lparr>c_info = flow_dec (c_info c), c_chan = ch\<rparr> | None \<Rightarrow> c)"
  by (cases c) (simp add: arrive_def server_handle_data_packet_def split: option.splits)

text \<open>The handler does the same to the cell of any stream in any table.\<close>

lemma server_data_arrive:
  "map_of ss i = Some r \<Longrightarrow>
     cells (fst (server_handle_data_packet fl i d ss h)) r = arrive fl d (cells h r)"
  by (cases "cells h r") (simp add: arrive_eq server_handle_data_packet_def split: option.splits)

lemma ledger_new:
  assumes "flume_laws fl"
  shows "ledger fl b (sstream_new fl i b w)"
  using flume_new(1) [OF assms, of "unat b"]
  by (simp add: ledger_def sstream_new_def target_exact MuxStreamRead_new_def)
    (simp add: StreamInfo_new_def)

lemma ledger_room:
  assumes "ledger fl b s" "flow_control (c_info (ss_cell s)) \<noteq> 0"
  shows "length (fl_queue fl (c_chan (ss_cell s))) < unat b" "\<not> fl_full fl (c_chan (ss_cell s))"
proof -
  have "unat (flow_control (c_info (ss_cell s))) \<noteq> 0" using assms(2) by (simp add: unat_eq_zero)
  with assms(1) show "length (fl_queue fl (c_chan (ss_cell s))) < unat b"
    "\<not> fl_full fl (c_chan (ss_cell s))"
    by (auto simp: ledger_def fl_full_def)
qed

lemma arrive_accepted:
  assumes "flume_laws fl" "ledger fl b s" "flow_control (c_info (ss_cell s)) \<noteq> 0"
  obtains ch where "fl_try_send fl d (c_chan (ss_cell s)) = Some ch"
    "fl_queue fl ch = fl_queue fl (c_chan (ss_cell s)) @ [d]"
    "fl_capacity fl ch = Some (unat b)" "fl_rx_alive fl ch"
proof -
  note room = ledger_room [OF assms(2,3)]
  have cap: "fl_capacity fl (c_chan (ss_cell s)) \<noteq> Some 0"
    using assms(2) room(1) by (auto simp: ledger_def)
  obtain ch where ch: "fl_try_send fl d (c_chan (ss_cell s)) = Some ch"
    using flume_try_send_None [OF assms(1) cap, of d] room(2) assms(2)
    by (cases "fl_try_send fl d (c_chan (ss_cell s))") (auto simp: ledger_def)
  then show thesis
    using that flume_try_send_Some [OF assms(1) cap ch] assms(2) by (simp add: ledger_def)
qed

lemma ledger_arrive:
  assumes "flume_laws fl" "ledger fl b s" "flow_control (c_info (ss_cell s)) \<noteq> 0"
  shows "ledger fl b (s\<lparr>ss_cell := arrive fl d (ss_cell s)\<rparr>)"
proof -
  obtain ch where "fl_try_send fl d (c_chan (ss_cell s)) = Some ch"
    "fl_queue fl ch = fl_queue fl (c_chan (ss_cell s)) @ [d]"
    "fl_capacity fl ch = Some (unat b)" "fl_rx_alive fl ch"
    by (rule arrive_accepted [OF assms])
  moreover have "unat (flow_control (c_info (ss_cell s))) \<noteq> 0"
    using assms(3) by (simp add: unat_eq_zero)
  ultimately show ?thesis
    using assms(2) by (simp add: ledger_def arrive_eq)
qed

lemma unat_plus_one: "unat (x :: u32) + 1 < 2 ^ 32 \<Longrightarrow> unat (x + 1) = unat x + 1"
  by (simp add: unat_word_ariths)

definition poll_failed :: "bytes wres option poll \<Rightarrow> bool" where
  "poll_failed out = (case out of Ready (Some (Err x)) \<Rightarrow> True | Ready (Some Panic) \<Rightarrow> True | _ \<Rightarrow> False)"

lemma read_grant_cases:
  assumes "read_grant e r i w chunk = (r', i', w', out)" "\<not> poll_failed out"
  obtains "i' = i" "w' = w" "read_cnt r' = read_cnt r"
  | n where "flow_add (read_cnt r) i = (i', n)" "read_cnt r' = 0"
      "w' = w\<lparr>ws_sent := ws_sent w @ [Packet_encode (new_continue (info_id i') n)]\<rparr>"
proof -
  obtain i2 n where f: "flow_add (read_cnt r) i = (i2, n)" by fastforce
  let ?msg = "Packet_encode (new_continue (info_id i2) n)"
  show thesis
  proof (cases "ws_accepts w (ws_sent w) ?msg")
    case None
    then have s: "ws_send ?msg w = (w\<lparr>ws_sent := ws_sent w @ [?msg]\<rparr>, Ok ())" by (simp add: ws_send_def)
    show thesis using assms that f
      by (auto simp: read_grant_def Let_def s poll_failed_def split: if_splits poll.splits res.splits)
  next
    case (Some x)
    then have s: "ws_send ?msg w = (w, Err x)" by (simp add: ws_send_def)
    show thesis using assms that(1) f
      by (auto simp: read_grant_def Let_def s poll_failed_def split: if_splits poll.splits res.splits)
  qed
qed

text \<open>
  What delivering a chunk does to the ledger: \<open>q\<close> payloads remain queued. Either nothing is
  sent, or one CONTINUE that grants exactly the free slots.
\<close>

lemma read_deliver_ledger:
  assumes "read_deliver e r i w chunk wr = (r', i', w', out)" "\<not> poll_failed out"
    and "flow_status i = EnabledSendMessages"
    and "unat (flow_control i) + (unat (read_cnt r) + (if wr then 0 else 1)) + q = unat (b :: u32)"
  shows "flow_status i' = flow_status i \<and> target_flow_control i' = target_flow_control i
    \<and> info_id i' = info_id i
    \<and> unat (flow_control i') + unat (read_cnt r') + q = unat b
    \<and> (w' = w \<or> (\<exists>n. unat n + q = unat b \<and> flow_control i' = n \<and> read_cnt r' = 0 \<and>
         w' = w\<lparr>ws_sent := ws_sent w @ [Packet_encode (new_continue (info_id i) n)]\<rparr>))"
proof -
  define r1 where "r1 = (if wr then r else r\<lparr>read_cnt := read_cnt r + 1\<rparr>)"
  have b: "unat b < 2 ^ 32" by (rule u32_bound)
  have r1: "unat (read_cnt r1) = unat (read_cnt r) + (if wr then 0 else 1)"
    using assms(4) b unat_plus_one [of "read_cnt r"] by (cases wr) (simp_all add: r1_def)
  have sum: "unat (flow_control i) + unat (read_cnt r1) + q = unat b" using assms(4) r1 by simp
  have add: "unat n + q = unat b" "flow_control i2 = n" "info_id i2 = info_id i"
    "flow_status i2 = flow_status i" "target_flow_control i2 = target_flow_control i"
    if "flow_add (read_cnt r1) i = (i2, n)" for i2 n
    using flow_add_sel [OF that] sum b by auto
  show ?thesis
  proof (cases "read_cnt r1 > target_flow_control i")
    case True
    then have "read_grant e r1 i w chunk = (r', i', w', out)"
      using assms(1,3) by (simp add: read_deliver_def r1_def Let_def)
    then show ?thesis using assms(2)
    proof (cases rule: read_grant_cases)
      case 1
      with sum show ?thesis by simp
    next
      case (2 n)
      with add [OF 2(1)] show ?thesis by auto
    qed
  next
    case False
    then have "r' = r1" "i' = i" "w' = w"
      using assms(1,3) by (auto simp: read_deliver_def r1_def Let_def)
    with sum show ?thesis by simp
  qed
qed

lemma read_poll_next_cases:
  assumes "flume_laws fl" "read_poll_next fl e c r i w = (c1, r1, i1, w1, out)"
  obtains (same) "fl_queue fl c1 = fl_queue fl c" "r1 = r" "i1 = i" "w1 = w"
      "fl_capacity fl c1 = fl_capacity fl c" "fl_rx_alive fl c1 = fl_rx_alive fl c"
      "out = Pending \<or> out = Ready None"
  | (retry) chunk where "c1 = c" "read_deliver e (r\<lparr>r_chunk := None\<rparr>) i w chunk True = (r1, i1, w1, out)"
  | (fresh) chunk where "fl_queue fl c = chunk # fl_queue fl c1" "fl_capacity fl c1 = fl_capacity fl c"
      "fl_rx_alive fl c1 = fl_rx_alive fl c" "read_deliver e r i w chunk False = (r1, i1, w1, out)"
proof (cases "fl_is_disconnected fl c")
  case True
  with assms(2) show thesis by (intro same) (auto simp: read_poll_next_def)
next
  case disc: False
  show thesis
  proof (cases "r_chunk r")
    case (Some chunk)
    with assms(2) disc show thesis by (intro retry [of chunk]) (auto simp: read_poll_next_def)
  next
    case None
    obtain c2 x where n: "fl_poll_next fl c = (c2, x)" by fastforce
    note poll = flume_poll_next [OF assms(1) n]
    show thesis
    proof (cases "fl_queue fl c")
      case Nil
      with assms(2) disc None n poll show thesis by (intro same) (auto simp: read_poll_next_def)
    next
      case (Cons chunk q)
      with assms(2) disc None n poll show thesis by (intro fresh [of chunk]) (auto simp: read_poll_next_def)
    qed
  qed
qed

lemma poll_read_ledger:
  assumes "flume_laws fl" "ledger fl b s" "poll_read fl e s = (s', out)" "\<not> poll_failed out"
  shows "ledger fl b s'
    \<and> info_id (c_info (ss_cell s')) = info_id (c_info (ss_cell s))
    \<and> (ss_ws s' = ss_ws s \<or>
        (\<exists>n. unat n + length (fl_queue fl (c_chan (ss_cell s'))) = unat b
          \<and> flow_control (c_info (ss_cell s')) = n \<and> read_cnt (ss_read s') = 0
          \<and> ss_ws s' = (ss_ws s)\<lparr>ws_sent := ws_sent (ss_ws s) @
                [Packet_encode (new_continue (info_id (c_info (ss_cell s))) n)]\<rparr>))"
proof -
  obtain c r i w where s: "c = c_chan (ss_cell s)" "r = ss_read s" "i = c_info (ss_cell s)" "w = ss_ws s"
    by blast
  have l: "flow_status i = EnabledSendMessages" "unat (target_flow_control i) = unat b * 90 div 100"
    "fl_capacity fl c = Some (unat b)" "fl_rx_alive fl c"
    "unat (flow_control i) + unat (read_cnt r) + length (fl_queue fl c) = unat b"
    using assms(2) by (simp_all add: ledger_def s)
  obtain c1 r1 i1 w1 where p: "read_poll_next fl e c r i w = (c1, r1, i1, w1, out)"
    and s': "s' = \<lparr>ss_cell = \<lparr>c_info = i1, c_chan = c1\<rparr>, ss_read = r1, ss_ws = w1\<rparr>"
    using assms(3) by (auto simp: poll_read_def s split: prod.splits)
  from assms(1) p show ?thesis
  proof (cases rule: read_poll_next_cases)
    case same
    with l show ?thesis by (simp add: s' ledger_def) (simp add: s)
  next
    case (retry chunk)
    with read_deliver_ledger [OF retry(2) assms(4), of "length (fl_queue fl c)" b] l show ?thesis
      by (auto simp: s' ledger_def s [symmetric])
  next
    case (fresh chunk)
    with read_deliver_ledger [OF fresh(4) assms(4), of "length (fl_queue fl c1)" b] l show ?thesis
      by (auto simp: s' ledger_def s [symmetric])
  qed
qed

lemma sreach_ledger:
  assumes "flume_laws fl" "sreach fl i b w s"
  shows "ledger fl b s \<and> info_id (c_info (ss_cell s)) = i"
  using assms(2)
proof (induction rule: sreach.induct)
  case start
  with ledger_new [OF assms(1)] show ?case by (simp add: sstream_new_def)
next
  case (step s ev)
  show ?case
  proof (cases ev)
    case (Arrive d)
    with step ledger_arrive [OF assms(1), of b s d] show ?thesis
      by (simp add: sstep_def credit_ok_def arrive_eq split: option.splits)
  next
    case (PollRead e)
    obtain s' out where p: "poll_read fl e s = (s', out)" by fastforce
    with step PollRead have ok: "\<not> poll_failed out"
      by (auto simp: credit_ok_def poll_failed_def split: poll.splits option.splits res.splits)
    have "ledger fl b s" using step by simp
    from poll_read_ledger [OF assms(1) this p ok] step PollRead p show ?thesis by (simp add: sstep_def)
  qed
qed

section \<open>Properties of the server side\<close>



text \<open>A poll during which everything is ready.\<close>

definition ready_env :: poll_env where
  "ready_env = \<lparr>e_cx = 0, e_poll_lock = Ready (), e_poll_ready = Ready (Ok ()),
     e_poll_flush = Ready (Ok ()), e_mux_gone = False, e_actor_ready = Ready True,
     e_actor_send = True, e_oneshot = Pending\<rparr>"



section \<open>Properties of the client side\<close>

text \<open>
  Sending one payload the way \<open>SinkExt::send\<close> does, wait until ready, store, flush, and a list of
  payloads until the writer is not ready. \<open>accepting w\<close>: the transport takes every message.
\<close>

definition send_one ::
    "poll_env \<Rightarrow> bytes \<Rightarrow> MuxStreamWrite \<Rightarrow> StreamInfo \<Rightarrow> ws_write
      \<Rightarrow> MuxStreamWrite \<times> StreamInfo \<times> ws_write \<times> bool" where
  "send_one e d s i w = (case write_poll_ready e s i w of
      (s, i, w, Ready (Ok _)) \<Rightarrow>
        (case write_poll_flush e (fst (write_start_send d s)) i w of
           (s, i, w, r) \<Rightarrow> (s, i, w, r = Ready (Ok ())))
    | (s, i, w, _) \<Rightarrow> (s, i, w, False))"

fun send_all ::
    "poll_env \<Rightarrow> bytes list \<Rightarrow> MuxStreamWrite \<Rightarrow> StreamInfo \<Rightarrow> ws_write
      \<Rightarrow> MuxStreamWrite \<times> StreamInfo \<times> ws_write \<times> nat" where
  "send_all e [] s i w = (s, i, w, 0)"
| "send_all e (d # ds) s i w = (case send_one e d s i w of
      (s, i, w, True) \<Rightarrow> (case send_all e ds s i w of (s, i, w, n) \<Rightarrow> (s, i, w, n + 1))
    | (s, i, w, False) \<Rightarrow> (s, i, w, 0))"

definition accepting :: "ws_write \<Rightarrow> bool" where
  "accepting w = (\<forall>h m. ws_accepts w h m = None)"

definition data_packet :: "StreamInfo \<Rightarrow> bytes \<Rightarrow> bytes" where
  "data_packet i d = Packet_encode (new_data (info_id i) (Owned d))"

lemma accepting_send: "accepting w \<Longrightarrow> ws_send m w = (w\<lparr>ws_sent := ws_sent w @ [m]\<rparr>, Ok ())"
  by (simp add: accepting_def ws_send_def)

lemma accepting_update [simp]: "accepting (w\<lparr>ws_sent := l\<rparr>) = accepting w"
  by (simp add: accepting_def)

lemma send_one_no_credit:
  assumes "flow_status i = EnabledTrackAmount" "flow_control i = 0" "\<not> e_mux_gone e"
  shows "send_one e d s i w = (s, flow_register (e_cx e) i, w, False)"
  using assms by (simp add: send_one_def write_poll_ready_def flow_empty_def)

lemma send_one_credit:
  assumes "flow_status i = EnabledTrackAmount" "flow_control i \<noteq> 0" "accepting w" "w_chunk s = None"
  shows "send_one ready_env d s i w =
    (s\<lparr>w_locked := False\<rparr>, flow_dec i, w\<lparr>ws_sent := ws_sent w @ [data_packet i d]\<rparr>, True)"
  using assms
  by (simp add: send_one_def write_poll_ready_def flow_empty_def write_start_send_def
      write_poll_flush_def lock_and_write_def maybe_write_def ready_env_def accepting_send data_packet_def)


definition tracking_info :: "u32 \<Rightarrow> StreamInfo" where
  "tracking_info n = StreamInfo_new 3 EnabledTrackAmount n"


text \<open>
  A writer that waits for credit is woken when it comes: the CONTINUE packet for its stream
  sets the credit to the value granted and wakes exactly the task that registered; streams
  without credit tracking and unknown ids are left alone.
\<close>

theorem continue_wakes_writer:
  assumes "map_of (streams m) j = Some r" "flow_status (c_info (cells (hp m) r)) = EnabledTrackAmount"
    and "flow_waker (c_info (cells (hp m) r)) = Sleeping cx"
  shows "\<exists>m'. handle_packet fl (ClientActor fl) (new_continue j n) m = (m', Ok False)
    \<and> flow_control (c_info (cells (hp m') r)) = n
    \<and> woken (hp m') = woken (hp m) @ [cx]
    \<and> (n \<noteq> 0 \<longrightarrow> snd (snd (snd (send_one ready_env d MuxStreamWrite_new
          (c_info (cells (hp m') r)) demo_ws))))"
proof -
  have "accepting demo_ws" "w_chunk MuxStreamWrite_new = None"
    by (simp_all add: accepting_def demo_ws_def MuxStreamWrite_new_def)
  note send = send_one_credit [OF _ _ this]
  show ?thesis using assms send
    by (simp add: handle_packet_def new_continue_def ClientActor_def client_handle_continue_packet_def
        flow_wake_def flow_set_def Waiter_wake_def)
qed

definition demo_client :: "(list_chan, unit) MuxInner" where
  "demo_client = fst (create_stream list_flume (ClientActor list_flume) Tcp
     (MuxInner_new demo_ws () None [] 4 demo_heap demo_env))"

definition demo_blocked :: "(list_chan, unit) MuxInner" where
  "demo_blocked = demo_client\<lparr>hp := set_info 0 (flow_register 9 (flow_set 0 (c_info (cells (hp demo_client) 0))))
     (hp demo_client)\<rparr>"

lemma demo_client_eq:
  "streams demo_client = [(1, 0)]"
  "c_info (cells (hp demo_client) 0) = StreamInfo_new 1 EnabledTrackAmount 4"
  "woken (hp demo_client) = []"
  by (simp_all add: demo_client_def create_stream_def MuxInner_new_def u32_checked_add_def add_stream_def
      Let_def ClientActor_def client_get_flow_control_def StreamType_into_def demo_heap_def MuxStream_new_def)

theorem continue_wakes_writer_witness:
  "\<exists>m'. handle_packet list_flume (ClientActor list_flume) (new_continue 1 4) demo_blocked = (m', Ok False)
    \<and> woken (hp m') = [9] \<and> flow_control (c_info (cells (hp m') 0)) = 4"
proof -
  have s: "map_of (streams demo_blocked) 1 = Some 0" "woken (hp demo_blocked) = []"
    "flow_status (c_info (cells (hp demo_blocked) 0)) = EnabledTrackAmount"
    "flow_waker (c_info (cells (hp demo_blocked) 0)) = Sleeping 9"
    by (simp_all add: demo_blocked_def demo_client_eq flow_register_def flow_set_def StreamInfo_new_def)
  from continue_wakes_writer [OF s(1,3,4), of list_flume 4] s(2) show ?thesis by auto
qed

section \<open>Where the credit is exceeded\<close>

text \<open>
  A writer that stores a payload without flushing can exceed its credit by one: with one
  unit left, \<open>poll_ready\<close> writes the stored payload, which uses the unit, and still reports
  readiness; the next payload is then written by \<open>poll_flush\<close> with no credit left.
\<close>

theorem writer_exceeds_credit:
  assumes "flow_status i = EnabledTrackAmount" "flow_control i = 1" "accepting w" "w_chunk s = Some a"
  shows "\<exists>s1 i1 w1 s2 i2 w2.
      write_poll_ready ready_env s i w = (s1, i1, w1, Ready (Ok ())) \<and> flow_control i1 = 0
    \<and> write_poll_flush ready_env (fst (write_start_send b s1)) i1 w1 = (s2, i2, w2, Ready (Ok ()))
    \<and> ws_sent w2 = ws_sent w @ [data_packet i a, data_packet i b]"
  using assms
  by (simp add: write_poll_ready_def flow_empty_def write_start_send_def write_poll_flush_def
      lock_and_write_def maybe_write_def ready_env_def accepting_send data_packet_def
      flow_dec_def flow_sub_def u32_saturating_sub_def Let_def)

theorem writer_exceeds_credit_witness:
  "\<exists>s1 i1 w1. write_poll_ready ready_env (fst (write_start_send [1] MuxStreamWrite_new)) (tracking_info 1) demo_ws
      = (s1, i1, w1, Ready (Ok ())) \<and> flow_control i1 = 0"
proof -
  have "accepting demo_ws" by (simp add: accepting_def demo_ws_def)
  from writer_exceeds_credit [OF _ _ this, of "tracking_info 1" "fst (write_start_send [1] MuxStreamWrite_new)"
      "[1]" "[2]"]
  show ?thesis by (auto simp: tracking_info_def StreamInfo_new_def write_start_send_def)
qed

text \<open>
  The grant ignores payloads in flight, so a peer that obeys every grant can still lose data.
  With a buffer of 11, the reader grants 11 slots after 10 payloads, while the 11th that the
  client was allowed to send is still under way. The client may now send 11 more; when the
  reader stalls, 12 payloads arrive for 11 slots, and the last one is dropped silently.
\<close>

definition read_through :: "nat \<Rightarrow> list_chan sstream \<Rightarrow> list_chan sstream" where
  "read_through n s = ((\<lambda>s. sstep list_flume (PollRead ready_env) (sstep list_flume (Arrive [1]) s)) ^^ n) s"

definition pile_up :: "nat \<Rightarrow> list_chan sstream \<Rightarrow> list_chan sstream" where
  "pile_up n s = (sstep list_flume (Arrive [1]) ^^ n) s"

definition race_state :: "u32 \<Rightarrow> u32 \<Rightarrow> ws_write \<Rightarrow> bytes list \<Rightarrow> list_chan sstream" where
  "race_state f c w q =
    \<lparr>ss_cell = \<lparr>c_info = (StreamInfo_new 7 EnabledSendMessages 11)\<lparr>flow_control := f\<rparr>,
                c_chan = \<lparr>lc_queue = q, lc_cap = Some 11, lc_disc = False, lc_alive = True\<rparr>\<rparr>,
     ss_read = \<lparr>r_locked = False, read_cnt = c, r_chunk = None\<rparr>, ss_ws = w\<rparr>"

lemma race_start: "sstream_new list_flume 7 11 w = race_state 11 0 w []"
  by (simp add: race_state_def sstream_new_def list_flume_def MuxStreamRead_new_def StreamInfo_new_def)

lemma race_arrive:
  "sstep list_flume (Arrive d) (race_state f c w q) =
     (if length q < 11 then race_state (u32_saturating_sub f 1) c w (q @ [d]) else race_state f c w q)"
  by (simp add: race_state_def sstep_def arrive_eq list_flume_def flow_dec_def flow_sub_def Let_def)

lemma race_read:
  assumes "accepting w"
  shows "sstep list_flume (PollRead ready_env) (race_state f c w (d # q)) =
     (if 9 < c + 1
      then race_state (u32_saturating_add f (c + 1)) 0
             (w\<lparr>ws_sent := ws_sent w @ [Packet_encode (new_continue 7 (u32_saturating_add f (c + 1)))]\<rparr>) q
      else race_state f (c + 1) w q)"
  using assms
  by (simp add: race_state_def sstep_def poll_read_def list_flume_def read_poll_next_def read_deliver_def
      read_grant_def StreamInfo_new_def ready_env_def flow_add_def Let_def accepting_send)

lemma funpow_10: "(f ^^ 10) x = f (f (f (f (f (f (f (f (f (f x)))))))))"
  by (simp add: numeral_eq_Suc)

lemma funpow_11: "(f ^^ 11) x = f (f (f (f (f (f (f (f (f (f (f x))))))))))"
  by (simp add: numeral_eq_Suc)

lemma demo_accepting: "accepting demo_ws"
  by (simp add: accepting_def demo_ws_def)

lemmas race_eval = read_through_def pile_up_def race_start race_arrive race_read
  u32_saturating_sub_def u32_saturating_add_def demo_accepting

theorem credit_race_drops_data:
  "let s1 = read_through 10 (sstream_new list_flume 7 11 demo_ws); s2 = pile_up 11 s1; s3 = pile_up 1 s2
   in ws_sent (ss_ws s1) = [Packet_encode (new_continue 7 11)]
    \<and> length (lc_queue (c_chan (ss_cell s2))) = 11
    \<and> lc_queue (c_chan (ss_cell s3)) = lc_queue (c_chan (ss_cell s2))"
proof -
  have s1: "read_through 10 (sstream_new list_flume 7 11 demo_ws) =
      race_state 11 0 (demo_ws\<lparr>ws_sent := [Packet_encode (new_continue 7 11)]\<rparr>) []"
    by (simp add: race_eval funpow_10) (simp add: demo_ws_def)
  have s2: "pile_up 11 (race_state 11 0 w []) = race_state 0 0 w
      [[1], [1], [1], [1], [1], [1], [1], [1], [1], [1], [1]]" for w
    by (simp add: race_eval funpow_11)
  show ?thesis
    unfolding s1 s2 Let_def by (simp add: pile_up_def race_arrive) (simp add: race_state_def)
qed

end
