(* ===== verification/Unfair_Select.thy ===== *)
theory Unfair_Select
  imports Mux_Inner
begin

text \<open>
  \<open>wisp/src/unfair_select.rs\<close>: the stream that merges the transport with the channel of the
  multiplexor's actor. Despite its name it alternates which of the two it polls first; it ends as soon as
  one of them ends. A merged stream is the list of answers it gives to successive polls, and is
  pending once the list is used up.
\<close>

section \<open>Definitions\<close>

datatype PollNext = SelLeft | SelRight

fun PollNext_other :: "PollNext \<Rightarrow> PollNext" where
  "PollNext_other SelLeft = SelRight"
| "PollNext_other SelRight = SelLeft"

definition PollNext_toggle :: "PollNext \<Rightarrow> PollNext \<times> PollNext" where
  "PollNext_toggle x = (PollNext_other x, x)"

type_synonym 'a script = "'a option poll list"

fun script_poll :: "'a script \<Rightarrow> 'a script \<times> 'a option poll" where
  "script_poll [] = ([], Pending)"
| "script_poll (r # rs) = (rs, r)"

record 'a UnfairSelect =
  stream1 :: "'a script"
  stream2 :: "'a script"
  sel_next :: PollNext
  finished :: bool

definition unfair_select :: "'a script \<Rightarrow> 'a script \<Rightarrow> 'a UnfairSelect" where
  "unfair_select s1 s2 = \<lparr>stream1 = s1, stream2 = s2, sel_next = SelLeft, finished = False\<rparr>"

definition select_is_terminated :: "'a UnfairSelect \<Rightarrow> bool" where
  "select_is_terminated u = finished u"

fun poll_side :: "'a UnfairSelect \<Rightarrow> PollNext \<Rightarrow> 'a UnfairSelect \<times> 'a option poll" where
  "poll_side u SelLeft = (case script_poll (stream1 u) of (s, r) \<Rightarrow> (u\<lparr>stream1 := s\<rparr>, r))"
| "poll_side u SelRight = (case script_poll (stream2 u) of (s, r) \<Rightarrow> (u\<lparr>stream2 := s\<rparr>, r))"

definition poll_inner :: "'a UnfairSelect \<Rightarrow> PollNext \<Rightarrow> 'a UnfairSelect \<times> 'a option poll" where
  "poll_inner u side = (case poll_side u side of
      (u, Ready (Some item)) \<Rightarrow> (u, Ready (Some item))
    | (u, Ready None) \<Rightarrow> (u\<lparr>finished := True\<rparr>, Ready None)
    | (u, Pending) \<Rightarrow>
        (let other = PollNext_other side
         in case poll_side u other of
              (u, Ready None) \<Rightarrow> (u\<lparr>finished := True\<rparr>, Ready None)
            | (u, a) \<Rightarrow> (u, a)))"

definition select_poll_next :: "'a UnfairSelect \<Rightarrow> 'a UnfairSelect \<times> 'a option poll" where
  "select_poll_next u = (case PollNext_toggle (sel_next u) of (nxt, old) \<Rightarrow>
     (let u = u\<lparr>sel_next := nxt\<rparr>
      in if finished u then (u, Ready None) else poll_inner u old))"

section \<open>Runs\<close>

fun select_run :: "nat \<Rightarrow> 'a UnfairSelect \<Rightarrow> 'a UnfairSelect \<times> 'a option poll list" where
  "select_run 0 u = (u, [])"
| "select_run (Suc n) u = (case select_poll_next u of (u, r) \<Rightarrow>
     (case select_run n u of (u, rs) \<Rightarrow> (u, r # rs)))"

text \<open>The items among the answers.\<close>

fun items :: "'a script \<Rightarrow> 'a list" where
  "items [] = []"
| "items (Ready (Some x) # rs) = x # items rs"
| "items (_ # rs) = items rs"

text \<open>The answers a stream has given when only \<open>new\<close> is left of it.\<close>

definition taken :: "'a script \<Rightarrow> 'a script \<Rightarrow> 'a script" where
  "taken old new = take (length old - length new) old"

lemma taken_self [simp]: "taken s s = []"
  by (simp add: taken_def)

lemma taken_cons [simp]: "taken (x # s) s = [x]"
  by (simp add: taken_def)

lemma taken_append: "s = a @ s' \<Longrightarrow> taken s s' = a"
  by (simp add: taken_def)

text \<open>
  One poll takes at most one answer from each side; what it takes and does not pass on is \<open>Pending\<close>.
\<close>

lemma poll_side_streams:
  "poll_side u SelLeft = (u\<lparr>stream1 := fst (script_poll (stream1 u))\<rparr>, snd (script_poll (stream1 u)))"
  "poll_side u SelRight = (u\<lparr>stream2 := fst (script_poll (stream2 u))\<rparr>, snd (script_poll (stream2 u)))"
  by (simp_all add: split_beta)

lemma select_poll_split:
  assumes "select_poll_next u = (u', r)"
  shows "stream1 u = taken (stream1 u) (stream1 u') @ stream1 u'
    \<and> stream2 u = taken (stream2 u) (stream2 u') @ stream2 u'
    \<and> items [r] = items (taken (stream1 u) (stream1 u')) @ items (taken (stream2 u) (stream2 u'))
    \<and> (finished u' \<longleftrightarrow> finished u \<or> r = Ready None)"
proof (cases "finished u")
  case True
  then show ?thesis using assms by (auto simp: select_poll_next_def PollNext_toggle_def)
next
  case False
  with assms show ?thesis
    by (cases "sel_next u"; cases "stream1 u"; cases "stream2 u")
      (auto simp: select_poll_next_def PollNext_toggle_def poll_inner_def Let_def poll_side_streams
        simp del: poll_side.simps split: poll.splits option.splits)
qed

lemma items_append: "items (a @ b) = items a @ items b"
  by (induction a rule: items.induct) auto

lemma items_single: "items [r] = (case r of Ready (Some x) \<Rightarrow> [x] | _ \<Rightarrow> [])"
  by (cases r) (auto split: option.splits)

lemma items_cons: "items (r # rs) = items [r] @ items rs"
  using items_append [of "[r]" rs] by simp

lemma length_items_single: "length (items [r]) \<le> 1"
  by (simp add: items_single split: poll.splits option.splits)

lemma shuffles_step:
  assumes "length (a @ b) \<le> 1" "zs \<in> shuffles xs ys"
  shows "(a @ b) @ zs \<in> shuffles (a @ xs) (b @ ys)"
  using assms by (cases a; cases b) (auto intro: Cons_in_shuffles_leftI Cons_in_shuffles_rightI)

text \<open>
  The merged stream loses, duplicates and reorders nothing. After any number of polls, the items
  delivered are an interleaving of the items that the two sides have given, each in its own
  order; everything a side has not yet given is still in it.
\<close>

theorem select_is_merge:
  assumes "select_run n u = (u', rs)"
  shows "stream1 u = taken (stream1 u) (stream1 u') @ stream1 u'
    \<and> stream2 u = taken (stream2 u) (stream2 u') @ stream2 u'
    \<and> items rs \<in> shuffles (items (taken (stream1 u) (stream1 u'))) (items (taken (stream2 u) (stream2 u')))"
  using assms
proof (induction n arbitrary: u rs)
  case (Suc n)
  obtain v r where v: "select_poll_next u = (v, r)" by fastforce
  obtain qs where qs: "select_run n v = (u', qs)" and rs: "rs = r # qs"
    using Suc.prems v by (auto split: prod.splits)
  note one = select_poll_split [OF v] and more = Suc.IH [OF qs]
  have s1: "stream1 u = (taken (stream1 u) (stream1 v) @ taken (stream1 v) (stream1 u')) @ stream1 u'"
    and s2: "stream2 u = (taken (stream2 u) (stream2 v) @ taken (stream2 v) (stream2 u')) @ stream2 u'"
    using one more by (metis append_assoc)+
  have "items rs \<in> shuffles (items (taken (stream1 u) (stream1 v)) @ items (taken (stream1 v) (stream1 u')))
      (items (taken (stream2 u) (stream2 v)) @ items (taken (stream2 v) (stream2 u')))"
    using shuffles_step [OF _ conjunct2 [OF conjunct2 [OF more]]] one length_items_single [of r]
      items_cons [of r qs] by (simp add: rs)
  then show ?case
    using s1 s2 by (simp add: taken_append [OF s1] taken_append [OF s2] items_append)
qed simp

text \<open>
  C38. Neither side starves: an item that either side is ready to give, or its end, is delivered within two
  polls, unless the merged stream ends first.
\<close>

theorem select_no_starvation:
  assumes "stream1 u = Ready x # s \<or> stream2 u = Ready x # s" "select_run 2 u = (u', rs)"
  shows "Ready x \<in> set rs \<or> Ready None \<in> set rs"
  using assms
  by (cases "finished u"; cases "sel_next u"; cases "stream1 u"; cases "stream2 u")
    (auto simp: numeral_2_eq_2 select_poll_next_def PollNext_toggle_def poll_inner_def Let_def
      poll_side_streams simp del: poll_side.simps split: poll.splits option.splits)

text \<open>
  The end is final and reported as such: once a poll answered with the end, every later poll does,
  and \<open>is_terminated\<close> holds from that poll on.
\<close>

theorem select_fused:
  assumes "select_poll_next u = (v, Ready None)" "select_run n v = (u', rs)"
  shows "select_is_terminated v \<and> select_is_terminated u' \<and> rs = replicate n (Ready None)"
proof -
  have over: "finished v" using select_poll_split [OF assms(1)] by simp
  moreover have "finished v \<Longrightarrow> select_run n v = (u', rs) \<Longrightarrow> finished u' \<and> rs = replicate n (Ready None)"
  proof (induction n arbitrary: v rs)
    case (Suc n)
    from Suc.prems(1) have "select_poll_next v = (v\<lparr>sel_next := PollNext_other (sel_next v)\<rparr>, Ready None)"
      by (simp add: select_poll_next_def PollNext_toggle_def)
    with Suc.prems Suc.IH [of "v\<lparr>sel_next := PollNext_other (sel_next v)\<rparr>"] show ?case
      by (auto split: prod.splits)
  qed simp
  ultimately show ?thesis using assms(2) by (simp add: select_is_terminated_def)
qed

definition demo_select :: "nat UnfairSelect" where
  "demo_select = unfair_select [Ready (Some 1), Pending, Ready (Some 2)] [Ready (Some 10), Ready None]"

lemma demo_select_run:
  "select_run 2 demo_select =
     (\<lparr>stream1 = [Pending, Ready (Some 2)], stream2 = [Ready None], sel_next = SelLeft, finished = False\<rparr>,
      [Ready (Some 1), Ready (Some 10)])"
  "select_poll_next (fst (select_run 2 demo_select)) =
     (\<lparr>stream1 = [Ready (Some 2)], stream2 = [], sel_next = SelRight, finished = True\<rparr>, Ready None)"
  by (simp_all add: demo_select_def unfair_select_def numeral_2_eq_2 select_poll_next_def
      PollNext_toggle_def poll_inner_def)

theorem select_is_merge_witness:
  "items (snd (select_run 2 demo_select)) \<in> shuffles [1] [10] \<and> snd (select_run 2 demo_select) \<noteq> []"
  using select_is_merge [OF demo_select_run(1)] unfolding demo_select_run(1)
  by (simp add: demo_select_def unfair_select_def taken_def)

theorem select_no_starvation_witness:
  "Ready (Some 10) \<in> set (snd (select_run 2 demo_select)) \<or> Ready None \<in> set (snd (select_run 2 demo_select))"
  using select_no_starvation [OF _ demo_select_run(1), of "Some 10" "[Ready None]"] unfolding demo_select_run(1)
  by (simp add: demo_select_def unfair_select_def)

theorem select_fused_witness:
  "\<exists>v. select_poll_next (fst (select_run 2 demo_select)) = (v, Ready None)
     \<and> snd (select_run 3 v) = [Ready None, Ready None, Ready None]"
  using select_fused [OF demo_select_run(2), of 3] unfolding demo_select_run(2)
  by (metis prod.collapse numeral_3_eq_3 replicate.simps)

end
