(* ===== verification/Transports.thy ===== *)
theory Transports
  imports Wisp_Types "HOL-Library.Sublist"
begin

text \<open>
  The transports under the multiplexor: the websocket transports of \<open>wisp/src/ws/tokio_websockets.rs\<close>
  and \<open>tokio_tungstenite.rs\<close>, the transports made from asynchronous functions of \<open>wisp/src/ws/unfold.rs\<close>,
  \<open>wisp/src/ws/split.rs\<close>, and the adaptors \<open>server/src/util_chain.rs\<close> and \<open>util_map_err.rs\<close>.

  The websocket streams and the functions given by the user are parameters: what a poll of them
  answers. A future of such a function is polled some number of times before it is ready, and must
  not be polled again after that.
\<close>

datatype 'a io = Done 'a | Failed rstring

section \<open>Websocket transports\<close>

datatype Message = Binary bytes | Text bytes | CloseMessage | Ping bytes | Pong bytes

datatype ws_error = AlreadyClosed | OtherError string

definition ws_map_err :: "ws_error \<Rightarrow> WispError" where
  "ws_map_err x = (case x of AlreadyClosed \<Rightarrow> WsImplSocketClosed | OtherError m \<Rightarrow> WsImplError m)"

text \<open>What the websocket stream answers to a poll: the script of its answers, pending at its end.\<close>

datatype ws_item = WsMessage Message | WsError ws_error | WsEnd | WsPending

text \<open>Both transports skip every message that is neither binary nor a close.\<close>

fun ws_poll_next :: "ws_item list \<Rightarrow> ws_item list \<times> bytes wres option poll" where
  "ws_poll_next [] = ([], Pending)"
| "ws_poll_next (WsPending # s) = (s, Pending)"
| "ws_poll_next (WsEnd # s) = (s, Ready None)"
| "ws_poll_next (WsError e # s) = (s, Ready (Some (Err (ws_map_err e))))"
| "ws_poll_next (WsMessage (Binary d) # s) = (s, Ready (Some (Ok d)))"
| "ws_poll_next (WsMessage CloseMessage # s) = (s, Ready None)"
| "ws_poll_next (WsMessage m # s) = ws_poll_next s"

text \<open>The sink of the websocket stream.\<close>

record 's ws_sink =
  sink_poll_ready :: "'s \<Rightarrow> 's \<times> (unit, ws_error) res poll"
  sink_start_send :: "Message \<Rightarrow> 's \<Rightarrow> 's \<times> (unit, ws_error) res"
  sink_poll_flush :: "'s \<Rightarrow> 's \<times> (unit, ws_error) res poll"
  sink_poll_close :: "'s \<Rightarrow> 's \<times> (unit, ws_error) res poll"

fun poll_map :: "('a \<Rightarrow> 'b) \<Rightarrow> 'a poll \<Rightarrow> 'b poll" where
  "poll_map f (Ready x) = Ready (f x)"
| "poll_map f Pending = Pending"

definition ws_poll_ready :: "'s ws_sink \<Rightarrow> 's \<Rightarrow> 's \<times> unit wres poll" where
  "ws_poll_ready k s = map_prod id (poll_map (map_err ws_map_err)) (sink_poll_ready k s)"

definition ws_start_send :: "'s ws_sink \<Rightarrow> bytes \<Rightarrow> 's \<Rightarrow> 's \<times> unit wres" where
  "ws_start_send k item s = map_prod id (map_err ws_map_err) (sink_start_send k (Binary item) s)"

definition ws_poll_flush :: "'s ws_sink \<Rightarrow> 's \<Rightarrow> 's \<times> unit wres poll" where
  "ws_poll_flush k s = map_prod id (poll_map (map_err ws_map_err)) (sink_poll_flush k s)"

definition tokio_websockets_poll_close :: "'s ws_sink \<Rightarrow> 's \<Rightarrow> 's \<times> unit wres poll" where
  "tokio_websockets_poll_close k s = map_prod id (poll_map (map_err ws_map_err)) (sink_poll_close k s)"

definition tokio_tungstenite_poll_close :: "'s ws_sink \<Rightarrow> 's \<Rightarrow> 's \<times> unit wres poll" where
  "tokio_tungstenite_poll_close k s = map_prod id (poll_map (map_err ws_map_err)) (sink_poll_flush k s)"

text \<open>\<open>MapErr\<close> of the length-delimited transport.\<close>

definition MapErr_poll_next :: "bytes io option poll \<Rightarrow> bytes wres option poll" where
  "MapErr_poll_next = poll_map (map_option (\<lambda>x. case x of Done d \<Rightarrow> Ok d | Failed m \<Rightarrow> Err (WsImplError (map (\<lambda>b. char_of (unat b)) m))))"

section \<open>Transports from functions\<close>

datatype 'o future = Running nat 'o | Finished

fun fut_poll :: "'o future \<Rightarrow> 'o future \<times> ('o poll, unit) res" where
  "fut_poll (Running (Suc k) x) = (Running k x, Ok Pending)"
| "fut_poll (Running 0 x) = (Finished, Ok (Ready x))"
| "fut_poll Finished = (Finished, Panic)"

datatype ('s, 'f) IteratorState = Value 's | Future 'f | Empty

fun take_state :: "('s, 'f) IteratorState \<Rightarrow> ('s, 'f) IteratorState \<times> 's option" where
  "take_state (Value s) = (Empty, Some s)"
| "take_state st = (st, None)"

fun get_future :: "('s, 'f) IteratorState \<Rightarrow> 'f option" where
  "get_future (Future f) = Some f"
| "get_future _ = None"

type_synonym 's read_future = "(bytes \<times> 's) option wres future"

definition iter_poll_next ::
    "('s \<Rightarrow> 's read_future) \<Rightarrow> ('s, 's read_future) IteratorState
      \<Rightarrow> ('s, 's read_future) IteratorState \<times> (bytes wres option poll, unit) res" where
  "iter_poll_next func st =
    (let st = (case take_state st of (st, Some s) \<Rightarrow> Future (func s) | (st, None) \<Rightarrow> st)
     in case get_future st of
          None \<Rightarrow> (st, Panic)
        | Some f \<Rightarrow> (case fut_poll f of
             (f, Panic) \<Rightarrow> (Future f, Panic)
           | (f, Err e) \<Rightarrow> (Future f, Err e)
           | (f, Ok Pending) \<Rightarrow> (Future f, Ok Pending)
           | (f, Ok (Ready (Ok (Some (x, s))))) \<Rightarrow> (Value s, Ok (Ready (Some (Ok x))))
           | (f, Ok (Ready (Ok None))) \<Rightarrow> (Future f, Ok (Ready None))
           | (f, Ok (Ready (Err e))) \<Rightarrow> (Future f, Ok (Ready (Some (Err e))))
           | (f, Ok (Ready Panic)) \<Rightarrow> (Future f, Panic)))"

record ('s, 'c) iter_write =
  iw_state :: "('s, 's wres future) IteratorState"
  iw_close :: "('c, unit wres future) IteratorState"

text \<open>
  Results carry whether a future was polled that is pending, and will wake the task.
\<close>

definition iter_poll_flush ::
    "('s, 'c) iter_write \<Rightarrow> ('s, 'c) iter_write \<times> (unit wres poll, unit) res \<times> bool" where
  "iter_poll_flush w = (case get_future (iw_state w) of
      None \<Rightarrow> (w, Ok (Ready (Ok ())), False)
    | Some f \<Rightarrow> (case fut_poll f of
         (f, Panic) \<Rightarrow> (w\<lparr>iw_state := Future f\<rparr>, Panic, False)
       | (f, Err e) \<Rightarrow> (w\<lparr>iw_state := Future f\<rparr>, Err e, False)
       | (f, Ok Pending) \<Rightarrow> (w\<lparr>iw_state := Future f\<rparr>, Ok Pending, True)
       | (f, Ok (Ready (Ok s))) \<Rightarrow> (w\<lparr>iw_state := Value s\<rparr>, Ok (Ready (Ok ())), False)
       | (f, Ok (Ready (Err e))) \<Rightarrow> (w\<lparr>iw_state := Empty\<rparr>, Ok (Ready (Err e)), False)
       | (f, Ok (Ready Panic)) \<Rightarrow> (w\<lparr>iw_state := Future f\<rparr>, Panic, False)))"

definition iter_poll_ready ::
    "('s, 'c) iter_write \<Rightarrow> ('s, 'c) iter_write \<times> (unit wres poll, unit) res \<times> bool" where
  "iter_poll_ready w = iter_poll_flush w"

definition iter_start_send ::
    "('s \<Rightarrow> bytes \<Rightarrow> 's wres future) \<Rightarrow> bytes \<Rightarrow> ('s, 'c) iter_write
      \<Rightarrow> ('s, 'c) iter_write \<times> (unit wres, unit) res" where
  "iter_start_send func item w = (case take_state (iw_state w) of
      (st, Some s) \<Rightarrow> (w\<lparr>iw_state := Future (func s item)\<rparr>, Ok (Ok ()))
    | (st, None) \<Rightarrow> (w\<lparr>iw_state := st\<rparr>, Panic))"

definition iter_poll_close ::
    "('c \<Rightarrow> unit wres future) \<Rightarrow> ('s, 'c) iter_write
      \<Rightarrow> ('s, 'c) iter_write \<times> (unit wres poll, unit) res \<times> bool" where
  "iter_poll_close close w = (case iter_poll_flush w of
      (w, Ok (Ready (Ok _)), _) \<Rightarrow>
        (case get_future (iw_close w) of
           Some f \<Rightarrow> (case fut_poll f of
                (f, Ok (Ready r)) \<Rightarrow> (w\<lparr>iw_close := Empty\<rparr>, Ok (Ready r), False)
              | (f, Ok Pending) \<Rightarrow> (w\<lparr>iw_close := Future f\<rparr>, Ok Pending, True)
              | (f, r) \<Rightarrow> (w\<lparr>iw_close := Future f\<rparr>, Panic, False))
         | None \<Rightarrow> (case take_state (iw_close w) of
                (st, Some c) \<Rightarrow> (w\<lparr>iw_close := Future (close c)\<rparr>, Ok Pending, False)
              | (st, None) \<Rightarrow> (w\<lparr>iw_close := st\<rparr>, Panic, False)))
    | r \<Rightarrow> r)"

section \<open>Chained readers\<close>

text \<open>
  \<open>Chain\<close>. A reader answers a poll with a buffer of some capacity by the bytes it puts there; none
  means the end. \<open>Cursor\<close> reads from memory.
\<close>

type_synonym 's poll_read = "'s \<Rightarrow> nat \<Rightarrow> 's \<times> bytes io poll"

record ('a, 'b) Chain =
  first :: 'a
  second :: 'b
  done_first :: bool

definition chain :: "'a \<Rightarrow> 'b \<Rightarrow> ('a, 'b) Chain" where
  "chain a b = \<lparr>first = a, second = b, done_first = False\<rparr>"

definition chain_second :: "'b poll_read \<Rightarrow> ('a, 'b) Chain poll_read" where
  "chain_second rb c n = (case rb (second c) n of (b, r) \<Rightarrow> (c\<lparr>second := b\<rparr>, r))"

definition chain_poll_read :: "'a poll_read \<Rightarrow> 'b poll_read \<Rightarrow> ('a, 'b) Chain poll_read" where
  "chain_poll_read ra rb c n =
    (if \<not> done_first c then
       (case ra (first c) n of
          (a, Pending) \<Rightarrow> (c\<lparr>first := a\<rparr>, Pending)
        | (a, Ready (Failed m)) \<Rightarrow> (c\<lparr>first := a\<rparr>, Ready (Failed m))
        | (a, Ready (Done d)) \<Rightarrow>
            (if d = [] then chain_second rb (c\<lparr>first := a, done_first := True\<rparr>) n
             else (c\<lparr>first := a\<rparr>, Ready (Done d))))
     else chain_second rb c n)"

definition cursor_read :: "bytes poll_read" where
  "cursor_read s n = (drop n s, Ready (Done (take n s)))"

text \<open>\<open>poll_fill_buf\<close> and \<open>consume\<close>, given those of the two readers.\<close>

type_synonym 's fill_buf = "'s \<Rightarrow> 's \<times> bytes io poll"

definition chain_fill_second :: "'b fill_buf \<Rightarrow> ('a, 'b) Chain fill_buf" where
  "chain_fill_second fb c = (case fb (second c) of (b, r) \<Rightarrow> (c\<lparr>second := b\<rparr>, r))"

definition chain_poll_fill_buf :: "'a fill_buf \<Rightarrow> 'b fill_buf \<Rightarrow> ('a, 'b) Chain fill_buf" where
  "chain_poll_fill_buf fa fb c =
    (if \<not> done_first c then
       (case fa (first c) of
          (a, Ready (Done [])) \<Rightarrow> chain_fill_second fb (c\<lparr>first := a, done_first := True\<rparr>)
        | (a, r) \<Rightarrow> (c\<lparr>first := a\<rparr>, r))
     else chain_fill_second fb c)"

definition chain_consume :: "(nat \<Rightarrow> 'a \<Rightarrow> 'a) \<Rightarrow> (nat \<Rightarrow> 'b \<Rightarrow> 'b) \<Rightarrow> nat \<Rightarrow> ('a, 'b) Chain \<Rightarrow> ('a, 'b) Chain" where
  "chain_consume ca cb n c = (if \<not> done_first c then c\<lparr>first := ca n (first c)\<rparr> else c\<lparr>second := cb n (second c)\<rparr>)"

definition chain_poll_write :: "(bytes \<Rightarrow> 'b \<Rightarrow> 'b \<times> nat io poll) \<Rightarrow> bytes \<Rightarrow> ('a, 'b) Chain \<Rightarrow> ('a, 'b) Chain \<times> nat io poll" where
  "chain_poll_write wb d c = (case wb d (second c) of (b, r) \<Rightarrow> (c\<lparr>second := b\<rparr>, r))"

section \<open>Properties of the websocket transports\<close>

text \<open>The answers that a script gives through a transport.\<close>

fun ws_answer :: "ws_item \<Rightarrow> bytes wres option poll list" where
  "ws_answer WsPending = [Pending]"
| "ws_answer WsEnd = [Ready None]"
| "ws_answer (WsError e) = [Ready (Some (Err (ws_map_err e)))]"
| "ws_answer (WsMessage (Binary d)) = [Ready (Some (Ok d))]"
| "ws_answer (WsMessage CloseMessage) = [Ready None]"
| "ws_answer (WsMessage _) = []"

text \<open>
  A websocket transport gives the multiplexor exactly the binary messages, in order: text, ping and pong messages
  are invisible, a close message is the end, and an error is passed on; nothing that arrives is
  dropped or delivered twice.
\<close>

theorem ws_transport_exact:
  "snd (ws_poll_next s) = (case concat (map ws_answer s) of [] \<Rightarrow> Pending | x # _ \<Rightarrow> x)
   \<and> concat (map ws_answer (fst (ws_poll_next s))) = tl (concat (map ws_answer s))"
  by (induction s rule: ws_poll_next.induct) simp_all

text \<open>
  Closing the tungstenite transport only flushes it, so no close is ever sent.
\<close>

lemma tungstenite_close_is_flush: "tokio_tungstenite_poll_close k s = ws_poll_flush k s"
  by (simp add: tokio_tungstenite_poll_close_def ws_poll_flush_def)

section \<open>Properties of transports from functions\<close>

text \<open>The answers of the first \<open>m\<close> polls.\<close>

fun iter_polls ::
    "('s \<Rightarrow> 's read_future) \<Rightarrow> nat \<Rightarrow> ('s, 's read_future) IteratorState
      \<Rightarrow> (bytes wres option poll, unit) res list" where
  "iter_polls func 0 st = []"
| "iter_polls func (Suc m) st = (case iter_poll_next func st of (st, r) \<Rightarrow> r # iter_polls func m st)"

text \<open>What iterating the function \<open>n\<close> times from a state gives, with the polls that find it pending.\<close>

fun iter_trace :: "('s \<Rightarrow> 's read_future) \<Rightarrow> nat \<Rightarrow> 's \<Rightarrow> bytes wres option poll list" where
  "iter_trace func 0 s = []"
| "iter_trace func (Suc n) s = (case func s of
      Running k (Ok (Some (x, s'))) \<Rightarrow> replicate k Pending @ Ready (Some (Ok x)) # iter_trace func n s'
    | Running k (Ok None) \<Rightarrow> replicate k Pending @ [Ready None]
    | Running k (Err e) \<Rightarrow> replicate k Pending @ [Ready (Some (Err e))]
    | _ \<Rightarrow> [])"

lemma iter_poll_value: "iter_poll_next func (Value s) = iter_poll_next func (Future (func s))"
  by (simp add: iter_poll_next_def)

lemma iter_polls_value: "0 < m \<Longrightarrow> iter_polls func m (Value s) = iter_polls func m (Future (func s))"
  by (cases m) (simp_all add: iter_poll_value)

lemma iter_polls_pending:
  "iter_polls func (k + m) (Future (Running k x)) = replicate k (Ok Pending) @ iter_polls func m (Future (Running 0 x))"
  by (induction k) (simp_all add: iter_poll_next_def)

text \<open>
  A reading transport made from a function yields what iterating the function yields: polled often enough, it
  gives the payloads of the successive calls in order, each after as many pending polls as its future
  takes, up to the end or the first error.
\<close>

theorem iter_read_unfolds:
  "iter_polls func (length (iter_trace func n s)) (Value s) = map Ok (iter_trace func n s)"
proof (induction n arbitrary: s)
  case (Suc n)
  show ?case
  proof (cases "func s")
    case (Running k r)
    have tail: "iter_polls func (k + Suc m) (Value s) =
        replicate k (Ok Pending) @ iter_polls func (Suc m) (Future (Running 0 r))" for m
      using iter_polls_value [of "k + Suc m" func s] iter_polls_pending [of func k "Suc m" r] Running by simp
    show ?thesis
    proof (cases r)
      case (Ok v)
      then show ?thesis
        using Suc.IH Running tail [of 0] tail
        by (cases v) (auto simp: iter_poll_next_def)
    qed (use Running tail [of 0] in \<open>auto simp: iter_poll_next_def\<close>)
  qed simp
qed simp

lemma iter_read_after_end: "snd (iter_poll_next func (Future Finished)) = Panic"
  by (simp add: iter_poll_next_def)

text \<open>
  The sink contract: after a successful \<open>poll_ready\<close> an item can be sent, as long as no send failed.
  After a failure \<open>poll_ready\<close> still reports success, and sending panics.
\<close>

lemma iter_ready_then_send:
  assumes "iter_poll_ready w = (w', Ok (Ready (Ok ())), x)" "iw_state w \<noteq> Empty"
  shows "snd (iter_start_send func item w') = Ok (Ok ())"
proof (cases "iw_state w")
  case (Future f)
  then show ?thesis
    using assms(1)
    by (cases f rule: fut_poll.cases)
      (auto simp: iter_poll_ready_def iter_poll_flush_def iter_start_send_def split: res.splits)
qed (use assms in \<open>auto simp: iter_poll_ready_def iter_poll_flush_def iter_start_send_def\<close>)

lemma iter_send_after_failure_panics:
  assumes "iter_poll_flush w = (w', Ok (Ready (Err e)), x)"
  shows "\<exists>w''. iter_poll_ready w' = (w'', Ok (Ready (Ok ())), False) \<and> snd (iter_start_send func item w'') = Panic"
proof (cases "iw_state w")
  case (Future f)
  then show ?thesis
    using assms
    by (cases f rule: fut_poll.cases)
      (auto simp: iter_poll_ready_def iter_poll_flush_def iter_start_send_def split: res.splits)
qed (use assms in \<open>auto simp: iter_poll_flush_def\<close>)

text \<open>The first \<open>poll_close\<close> starts the closing and is pending, but polls nothing that would wake the task.\<close>

lemma iter_first_close_no_waker:
  assumes "iw_state w = Value s" "iw_close w = Value c"
  shows "iter_poll_close close w = (w\<lparr>iw_close := Future (close c)\<rparr>, Ok Pending, False)"
  using assms by (simp add: iter_poll_close_def iter_poll_flush_def)

section \<open>Properties of chained readers\<close>

text \<open>What a sequence of reads with the given capacities yields, up to a failure.\<close>

fun reads :: "'s poll_read \<Rightarrow> nat list \<Rightarrow> 's \<Rightarrow> bytes" where
  "reads rd [] s = []"
| "reads rd (n # ns) s = (case rd s n of
      (s', Ready (Done d)) \<Rightarrow> d @ reads rd ns s'
    | (s', Pending) \<Rightarrow> reads rd ns s'
    | (s', Ready (Failed m)) \<Rightarrow> [])"

text \<open>
  A reader over bytes that are still to come: a poll with room in the buffer hands out the next
  ones, and says that there are none only at the end.
\<close>

locale byte_reader =
  fixes poll_read :: "'s poll_read" and rest :: "'s \<Rightarrow> bytes"
  assumes gives: "0 < n \<Longrightarrow> poll_read s n = (s', Ready (Done d)) \<Longrightarrow> rest s = d @ rest s'"
    and at_end: "0 < n \<Longrightarrow> poll_read s n = (s', Ready (Done [])) \<Longrightarrow> rest s = []"
    and waits: "0 < n \<Longrightarrow> poll_read s n = (s', Pending) \<Longrightarrow> rest s' = rest s"
begin

lemma reads_prefix: "\<forall>n \<in> set ns. 0 < n \<Longrightarrow> prefix (reads poll_read ns s) (rest s)"
proof (induction ns arbitrary: s)
  case (Cons n ns)
  obtain s' r where p: "poll_read s n = (s', r)" by force
  show ?case
  proof (cases r)
    case (Ready x)
    with gives [of n s s'] p Cons show ?thesis by (cases x) auto
  next
    case Pending
    with waits [of n s s'] p Cons.prems Cons.IH [of s'] show ?thesis by auto
  qed
qed simp

end

text \<open>A reader that does not fail and is pending only finitely often; \<open>fuel\<close> bounds the polls it takes.\<close>

locale live_reader = byte_reader +
  fixes fuel :: "'a \<Rightarrow> nat"
  assumes progress: "0 < n \<Longrightarrow> poll_read s n = (s', r) \<Longrightarrow> r \<noteq> Ready (Done []) \<Longrightarrow> fuel s' < fuel s"
    and no_failure: "poll_read s n \<noteq> (s', Ready (Failed m))"
begin

lemma reads_complete: "\<forall>n \<in> set ns. 0 < n \<Longrightarrow> fuel s \<le> length ns \<Longrightarrow> reads poll_read ns s = rest s"
proof (induction ns arbitrary: s)
  case Nil
  obtain s' r where p: "poll_read s 1 = (s', r)" by force
  with progress [of 1 s s' r] Nil have "r = Ready (Done [])" by auto
  with at_end [of 1 s s'] p show ?case by simp
next
  case (Cons n ns)
  obtain s' r where p: "poll_read s n = (s', r)" by force
  show ?case
  proof (cases "r = Ready (Done [])")
    case True
    with at_end [of n s s'] gives [of n s s' "[]"] p Cons.prems(1) have "rest s = []" "rest s' = []" by auto
    with True p reads_prefix [of ns s'] Cons.prems(1) show ?thesis by simp
  next
    case False
    with progress [OF _ p] Cons.prems have "reads poll_read ns s' = rest s'" by (intro Cons.IH) auto
    with gives [of n s s'] waits [of n s s'] no_failure [of s n s'] p Cons.prems(1) show ?thesis
      by (auto split: poll.splits io.splits)
  qed
qed

end

text \<open>Two readers, and the chain of both, which is a reader again.\<close>

definition chain_rest :: "('a \<Rightarrow> bytes) \<Rightarrow> ('b \<Rightarrow> bytes) \<Rightarrow> ('a, 'b) Chain \<Rightarrow> bytes" where
  "chain_rest resta restb c = (if done_first c then [] else resta (first c)) @ restb (second c)"

locale reader_pair =
  a: byte_reader reada resta + b: byte_reader readb restb
  for reada :: "'a poll_read" and resta :: "'a \<Rightarrow> bytes" and readb :: "'b poll_read" and restb :: "'b \<Rightarrow> bytes"
begin

lemma chain_second_laws:
  assumes "done_first c" "chain_second readb c n = (c', r)"
  shows "0 < n \<Longrightarrow> r = Ready (Done d) \<Longrightarrow> chain_rest resta restb c = d @ chain_rest resta restb c'"
    and "0 < n \<Longrightarrow> r = Ready (Done []) \<Longrightarrow> chain_rest resta restb c = []"
    and "0 < n \<Longrightarrow> r = Pending \<Longrightarrow> chain_rest resta restb c' = chain_rest resta restb c"
  using assms b.gives b.at_end b.waits
  by (auto simp: chain_second_def chain_rest_def split: prod.splits)

end

sublocale reader_pair \<subseteq> chained: byte_reader "chain_poll_read reada readb" "chain_rest resta restb"
proof
  fix n d and s s' :: "('a, 'b) Chain"
  obtain a r where ra: "reada (first s) n = (a, r)" by force
  let ?c = "s\<lparr>first := a, done_first := True\<rparr>"
  have moved: "chain_rest resta restb ?c = chain_rest resta restb s"
    if "\<not> done_first s" "r = Ready (Done [])" "0 < n"
    using that a.at_end [of n "first s" a] ra by (simp add: chain_rest_def)
  show "chain_rest resta restb s = d @ chain_rest resta restb s'"
    if "0 < n" "chain_poll_read reada readb s n = (s', Ready (Done d))"
    using that moved chain_second_laws(1) [of s n s' _ d] chain_second_laws(1) [of ?c n s' _ d] ra a.gives [of n "first s" a]
    by (auto simp: chain_poll_read_def chain_rest_def split: if_splits poll.splits io.splits)
  show "chain_rest resta restb s = []"
    if "0 < n" "chain_poll_read reada readb s n = (s', Ready (Done []))"
    using that moved chain_second_laws(2) [of s n s'] chain_second_laws(2) [of ?c n s'] ra
    by (auto simp: chain_poll_read_def split: if_splits poll.splits io.splits)
  show "chain_rest resta restb s' = chain_rest resta restb s"
    if "0 < n" "chain_poll_read reada readb s n = (s', Pending)"
    using that moved chain_second_laws(3) [of s n s'] chain_second_laws(3) [of ?c n s'] ra a.waits [of n "first s" a]
    by (auto simp: chain_poll_read_def chain_rest_def split: if_splits poll.splits io.splits)
qed

definition chain_fuel :: "('a \<Rightarrow> nat) \<Rightarrow> ('b \<Rightarrow> nat) \<Rightarrow> ('a, 'b) Chain \<Rightarrow> nat" where
  "chain_fuel fa fb c = (if done_first c then 0 else fa (first c)) + fb (second c)"

locale live_pair =
  a: live_reader reada resta fuela + b: live_reader readb restb fuelb
  for reada :: "'a poll_read" and resta :: "'a \<Rightarrow> bytes" and fuela :: "'a \<Rightarrow> nat"
    and readb :: "'b poll_read" and restb :: "'b \<Rightarrow> bytes" and fuelb :: "'b \<Rightarrow> nat"

sublocale live_pair \<subseteq> pair: reader_pair reada resta readb restb ..

sublocale live_pair \<subseteq> chained: live_reader "chain_poll_read reada readb" "chain_rest resta restb" "chain_fuel fuela fuelb"
proof
  fix n m r and s s' :: "('a, 'b) Chain"
  obtain a ra where ra: "reada (first s) n = (a, ra)" by force
  obtain b rb where rb: "readb (second s) n = (b, rb)" by force
  show "chain_fuel fuela fuelb s' < chain_fuel fuela fuelb s"
    if "0 < n" "chain_poll_read reada readb s n = (s', r)" "r \<noteq> Ready (Done [])"
    using that ra rb a.progress [OF that(1) ra] b.progress [OF that(1) rb]
    by (auto simp: chain_poll_read_def chain_second_def chain_fuel_def split: if_splits poll.splits io.splits)
  show "chain_poll_read reada readb s n \<noteq> (s', Ready (Failed m))"
    using ra rb a.no_failure [of "first s" n a] b.no_failure [of "second s" n b]
    by (auto simp: chain_poll_read_def chain_second_def split: if_splits poll.splits io.splits)
qed

text \<open>A stream of chunks, each no longer than the buffer it is read into, as a socket gives them.\<close>

fun chunks_read :: "bytes list poll_read" where
  "chunks_read [] n = ([], Ready (Done []))"
| "chunks_read ([] # cs) n = (cs, Pending)"
| "chunks_read (c # cs) n = (if length c \<le> n then (cs, Ready (Done c)) else (drop n c # cs, Ready (Done (take n c))))"

interpretation cursor: live_reader cursor_read "\<lambda>s. s" length
  by unfold_locales (auto simp: cursor_read_def)

interpretation chunks: live_reader chunks_read concat "\<lambda>cs. length cs + length (concat cs)"
proof
  fix n s s' d r m
  show "concat s = d @ concat s'" if "0 < n" "chunks_read s n = (s', Ready (Done d))"
    using that by (cases "(s, n)" rule: chunks_read.cases) (auto split: if_splits)
  show "concat s = []" if "0 < n" "chunks_read s n = (s', Ready (Done []))"
    using that by (cases "(s, n)" rule: chunks_read.cases) (auto split: if_splits)
  show "concat s' = concat s" if "0 < n" "chunks_read s n = (s', Pending)"
    using that by (cases "(s, n)" rule: chunks_read.cases) (auto split: if_splits)
  show "length s' + length (concat s') < length s + length (concat s)"
    if "0 < n" "chunks_read s n = (s', r)" "r \<noteq> Ready (Done [])"
    using that by (cases "(s, n)" rule: chunks_read.cases) (auto split: if_splits)
  show "chunks_read s n \<noteq> (s', Ready (Failed m))"
    by (cases "(s, n)" rule: chunks_read.cases) auto
qed

interpretation upgraded: live_pair cursor_read "\<lambda>s. s" length chunks_read concat "\<lambda>cs. length cs + length (concat cs)" ..

text \<open>
  After an upgrade no byte of the connection is lost: reading the chain of the bytes that were read with the
  request and the connection itself gives, with non-empty buffers of any sizes and through any
  pending polls, the leftover bytes followed by what the connection sends, in order; enough polls give
  all of them.
\<close>

theorem chain_reads_in_order:
  assumes "\<forall>n \<in> set ns. 0 < n"
  shows "prefix (reads (chain_poll_read cursor_read chunks_read) ns (chain leftover cs)) (leftover @ concat cs)
    \<and> (length leftover + length cs + length (concat cs) \<le> length ns \<longrightarrow>
       reads (chain_poll_read cursor_read chunks_read) ns (chain leftover cs) = leftover @ concat cs)"
  using upgraded.pair.chained.reads_prefix [OF assms, of "chain leftover cs"]
    upgraded.chained.reads_complete [OF assms, of "chain leftover cs"]
  by (simp add: chain_rest_def chain_def chain_fuel_def)

theorem chain_reads_in_order_witness:
  "reads (chain_poll_read cursor_read chunks_read) [9, 9, 9, 9, 9, 9] (chain [1] [[], [4, 5]]) = [1, 4, 5]"
  using chain_reads_in_order [of "[9, 9, 9, 9, 9, 9]" "[1]" "[[], [4, 5]]"] by simp

text \<open>A read into an empty buffer ends the first reader: the leftover bytes are lost.\<close>

lemma chain_empty_buffer_loses:
  "reads (chain_poll_read cursor_read chunks_read) [0, 9] (chain [1, 2, 3] [[4]]) = [4]"
  by (simp add: chain_poll_read_def chain_second_def chain_def cursor_read_def)

end
