(* ===== verification/Server_Forward.thy ===== *)
theory Server_Forward
  imports Transports
begin

text \<open>
  The loops that copy payloads between a client and its upstream: \<open>copy_fast\<close> and the UDP branch of
  \<open>forward_stream\<close> (\<open>handle/wisp/mod.rs\<close>), \<open>handle_twisp\<close> (\<open>twisp.rs\<close>), \<open>copy_wisp\<close> in both
  directions (\<open>wispnet.rs\<close>) and the three loops of \<open>handle_wsproxy\<close>.

  Each is a \<open>select!\<close> over what the two sides give. A run is the list of the branches taken, each with
  the outcome of the write it makes. A payload whose write failed counts as not delivered, although
  part of it may have left.
\<close>

section \<open>Definitions\<close>

text \<open>
  What a branch of \<open>select!\<close> yields: an item of the client, an item of the upstream, or the end of the
  command behind a terminal.
\<close>

datatype ('c, 'u) event = FromClient "'c io" | FromUp "'u io" | Exited "unit io"

record fwd =
  to_up :: "bytes list"
  to_client :: "bytes list"
  up_shut :: bool

datatype flow = Continue | Break | Fail rstring

definition write_up :: "bytes \<Rightarrow> unit io \<Rightarrow> fwd \<Rightarrow> fwd \<times> flow" where
  "write_up d w f = (case w of Done _ \<Rightarrow> (f\<lparr>to_up := to_up f @ [d]\<rparr>, Continue) | Failed m \<Rightarrow> (f, Fail m))"

definition write_client :: "bytes \<Rightarrow> unit io \<Rightarrow> fwd \<Rightarrow> fwd \<times> flow" where
  "write_client d w f = (case w of Done _ \<Rightarrow> (f\<lparr>to_client := to_client f @ [d]\<rparr>, Continue) | Failed m \<Rightarrow> (f, Fail m))"

definition shut_up :: "unit io \<Rightarrow> fwd \<Rightarrow> fwd \<times> flow" where
  "shut_up w f = (case w of Done _ \<Rightarrow> (f\<lparr>up_shut := True\<rparr>, Continue) | Failed m \<Rightarrow> (f, Fail m))"

text \<open>The loop itself; \<open>None\<close> while it still waits for a branch.\<close>

fun copy_loop ::
    "(('c, 'u) event \<Rightarrow> unit io \<Rightarrow> fwd \<Rightarrow> fwd \<times> flow) \<Rightarrow> (('c, 'u) event \<times> unit io) list \<Rightarrow> fwd
      \<Rightarrow> fwd \<times> unit io option" where
  "copy_loop body [] f = (f, None)"
| "copy_loop body ((e, w) # es) f = (case body e w f of
      (f', Continue) \<Rightarrow> copy_loop body es f'
    | (f', Break) \<Rightarrow> (f', Some (Done ()))
    | (f', Fail m) \<Rightarrow> (f', Some (Failed m)))"

subsection \<open>wisp streams\<close>

text \<open>
  \<open>copy_fast\<close>: \<open>copy_buf\<close> towards the socket and the loop \<open>tcp_to_mux\<close>; an empty buffer is the end of
  either side. A terminal is copied the same way until its command exits.
\<close>

fun copy_fast :: "(bytes, bytes) event \<Rightarrow> unit io \<Rightarrow> fwd \<Rightarrow> fwd \<times> flow" where
  "copy_fast (FromClient (Done d)) w f = (if d = [] then (f, Break) else write_up d w f)"
| "copy_fast (FromUp (Done d)) w f = (if d = [] then (f, Break) else write_client d w f)"
| "copy_fast (FromClient (Failed m)) w f = (f, Fail m)"
| "copy_fast (FromUp (Failed m)) w f = (f, Fail m)"
| "copy_fast (Exited r) w f = (f, Continue)"

fun copy_twisp :: "(bytes, bytes) event \<Rightarrow> unit io \<Rightarrow> fwd \<Rightarrow> fwd \<times> flow" where
  "copy_twisp (Exited r) w f = (f, case r of Done _ \<Rightarrow> Break | Failed m \<Rightarrow> Fail m)"
| "copy_twisp e w f = copy_fast e w f"

text \<open>UDP; \<open>write_all\<close> of an empty datagram writes nothing.\<close>

fun copy_udp :: "(bytes option, bytes) event \<Rightarrow> unit io \<Rightarrow> fwd \<Rightarrow> fwd \<times> flow" where
  "copy_udp (FromUp (Done d)) w f = (if d = [] then (f, Continue) else write_client d w f)"
| "copy_udp (FromClient (Done (Some d))) w f = write_up d w f"
| "copy_udp (FromClient (Done None)) w f = (f, Break)"
| "copy_udp (FromClient (Failed m)) w f = (f, Fail m)"
| "copy_udp (FromUp (Failed m)) w f = (f, Fail m)"
| "copy_udp (Exited r) w f = (f, Continue)"

text \<open>\<open>copy_wisp\<close>, one in each direction; the first to end ends both.\<close>

fun copy_wisp :: "(bytes option, bytes option) event \<Rightarrow> unit io \<Rightarrow> fwd \<Rightarrow> fwd \<times> flow" where
  "copy_wisp (FromClient (Done (Some d))) w f = write_up d w f"
| "copy_wisp (FromUp (Done (Some d))) w f = write_client d w f"
| "copy_wisp (FromClient (Done None)) w f = (f, Break)"
| "copy_wisp (FromUp (Done None)) w f = (f, Break)"
| "copy_wisp (FromClient (Failed m)) w f = (f, Fail m)"
| "copy_wisp (FromUp (Failed m)) w f = (f, Fail m)"
| "copy_wisp (Exited r) w f = (f, Continue)"

text \<open>The terminals of a connection, by stream id; \<open>fd\<close> is the descriptor of the new one.\<close>

definition handle_twisp ::
    "u32 \<Rightarrow> nat \<Rightarrow> (u32 \<rightharpoonup> nat) \<Rightarrow> ((bytes, bytes) event \<times> unit io) list \<Rightarrow> fwd
      \<Rightarrow> (u32 \<rightharpoonup> nat) \<times> fwd \<times> unit io option" where
  "handle_twisp i fd tmap evs f = (case copy_loop copy_twisp evs f of
      (f', None) \<Rightarrow> (tmap(i \<mapsto> fd), f', None)
    | (f', Some r) \<Rightarrow> ((tmap(i \<mapsto> fd))(i := None), f', Some r))"

subsection \<open>wsproxy\<close>

datatype WebSocketFrame = FrameData bytes | FrameClose | FrameIgnore

datatype Message = Binary bytes | Text bytes | CloseMessage | Ping bytes | Pong bytes

text \<open>\<open>WebSocketStreamWrapper::read\<close>, followed by \<open>transpose\<close> as every caller does.\<close>

fun ws_read :: "Message io option \<Rightarrow> WebSocketFrame option io" where
  "ws_read None = Done None"
| "ws_read (Some (Done (Binary d))) = Done (Some (FrameData d))"
| "ws_read (Some (Done (Text d))) = Done (Some (FrameData d))"
| "ws_read (Some (Done CloseMessage)) = Done (Some FrameClose)"
| "ws_read (Some (Done _)) = Done (Some FrameIgnore)"
| "ws_read (Some (Failed m)) = Failed m"

fun wsproxy_tcp :: "(WebSocketFrame option, bytes) event \<Rightarrow> unit io \<Rightarrow> fwd \<Rightarrow> fwd \<times> flow" where
  "wsproxy_tcp (FromClient (Done (Some (FrameData d)))) w f = (if d = [] then (f, Continue) else write_up d w f)"
| "wsproxy_tcp (FromClient (Done (Some FrameClose))) w f = shut_up w f"
| "wsproxy_tcp (FromClient (Done (Some FrameIgnore))) w f = (f, Continue)"
| "wsproxy_tcp (FromClient (Done None)) w f = (f, Break)"
| "wsproxy_tcp (FromUp (Done d)) w f = (if d = [] then (f, Break) else write_client d w f)"
| "wsproxy_tcp (FromClient (Failed m)) w f = (f, Fail m)"
| "wsproxy_tcp (FromUp (Failed m)) w f = (f, Fail m)"
| "wsproxy_tcp (Exited r) w f = (f, Continue)"

fun wsproxy_udp :: "(WebSocketFrame option, bytes) event \<Rightarrow> unit io \<Rightarrow> fwd \<Rightarrow> fwd \<times> flow" where
  "wsproxy_udp (FromClient (Done (Some (FrameData d)))) w f = write_up d w f"
| "wsproxy_udp (FromClient (Done (Some FrameClose))) w f = (f, Continue)"
| "wsproxy_udp (FromClient (Done (Some FrameIgnore))) w f = (f, Continue)"
| "wsproxy_udp (FromClient (Done None)) w f = (f, Break)"
| "wsproxy_udp (FromUp (Done d)) w f = write_client d w f"
| "wsproxy_udp (FromClient (Failed m)) w f = (f, Fail m)"
| "wsproxy_udp (FromUp (Failed m)) w f = (f, Fail m)"
| "wsproxy_udp (Exited r) w f = (f, Continue)"

fun wsproxy_wispnet ::
    "(WebSocketFrame option, bytes option) event \<Rightarrow> unit io \<Rightarrow> fwd \<Rightarrow> fwd \<times> flow" where
  "wsproxy_wispnet (FromClient (Done (Some (FrameData d)))) w f = write_up d w f"
| "wsproxy_wispnet (FromClient (Done (Some FrameClose))) w f = shut_up w f"
| "wsproxy_wispnet (FromClient (Done (Some FrameIgnore))) w f = (f, Continue)"
| "wsproxy_wispnet (FromClient (Done None)) w f = (f, Break)"
| "wsproxy_wispnet (FromUp (Done (Some d))) w f = write_client d w f"
| "wsproxy_wispnet (FromUp (Done None)) w f = (f, Break)"
| "wsproxy_wispnet (FromClient (Failed m)) w f = (f, Fail m)"
| "wsproxy_wispnet (FromUp (Failed m)) w f = (f, Fail m)"
| "wsproxy_wispnet (Exited r) w f = (f, Continue)"

section \<open>What every loop keeps\<close>

definition event_fails :: "('c, 'u) event \<Rightarrow> unit io \<Rightarrow> rstring \<Rightarrow> bool" where
  "event_fails e w m \<longleftrightarrow>
     e = FromClient (Failed m) \<or> e = FromUp (Failed m) \<or> e = Exited (Failed m) \<or> w = Failed m"

text \<open>The payloads of a run in each direction, given what an item of either side carries.\<close>

definition client_payloads ::
    "('c \<Rightarrow> bytes list) \<Rightarrow> (('c, 'u) event \<times> unit io) list \<Rightarrow> bytes list" where
  "client_payloads g evs = concat (map (\<lambda>(e, w). case e of FromClient (Done x) \<Rightarrow> g x | _ \<Rightarrow> []) evs)"

definition up_payloads ::
    "('u \<Rightarrow> bytes list) \<Rightarrow> (('c, 'u) event \<times> unit io) list \<Rightarrow> bytes list" where
  "up_payloads g evs = concat (map (\<lambda>(e, w). case e of FromUp (Done x) \<Rightarrow> g x | _ \<Rightarrow> []) evs)"

definition event_ends :: "('c \<Rightarrow> bool) \<Rightarrow> ('u \<Rightarrow> bool) \<Rightarrow> ('c, 'u) event \<Rightarrow> bool" where
  "event_ends ce ue e = (case e of FromClient (Done x) \<Rightarrow> ce x | FromUp (Done x) \<Rightarrow> ue x
     | Exited (Done _) \<Rightarrow> True | _ \<Rightarrow> False)"

text \<open>
  The outcome of a run that stopped after \<open>n\<close> branches: it still waits, it saw the end of a side, or
  reading or writing failed, with that failure as its result.
\<close>

definition stopped_at ::
    "('c \<Rightarrow> bool) \<Rightarrow> ('u \<Rightarrow> bool) \<Rightarrow> (('c, 'u) event \<times> unit io) list \<Rightarrow> nat \<Rightarrow> unit io option \<Rightarrow> bool" where
  "stopped_at ce ue evs n r \<longleftrightarrow> (case r of
      None \<Rightarrow> n = length evs
    | Some (Done _) \<Rightarrow> n < length evs \<and> event_ends ce ue (fst (evs ! n))
    | Some (Failed m) \<Rightarrow> n < length evs \<and> event_fails (fst (evs ! n)) (snd (evs ! n)) m)"

lemma payloads_Nil [simp]: "client_payloads g [] = []" "up_payloads g [] = []"
  by (simp_all add: client_payloads_def up_payloads_def)

lemma payloads_Cons:
  "client_payloads g (ev # evs) = client_payloads g [ev] @ client_payloads g evs"
  "up_payloads h (ev # evs) = up_payloads h [ev] @ up_payloads h evs"
  by (simp_all add: client_payloads_def up_payloads_def)

lemma stopped_at_Suc: "stopped_at ce ue (ev # evs) (Suc n) r = stopped_at ce ue evs n r"
  by (simp add: stopped_at_def split: option.splits io.splits)

text \<open>
  A loop body that forwards: \<open>client_of\<close> and \<open>up_of\<close> are the payloads of an item of each side,
  \<open>client_end\<close> and \<open>up_end\<close> say that an item is the end of its side.
\<close>

locale forwarder =
  fixes body :: "('c, 'u) event \<Rightarrow> unit io \<Rightarrow> fwd \<Rightarrow> fwd \<times> flow"
    and client_of :: "'c \<Rightarrow> bytes list" and up_of :: "'u \<Rightarrow> bytes list"
    and client_end :: "'c \<Rightarrow> bool" and up_end :: "'u \<Rightarrow> bool"
  assumes forwards: "body e w f = (f', Continue) \<Longrightarrow>
      to_up f' = to_up f @ client_payloads client_of [(e, w)]
      \<and> to_client f' = to_client f @ up_payloads up_of [(e, w)]"
    and breaks: "body e w f = (f', Break) \<Longrightarrow> f' = f \<and> event_ends client_end up_end e"
    and fails: "body e w f = (f', Fail m) \<Longrightarrow> f' = f \<and> event_fails e w m"
begin

lemma copy_loop_exact:
  assumes "copy_loop body evs f = (f', r)"
  shows "\<exists>n \<le> length evs. to_up f' = to_up f @ client_payloads client_of (take n evs)
    \<and> to_client f' = to_client f @ up_payloads up_of (take n evs)
    \<and> stopped_at client_end up_end evs n r"
  using assms
proof (induction evs arbitrary: f)
  case Nil
  then show ?case by (auto simp: stopped_at_def)
next
  case (Cons ev evs)
  obtain e w where ev: "ev = (e, w)" by (cases ev)
  obtain g fl where b: "body e w f = (g, fl)" by force
  show ?case
  proof (cases fl)
    case Continue
    with Cons.prems b have "copy_loop body evs g = (f', r)" by (simp add: ev)
    from Cons.IH [OF this] obtain n where n: "n \<le> length evs"
      "to_up f' = to_up g @ client_payloads client_of (take n evs)"
      "to_client f' = to_client g @ up_payloads up_of (take n evs)" "stopped_at client_end up_end evs n r"
      by blast
    with forwards [OF b [unfolded Continue]] show ?thesis
      by (intro exI [of _ "Suc n"])
        (simp add: ev stopped_at_Suc payloads_Cons [of _ "(e, w)" "take n evs"])
  next
    case Break
    with Cons.prems b breaks [OF b [unfolded Break]] show ?thesis
      by (intro exI [of _ 0]) (auto simp: ev stopped_at_def)
  next
    case (Fail m)
    with Cons.prems b fails [OF b [unfolded Fail]] show ?thesis
      by (intro exI [of _ 0]) (auto simp: ev stopped_at_def)
  qed
qed

end

text \<open>Items: a buffer whose emptiness is the end, a datagram, an optional payload, a websocket frame.\<close>

definition chunk :: "bytes \<Rightarrow> bytes list" where
  "chunk d = (if d = [] then [] else [d])"

definition datagram :: "bytes \<Rightarrow> bytes list" where
  "datagram d = [d]"

definition item :: "bytes option \<Rightarrow> bytes list" where
  "item x = (case x of None \<Rightarrow> [] | Some d \<Rightarrow> [d])"

definition frame :: "WebSocketFrame option \<Rightarrow> bytes list" where
  "frame x = (case x of Some (FrameData d) \<Rightarrow> [d] | _ \<Rightarrow> [])"

definition frame_chunk :: "WebSocketFrame option \<Rightarrow> bytes list" where
  "frame_chunk x = (case x of Some (FrameData d) \<Rightarrow> chunk d | _ \<Rightarrow> [])"

definition never :: "bytes \<Rightarrow> bool" where
  "never d \<longleftrightarrow> False"

lemmas forward_defs = client_payloads_def up_payloads_def event_ends_def event_fails_def chunk_def datagram_def
  item_def frame_def frame_chunk_def never_def write_up_def write_client_def shut_up_def

interpretation copy_fast: forwarder copy_fast chunk chunk "\<lambda>d. d = []" "\<lambda>d. d = []"
  by unfold_locales
    (erule copy_fast.elims; auto simp: forward_defs split: if_splits io.splits)+

interpretation copy_twisp: forwarder copy_twisp chunk chunk "\<lambda>d. d = []" "\<lambda>d. d = []"
proof
  fix e w f f' m
  have other: "copy_twisp e w f = copy_fast e w f" if "\<not> (\<exists>r. e = Exited r)"
    using that by (cases e) auto
  show "copy_twisp e w f = (f', Continue) \<Longrightarrow> to_up f' = to_up f @ client_payloads chunk [(e, w)]
      \<and> to_client f' = to_client f @ up_payloads chunk [(e, w)]"
    using other copy_fast.forwards [of e w f f'] by (cases e) (auto split: io.splits)
  show "copy_twisp e w f = (f', Break) \<Longrightarrow> f' = f \<and> event_ends (\<lambda>d. d = []) (\<lambda>d. d = []) e"
    using other copy_fast.breaks [of e w f f'] by (cases e) (auto simp: event_ends_def split: io.splits)
  show "copy_twisp e w f = (f', Fail m) \<Longrightarrow> f' = f \<and> event_fails e w m"
    using other copy_fast.fails [of e w f f' m] by (cases e) (auto simp: event_fails_def split: io.splits)
qed

interpretation copy_udp: forwarder copy_udp item chunk "\<lambda>x. x = None" never
  by unfold_locales
    (erule copy_udp.elims; auto simp: forward_defs split: if_splits io.splits)+

interpretation copy_wisp: forwarder copy_wisp item item "\<lambda>x. x = None" "\<lambda>x. x = None"
  by unfold_locales
    (erule copy_wisp.elims; auto simp: forward_defs split: if_splits io.splits)+

interpretation wsproxy_tcp: forwarder wsproxy_tcp frame_chunk chunk "\<lambda>x. x = None" "\<lambda>d. d = []"
  by unfold_locales
    (erule wsproxy_tcp.elims; auto simp: forward_defs split: if_splits io.splits)+

interpretation wsproxy_udp: forwarder wsproxy_udp frame datagram "\<lambda>x. x = None" never
  by unfold_locales
    (erule wsproxy_udp.elims; auto simp: forward_defs split: if_splits io.splits)+

interpretation wsproxy_wispnet: forwarder wsproxy_wispnet frame item "\<lambda>x. x = None" "\<lambda>x. x = None"
  by unfold_locales
    (erule wsproxy_wispnet.elims; auto simp: forward_defs split: if_splits io.splits)+

section \<open>Properties\<close>


text \<open>
  The same holds between a websocket of the legacy protocol and a TCP socket: what reaches the socket is the
  data of the non-empty binary and text frames in order, and a close frame only shuts down writing.
\<close>

theorem wsproxy_forward_exact:
  assumes "copy_loop wsproxy_tcp evs f = (f', r)"
  shows "\<exists>n \<le> length evs. to_up f' = to_up f @ client_payloads frame_chunk (take n evs)
    \<and> to_client f' = to_client f @ up_payloads chunk (take n evs)
    \<and> stopped_at (\<lambda>x. x = None) (\<lambda>d. d = []) evs n r"
  by (rule wsproxy_tcp.copy_loop_exact [OF assms])

definition demo_fwd :: fwd where
  "demo_fwd = \<lparr>to_up = [], to_client = [], up_shut = False\<rparr>"

definition demo_tcp_run :: "((bytes, bytes) event \<times> unit io) list" where
  "demo_tcp_run = [(FromClient (Done [1]), Done ()), (FromUp (Done [9]), Done ()),
     (FromClient (Done [2]), Done ()), (FromUp (Done []), Done ())]"

definition demo_wsproxy_run :: "((WebSocketFrame option, bytes) event \<times> unit io) list" where
  "demo_wsproxy_run = [(FromClient (Done (Some (FrameData [1]))), Done ()), (FromUp (Done [9]), Done ()),
     (FromClient (Done (Some FrameClose)), Failed [3])]"


theorem wsproxy_forward_exact_witness:
  "\<exists>n \<le> length demo_wsproxy_run. [[1]] = client_payloads frame_chunk (take n demo_wsproxy_run)
    \<and> [[9]] = up_payloads chunk (take n demo_wsproxy_run)
    \<and> stopped_at (\<lambda>x. x = None) (\<lambda>d. d = []) demo_wsproxy_run n (Some (Failed [3]))"
proof -
  have "copy_loop wsproxy_tcp demo_wsproxy_run demo_fwd =
      (\<lparr>to_up = [[1]], to_client = [[9]], up_shut = False\<rparr>, Some (Failed [3]))"
    by (simp add: demo_wsproxy_run_def demo_fwd_def write_up_def write_client_def shut_up_def)
  from wsproxy_forward_exact [OF this] show ?thesis by (simp add: demo_fwd_def)
qed

text \<open>A terminal is registered while it is copied, and not after.\<close>

lemma twisp_registered:
  "handle_twisp i fd tmap evs f = (tmap', f', r) \<Longrightarrow>
     tmap' i = (if r = None then Some fd else None) \<and> (\<forall>j. j \<noteq> i \<longrightarrow> tmap' j = tmap j)"
  by (auto simp: handle_twisp_def split: prod.splits option.splits)

end
