(* ===== verification/Handshake.thy ===== *)
theory Handshake
  imports Mux_Inner
begin

text \<open>
  The handshake of the two roles and the creation of a multiplexor, \<open>wisp/src/mux/mod.rs\<close>,
  \<open>mux/client.rs\<close>, \<open>mux/server.rs\<close>.

  The read half of the transport is the list of messages it yields, the write half the record
  \<open>ws_write\<close>; every function returns what is left of both. The middleware closure that may
  rewrite the builders is a parameter, carried by the settings as in the code. No extension
  of the repository does anything in its \<open>handle_handshake\<close>, so that hook is the identity.
\<close>

section \<open>mux/mod.rs\<close>

datatype WispHandshakeResultKind = V2 "AnyProtocolExtension list" | V1 "Packet option"

record WispHandshakeResult =
  kind :: WispHandshakeResultKind
  downgraded :: bool
  hs_buffer_size :: u32

fun into_parts :: "WispHandshakeResultKind \<Rightarrow> AnyProtocolExtension list \<times> Packet option" where
  "into_parts (V2 exts) = (exts, None)"
| "into_parts (V1 packet) = ([UdpExtension], packet)"

record WispV2Handshake =
  builders :: "AnyProtocolExtensionBuilder list"
  closure :: "AnyProtocolExtensionBuilder list \<Rightarrow> AnyProtocolExtensionBuilder list \<times> unit wres"

definition WispV2Handshake_new :: "AnyProtocolExtensionBuilder list \<Rightarrow> WispV2Handshake" where
  "WispV2Handshake_new bs = \<lparr>builders = bs, closure = (\<lambda>b. (b, Ok ()))\<rparr>"

definition add_extension :: "AnyProtocolExtensionBuilder \<Rightarrow> WispV2Handshake \<Rightarrow> WispV2Handshake" where
  "add_extension x v = v\<lparr>builders := builders v @ [x]\<rparr>"

text \<open>\<open>iter_mut().map(build_to_extension).collect::<Result<Vec<_>, _>>()\<close>: stops at the first error.\<close>

fun build_extensions ::
    "crypto \<Rightarrow> Role \<Rightarrow> AnyProtocolExtensionBuilder list
      \<Rightarrow> AnyProtocolExtensionBuilder list \<times> AnyProtocolExtension list wres" where
  "build_extensions cr role [] = ([], Ok [])"
| "build_extensions cr role (b # bs) = (case build_to_extension cr b role of
      (b, Ok x) \<Rightarrow> (case build_extensions cr role bs of
          (bs, r) \<Rightarrow> (b # bs, res_map (\<lambda>xs. x # xs) r))
    | (b, Err e) \<Rightarrow> (b # bs, Err e)
    | (b, Panic) \<Rightarrow> (b # bs, Panic))"

definition send_info_packet ::
    "crypto \<Rightarrow> ws_write \<Rightarrow> AnyProtocolExtensionBuilder list \<Rightarrow> Role
      \<Rightarrow> ws_write \<times> AnyProtocolExtensionBuilder list \<times> unit wres" where
  "send_info_packet cr w bs role = (case build_extensions cr role bs of
      (bs, Ok exts) \<Rightarrow>
        (case InfoPacket_encode \<lparr>version = WISP_VERSION, extensions = exts\<rparr> of
           Ok packet \<Rightarrow> (case ws_send packet w of (w, r) \<Rightarrow> (w, bs, r))
         | Err e \<Rightarrow> (w, bs, Err e)
         | Panic \<Rightarrow> (w, bs, Panic))
    | (bs, Err e) \<Rightarrow> (w, bs, Err e)
    | (bs, Panic) \<Rightarrow> (w, bs, Panic))"

definition validate_continue_packet :: "Packet \<Rightarrow> u32 wres" where
  "validate_continue_packet packet =
    (if stream_id packet \<noteq> 0 then Err (InvalidStreamId (stream_id packet))
     else (case packet_type packet of
        Continue c \<Rightarrow> Ok (buffer_remaining c)
      | _ \<Rightarrow> Err (InvalidPacketType (get_type (packet_type packet)))))"

definition get_supported_extensions ::
    "AnyProtocolExtension list \<Rightarrow> AnyProtocolExtensionBuilder list \<Rightarrow> AnyProtocolExtension list" where
  "get_supported_extensions exts bs =
    (let ids = map builder_get_id bs in filter (\<lambda>x. extension_get_id x \<in> set ids) exts)"

definition handle_handshake :: "AnyProtocolExtension list \<Rightarrow> unit wres" where
  "handle_handshake exts = Ok ()"

section \<open>mux/client.rs\<close>

text \<open>\<open>Packet::decode(rx.next_erroring().await?)\<close> followed by \<open>validate_continue_packet\<close>.\<close>

definition read_buffer_size :: "bytes wres list \<Rightarrow> (u32 \<times> bytes wres list) wres" where
  "read_buffer_size rx =
     res_bind (next_erroring rx) (\<lambda>(msg, rx).
     res_bind (Packet_decode msg) (\<lambda>packet.
     res_bind (validate_continue_packet packet) (\<lambda>n. Ok (n, rx))))"

definition client_v2_info ::
    "crypto \<Rightarrow> bytes wres list \<Rightarrow> ws_write \<Rightarrow> WispV2Handshake \<Rightarrow> AnyProtocolExtensionBuilder list
      \<Rightarrow> InfoPacket \<Rightarrow> ws_write \<times> (WispHandshakeResult \<times> bytes wres list) wres" where
  "client_v2_info cr rx w v bs info = (case closure v bs of
      (bs, Ok _) \<Rightarrow>
        (case send_info_packet cr w bs Client of
           (w, bs, Ok _) \<Rightarrow>
             (w, let exts = get_supported_extensions (extensions info) bs
                 in res_bind (handle_handshake exts) (\<lambda>_.
                    res_bind (read_buffer_size rx) (\<lambda>(n, rx).
                      Ok (\<lparr>kind = V2 exts, downgraded = False, hs_buffer_size = n\<rparr>, rx))))
         | (w, bs, Err e) \<Rightarrow> (w, Err e)
         | (w, bs, Panic) \<Rightarrow> (w, Panic))
    | (bs, Err e) \<Rightarrow> (w, Err e)
    | (bs, Panic) \<Rightarrow> (w, Panic))"

definition client_handshake ::
    "crypto \<Rightarrow> bytes wres list \<Rightarrow> ws_write \<Rightarrow> WispV2Handshake option
      \<Rightarrow> ws_write \<times> (WispHandshakeResult \<times> bytes wres list) wres" where
  "client_handshake cr rx w v2 = (case v2 of
      None \<Rightarrow> (w, res_bind (read_buffer_size rx) (\<lambda>(n, rx).
                 Ok (\<lparr>kind = V1 None, downgraded = False, hs_buffer_size = n\<rparr>, rx)))
    | Some v \<Rightarrow>
        (case next_erroring rx of
           Err e \<Rightarrow> (w, Err e)
         | Panic \<Rightarrow> (w, Panic)
         | Ok (msg, rx) \<Rightarrow>
             (case MaybeInfoPacket_decode cr msg (builders v) Client of
                (bs, Err e) \<Rightarrow> (w, Err e)
              | (bs, Panic) \<Rightarrow> (w, Panic)
              | (bs, Ok (MIInfo info)) \<Rightarrow> client_v2_info cr rx w v bs info
              | (bs, Ok (MIPacket packet)) \<Rightarrow>
                  (w, res_bind (validate_continue_packet packet) (\<lambda>n.
                        Ok (\<lparr>kind = V1 None, downgraded = True, hs_buffer_size = n\<rparr>, rx))))))"

definition client_handle_error :: "WispError \<Rightarrow> WispError wres" where
  "client_handle_error err = Ok err"

text \<open>The checks of \<open>new_stream\<close>, and the event it sends when they pass.\<close>

definition new_stream ::
    "bool \<Rightarrow> AnyProtocolExtension list \<Rightarrow> StreamType \<Rightarrow> rstring \<Rightarrow> u16 \<Rightarrow> nat \<Rightarrow> WsEvent wres" where
  "new_stream mux_gone exts ty h p ch =
    (if mux_gone then Err MuxTaskEnded
     else if ty = Udp \<and> \<not> list_ex (\<lambda>x. extension_get_id x = Udp_ID) exts
     then Err (ExtensionsNotSupported [Udp_ID])
     else Ok (EvCreateStream \<lparr>stream_type = ty, host = h, port = p\<rparr> ch))"

section \<open>mux/server.rs\<close>

definition server_handshake ::
    "crypto \<Rightarrow> u32 \<Rightarrow> bytes wres list \<Rightarrow> ws_write \<Rightarrow> WispV2Handshake option
      \<Rightarrow> ws_write \<times> (WispHandshakeResult \<times> bytes wres list) wres" where
  "server_handshake cr bsize rx w v2 = (case v2 of
      None \<Rightarrow>
        (case ws_send (Packet_encode (new_continue 0 bsize)) w of
           (w, r) \<Rightarrow> (w, res_bind r (\<lambda>_.
              Ok (\<lparr>kind = V1 None, downgraded = False, hs_buffer_size = bsize\<rparr>, rx))))
    | Some v \<Rightarrow>
        (case send_info_packet cr w (builders v) Server of
           (w, bs, Err e) \<Rightarrow> (w, Err e)
         | (w, bs, Panic) \<Rightarrow> (w, Panic)
         | (w, bs, Ok _) \<Rightarrow>
        (case closure v bs of
           (bs, Err e) \<Rightarrow> (w, Err e)
         | (bs, Panic) \<Rightarrow> (w, Panic)
         | (bs, Ok _) \<Rightarrow>
        (case next_erroring rx of
           Err e \<Rightarrow> (w, Err e)
         | Panic \<Rightarrow> (w, Panic)
         | Ok (msg, rx) \<Rightarrow>
        (case MaybeInfoPacket_decode cr msg bs Server of
           (bs, Err e) \<Rightarrow> (w, Err e)
         | (bs, Panic) \<Rightarrow> (w, Panic)
         | (bs, Ok (MIInfo info)) \<Rightarrow>
             (let exts = get_supported_extensions (extensions info) bs
              in case handle_handshake exts of
                   Err e \<Rightarrow> (w, Err e)
                 | Panic \<Rightarrow> (w, Panic)
                 | Ok _ \<Rightarrow>
                     (case ws_send (Packet_encode (new_continue 0 bsize)) w of
                        (w, r) \<Rightarrow> (w, res_bind r (\<lambda>_.
                          Ok (\<lparr>kind = V2 exts, downgraded = False, hs_buffer_size = bsize\<rparr>, rx)))))
         | (bs, Ok (MIPacket packet)) \<Rightarrow>
             (w, Ok (\<lparr>kind = V1 (Some packet), downgraded = True, hs_buffer_size = bsize\<rparr>, rx)))))))"

text \<open>\<open>close_res\<close>: the answer of the transport to \<open>close\<close>.\<close>

definition server_handle_error ::
    "unit wres \<Rightarrow> WispError \<Rightarrow> ws_write \<Rightarrow> ws_write \<times> WispError wres" where
  "server_handle_error close_res err w = (case err of
      PasswordExtensionCredsInvalid \<Rightarrow>
        (case ws_send (Packet_encode (new_close 0 ExtensionsPasswordAuthFailed)) w of
           (w, r) \<Rightarrow> (w, res_bind r (\<lambda>_. res_bind close_res (\<lambda>_. Ok err))))
    | CertAuthExtensionSigInvalid \<Rightarrow>
        (case ws_send (Packet_encode (new_close 0 ExtensionsCertAuthFailed)) w of
           (w, r) \<Rightarrow> (w, res_bind r (\<lambda>_. res_bind close_res (\<lambda>_. Ok err))))
    | x \<Rightarrow> (w, Ok x))"

section \<open>Multiplexor\<close>

record ('c, 'm) Multiplexor =
  mx_inner :: "('c, 'm) MuxInner"
  was_downgraded :: bool
  supported_extensions :: "AnyProtocolExtension list"
  mx_rx :: "bytes wres list"

text \<open>The success branch of \<open>create\<close>; the error branch is \<open>handle_error\<close> of the role.\<close>

definition create_mux ::
    "ws_write \<Rightarrow> 'm \<Rightarrow> 'c heap \<Rightarrow> ext_env \<Rightarrow> WispHandshakeResult \<times> bytes wres list
      \<Rightarrow> ('c, 'm) Multiplexor" where
  "create_mux w a h en = (\<lambda>(hr, rx). case into_parts (kind hr) of (exts, extra) \<Rightarrow>
     \<lparr>mx_inner = MuxInner_new w a extra exts (hs_buffer_size hr) h en,
      was_downgraded = downgraded hr, supported_extensions = exts, mx_rx = rx\<rparr>)"

definition server_create ::
    "crypto \<Rightarrow> unit wres \<Rightarrow> bytes wres list \<Rightarrow> ws_write \<Rightarrow> u32 \<Rightarrow> WispV2Handshake option
      \<Rightarrow> ServerState \<Rightarrow> 'c heap \<Rightarrow> ext_env \<Rightarrow> ws_write \<times> ('c, ServerState) Multiplexor wres" where
  "server_create cr close_res rx w bsize v2 a h en = (case server_handshake cr bsize rx w v2 of
      (w, Ok hr) \<Rightarrow> (w, Ok (create_mux w a h en hr))
    | (w, Err e) \<Rightarrow> (case server_handle_error close_res e w of
          (w, r) \<Rightarrow> (w, res_bind r (\<lambda>e. Err e)))
    | (w, Panic) \<Rightarrow> (w, Panic))"

definition client_create ::
    "crypto \<Rightarrow> bytes wres list \<Rightarrow> ws_write \<Rightarrow> WispV2Handshake option
      \<Rightarrow> 'c heap \<Rightarrow> ext_env \<Rightarrow> ws_write \<times> ('c, unit) Multiplexor wres" where
  "client_create cr rx w v2 h en = (case client_handshake cr rx w v2 of
      (w, Ok hr) \<Rightarrow> (w, Ok (create_mux w () h en hr))
    | (w, Err e) \<Rightarrow> (w, res_bind (client_handle_error e) (\<lambda>e. Err e))
    | (w, Panic) \<Rightarrow> (w, Panic))"

definition get_extension_ids :: "('c, 'm) Multiplexor \<Rightarrow> u8 list" where
  "get_extension_ids mx = map extension_get_id (supported_extensions mx)"

text \<open>
  \<open>with_required_extensions\<close>: when an id is missing, the task is told to end with reason
  \<open>ExtensionsIncompatible\<close> and is run; \<open>inps\<close> is what it receives before that event.
\<close>

definition missing_extensions :: "u8 list \<Rightarrow> AnyProtocolExtension list \<Rightarrow> u8 list" where
  "missing_extensions required exts =
     filter (\<lambda>i. \<not> list_ex (\<lambda>x. extension_get_id x = i) exts) required"

definition with_required_extensions ::
    "'c flume \<Rightarrow> ('c, 'm) actor_ops \<Rightarrow> u8 list \<Rightarrow> input list \<Rightarrow> ('c, 'm) Multiplexor
      \<Rightarrow> ('c, 'm) Multiplexor \<times> unit wres option" where
  "with_required_extensions fl ops required inps mx =
    (let missing = missing_extensions required (supported_extensions mx)
     in if missing = [] then (mx, Some (Ok ()))
        else (case into_future fl ops (inps @ [FromActor (EvEndFut (Some ExtensionsIncompatible))])
                     (mx_inner mx) of
                (m, None) \<Rightarrow> (mx\<lparr>mx_inner := m\<rparr>, None)
              | (m, Some r) \<Rightarrow> (mx\<lparr>mx_inner := m\<rparr>,
                  Some (res_bind r (\<lambda>_. Err (ExtensionsNotSupported missing))))))"

definition with_udp_extension_required ::
    "'c flume \<Rightarrow> ('c, 'm) actor_ops \<Rightarrow> input list \<Rightarrow> ('c, 'm) Multiplexor
      \<Rightarrow> ('c, 'm) Multiplexor \<times> unit wres option" where
  "with_udp_extension_required fl ops inps mx = with_required_extensions fl ops [Udp_ID] inps mx"

section \<open>Lemmas\<close>

lemma build_to_extension_D:
  assumes "build_to_extension cr b role = (b', r)"
  shows "builder_get_id b' = builder_get_id b" "r = Ok x \<Longrightarrow> extension_get_id x = builder_get_id b"
  using build_to_extension_id [of cr b role] build_to_extension_ext_id [of cr b role x] assms
  by simp_all

lemma build_extensions_cons_Ok:
  assumes "build_extensions cr role (b # bs) = (bs', Ok xs)"
  obtains b' x bs1 xs1 where "build_to_extension cr b role = (b', Ok x)"
    "build_extensions cr role bs = (bs1, Ok xs1)" "bs' = b' # bs1" "xs = x # xs1"
  using assms that by (auto simp: res_map_def split: prod.splits res.splits)

lemma build_extensions_ids:
  "build_extensions cr role bs = (bs', Ok xs) \<Longrightarrow>
     map builder_get_id bs' = map builder_get_id bs \<and> map extension_get_id xs = map builder_get_id bs"
proof (induction bs arbitrary: bs' xs)
  case (Cons b bs)
  from Cons.prems obtain b' x bs1 xs1 where
    parts: "build_to_extension cr b role = (b', Ok x)" "build_extensions cr role bs = (bs1, Ok xs1)"
      "bs' = b' # bs1" "xs = x # xs1"
    by (rule build_extensions_cons_Ok)
  with build_to_extension_D [OF parts(1)] Cons.IH [OF parts(2)] show ?case by simp
qed simp

lemma send_info_Ok:
  assumes "send_info_packet cr w bs role = (w', bs', Ok u)"
  obtains exts msg where "build_extensions cr role bs = (bs', Ok exts)"
    "InfoPacket_encode \<lparr>version = WISP_VERSION, extensions = exts\<rparr> = Ok msg"
    "ws_sent w' = ws_sent w @ [msg]"
  using assms that
  by (auto simp: send_info_packet_def ws_send_def split: prod.splits res.splits option.splits)

lemma get_supported_ids:
  "map extension_get_id (get_supported_extensions exts bs)
     = filter (\<lambda>i. i \<in> builder_get_id ` set bs) (map extension_get_id exts)"
  by (simp add: get_supported_extensions_def filter_map comp_def)

subsection \<open>INFO messages on the wire\<close>

lemma encode_extensions_append:
  "encode_extensions xs packet = Ok msg \<Longrightarrow> \<exists>rest. msg = packet @ rest"
proof (induction xs arbitrary: packet)
  case (Cons x xs)
  then show ?case by (fastforce simp: extension_encode_into_def res_bind_eq_Ok)
qed simp

lemma encode_extensions_encodable:
  "encode_extensions xs packet = Ok msg \<Longrightarrow> length msg < 2 ^ 32 \<Longrightarrow> \<forall>x \<in> set xs. encodable x"
proof (induction xs arbitrary: packet)
  case (Cons x xs)
  from Cons.prems(1) obtain packet' where x: "extension_encode_into x packet = Ok packet'"
    and xs: "encode_extensions xs packet' = Ok msg"
    by (auto simp: res_bind_eq_Ok)
  from encode_extensions_append [OF xs] Cons.prems(2) have "length packet' < 2 ^ 32" by auto
  with x have "encodable x"
    by (auto simp: extension_encode_into_def res_bind_eq_Ok encodable_def)
  with Cons.IH [OF xs Cons.prems(2)] show ?case by simp
qed simp

lemma info_message_head:
  assumes "InfoPacket_encode p = Ok msg"
  shows "\<exists>rest. msg = 5 # put_u32_le 0 @ rest"
  using encode_extensions_append [OF assms [unfolded InfoPacket_encode_def]]
  by (auto simp: WispVersion_encode_into_def put_u8_def put_u32_be_0)

lemma info_message_decode:
  assumes enc: "InfoPacket_encode \<lparr>version = WISP_VERSION, extensions = exts\<rparr> = Ok msg"
    and len: "length msg < 2 ^ 32"
    and dec: "MaybeInfoPacket_decode cr msg bs role = (bs', Ok q)"
  obtains out where "q = MIInfo \<lparr>version = WISP_VERSION, extensions = out\<rparr>"
    "map builder_get_id bs' = map builder_get_id bs"
    "map extension_get_id out = filter (\<lambda>i. i \<in> builder_get_id ` set bs) (map extension_get_id exts)"
proof -
  let ?p = "\<lparr>version = WISP_VERSION, extensions = exts\<rparr>"
  have encodable: "\<forall>x \<in> set (extensions ?p). encodable x"
    using encode_extensions_encodable [OF enc [unfolded InfoPacket_encode_def] len] by simp
  have "MaybeInfoPacket_decode cr msg bs role =
    (case build_all cr role (map tlv_of (extensions ?p)) bs [] of
       (b, r) \<Rightarrow>
         (b, res_bind r (\<lambda>exts. Ok (MIInfo \<lparr>version = version ?p, extensions = exts\<rparr>))))"
    by (rule info_decode_encoded [OF encodable _ enc]) (simp add: WISP_VERSION_def)
  with dec obtain out where out: "build_all cr role (map tlv_of exts) bs [] = (bs', Ok out)"
    and q: "q = MIInfo \<lparr>version = WISP_VERSION, extensions = out\<rparr>"
    by (auto simp: res_bind_eq_Ok split: prod.splits)
  from that [OF q build_all_ids(1) [OF out] build_all_items_ids [OF out]] show thesis .
qed

subsection \<open>Successful handshakes\<close>

lemma WispV2Handshake_new_sel [simp]:
  "builders (WispV2Handshake_new bs) = bs" "closure (WispV2Handshake_new bs) b = (b, Ok ())"
  by (simp_all add: WispV2Handshake_new_def)

lemma new_continue_decode: "Packet_decode (Packet_encode (new_continue i n)) = Ok (new_continue i n)"
  using packet_decode_encode_trail [of "new_continue i n" "[]"]
  by (simp add: new_continue_def Packet_ok_def PacketType_ok_def Packet_own_def PacketType_own_def)

lemma new_continue_valid [simp]: "validate_continue_packet (new_continue 0 n) = Ok n"
  by (simp add: validate_continue_packet_def new_continue_def)

lemma read_buffer_size_Ok: "read_buffer_size (Ok (Packet_encode (new_continue 0 n)) # rx) = Ok (n, rx)"
  by (simp add: read_buffer_size_def new_continue_decode)

lemma server_v2_Ok:
  assumes "server_handshake cr bsize (Ok ci # rest) w (Some (WispV2Handshake_new sbs)) = (w', Ok (hr, rx))"
    and "kind hr = V2 exts"
  obtains si sexts bs1 bs2 info where
    "build_extensions cr Server sbs = (bs1, Ok sexts)"
    "InfoPacket_encode \<lparr>version = WISP_VERSION, extensions = sexts\<rparr> = Ok si"
    "MaybeInfoPacket_decode cr ci bs1 Server = (bs2, Ok (MIInfo info))"
    "exts = get_supported_extensions (extensions info) bs2"
    "ws_sent w' = ws_sent w @ [si, Packet_encode (new_continue 0 bsize)]"
    "hr = \<lparr>kind = V2 exts, downgraded = False, hs_buffer_size = bsize\<rparr>" "rx = rest"
proof -
  obtain w1 bs1 where send: "send_info_packet cr w sbs Server = (w1, bs1, Ok ())"
    using assms(1) by (auto simp: server_handshake_def split: prod.splits res.splits)
  obtain sexts si where si: "build_extensions cr Server sbs = (bs1, Ok sexts)"
    "InfoPacket_encode \<lparr>version = WISP_VERSION, extensions = sexts\<rparr> = Ok si"
    "ws_sent w1 = ws_sent w @ [si]"
    by (rule send_info_Ok [OF send])
  obtain bs2 q where q: "MaybeInfoPacket_decode cr ci bs1 Server = (bs2, Ok q)"
    using assms(1) by (auto simp: server_handshake_def send split: prod.splits res.splits)
  show thesis
    using assms that [OF si(1,2)]
    by (cases q) (auto simp: server_handshake_def send q si(3) Let_def handle_handshake_def ws_send_def
        split: prod.splits option.splits)
qed

lemma client_v2_Ok:
  assumes "client_handshake cr (Ok si # rest) w (Some (WispV2Handshake_new cbs)) = (w', Ok (hr, rx))"
    and "kind hr = V2 exts"
  obtains ci cexts bs1 bs2 info where
    "MaybeInfoPacket_decode cr si cbs Client = (bs1, Ok (MIInfo info))"
    "build_extensions cr Client bs1 = (bs2, Ok cexts)"
    "InfoPacket_encode \<lparr>version = WISP_VERSION, extensions = cexts\<rparr> = Ok ci"
    "exts = get_supported_extensions (extensions info) bs2"
    "ws_sent w' = ws_sent w @ [ci]" "read_buffer_size rest = Ok (hs_buffer_size hr, rx)"
    "\<not> downgraded hr"
proof -
  obtain bs1 q where q: "MaybeInfoPacket_decode cr si cbs Client = (bs1, Ok q)"
    using assms(1) by (auto simp: client_handshake_def split: prod.splits res.splits)
  obtain info where info: "q = MIInfo info"
    using assms by (cases q) (auto simp: client_handshake_def q)
  obtain w1 bs2 where send: "send_info_packet cr w bs1 Client = (w1, bs2, Ok ())"
    using assms(1) by (auto simp: client_handshake_def client_v2_info_def q info split: prod.splits res.splits)
  obtain cexts ci where ci: "build_extensions cr Client bs1 = (bs2, Ok cexts)"
    "InfoPacket_encode \<lparr>version = WISP_VERSION, extensions = cexts\<rparr> = Ok ci"
    "ws_sent w1 = ws_sent w @ [ci]"
    by (rule send_info_Ok [OF send])
  show thesis
    using assms that [OF q [unfolded info] ci(1,2)] ci(3)
    by (auto simp: client_handshake_def client_v2_info_def q info send Let_def handle_handshake_def)
qed

text \<open>
  C9. Both ends of a Wisp v2 handshake agree. When the client reads what the server sent and the server
  reads what the client sent (messages under 4 GiB) and both succeed with a v2 result, they use the
  same buffer size, the server's, and the same set of extension ids, those that both offered: the
  server sees the client's ids it also has, in the client's order, and the client the server's.
\<close>

theorem handshake_agreement:
  assumes server: "server_handshake cs bsize [Ok ci] ws (Some (WispV2Handshake_new sbs)) = (ws', Ok (hs, rs))"
    and client: "client_handshake cc [Ok si, Ok ct] wc (Some (WispV2Handshake_new cbs)) = (wc', Ok (hc, rc))"
    and wire: "ws_sent ws' = ws_sent ws @ [si, ct]" "ws_sent wc' = ws_sent wc @ [ci]"
    and small: "length si < 2 ^ 32" "length ci < 2 ^ 32"
    and v2: "kind hs = V2 se" "kind hc = V2 ce"
  shows "hs_buffer_size hs = bsize \<and> hs_buffer_size hc = bsize \<and> \<not> downgraded hs \<and> \<not> downgraded hc
    \<and> map extension_get_id se = filter (\<lambda>i. i \<in> builder_get_id ` set sbs) (map builder_get_id cbs)
    \<and> map extension_get_id ce = filter (\<lambda>i. i \<in> builder_get_id ` set cbs) (map builder_get_id sbs)
    \<and> set (map extension_get_id se) = set (map extension_get_id ce)"
proof -
  obtain si' sx s1 s2 sinfo where s: "build_extensions cs Server sbs = (s1, Ok sx)"
    "InfoPacket_encode \<lparr>version = WISP_VERSION, extensions = sx\<rparr> = Ok si'"
    "MaybeInfoPacket_decode cs ci s1 Server = (s2, Ok (MIInfo sinfo))"
    "se = get_supported_extensions (extensions sinfo) s2"
    "ws_sent ws' = ws_sent ws @ [si', Packet_encode (new_continue 0 bsize)]"
    "hs = \<lparr>kind = V2 se, downgraded = False, hs_buffer_size = bsize\<rparr>"
    by (rule server_v2_Ok [OF server v2(1)])
  obtain ci' cx c1 c2 cinfo where c: "MaybeInfoPacket_decode cc si cbs Client = (c1, Ok (MIInfo cinfo))"
    "build_extensions cc Client c1 = (c2, Ok cx)"
    "InfoPacket_encode \<lparr>version = WISP_VERSION, extensions = cx\<rparr> = Ok ci'"
    "ce = get_supported_extensions (extensions cinfo) c2"
    "ws_sent wc' = ws_sent wc @ [ci']" "read_buffer_size [Ok ct] = Ok (hs_buffer_size hc, rc)"
    "\<not> downgraded hc"
    by (rule client_v2_Ok [OF client v2(2)])
  have msgs: "si' = si" "ct = Packet_encode (new_continue 0 bsize)" "ci' = ci"
    using s(5) c(5) wire by auto
  obtain so where so: "MIInfo sinfo = MIInfo \<lparr>version = WISP_VERSION, extensions = so\<rparr>"
    "map builder_get_id s2 = map builder_get_id s1"
    "map extension_get_id so = filter (\<lambda>i. i \<in> builder_get_id ` set s1) (map extension_get_id cx)"
    by (rule info_message_decode [OF c(3) [unfolded msgs] small(2) s(3)])
  obtain co where co: "MIInfo cinfo = MIInfo \<lparr>version = WISP_VERSION, extensions = co\<rparr>"
    "map builder_get_id c1 = map builder_get_id cbs"
    "map extension_get_id co = filter (\<lambda>i. i \<in> builder_get_id ` set cbs) (map extension_get_id sx)"
    by (rule info_message_decode [OF s(2) [unfolded msgs] small(1) c(1)])
  note ids = build_extensions_ids [OF s(1)] build_extensions_ids [OF c(2)] so(2,3) co(2,3)
  have sets: "builder_get_id ` set s2 = builder_get_id ` set sbs" "builder_get_id ` set s1 = builder_get_id ` set sbs"
    "builder_get_id ` set c2 = builder_get_id ` set cbs"
    using ids by (metis list.set_map)+
  have se: "map extension_get_id se = filter (\<lambda>i. i \<in> builder_get_id ` set sbs) (map builder_get_id cbs)"
    using so(1) ids by (simp add: s(4) get_supported_ids sets)
  have ce: "map extension_get_id ce = filter (\<lambda>i. i \<in> builder_get_id ` set cbs) (map builder_get_id sbs)"
    using co(1) ids by (simp add: c(4) get_supported_ids sets)
  have "hs_buffer_size hc = bsize" using c(6) by (simp add: msgs read_buffer_size_Ok)
  moreover have "set (map extension_get_id se) = set (map extension_get_id ce)"
    unfolding se ce by auto
  ultimately show ?thesis using s(6) c(7) se ce by simp
qed

definition demo_server_builders :: "AnyProtocolExtensionBuilder list" where
  "demo_server_builders = [UdpBuilder, MotdBuilder (MotdServer [104, 105]), TWispBuilder]"

definition demo_client_builders :: "AnyProtocolExtensionBuilder list" where
  "demo_client_builders = [MotdBuilder MotdClient, UdpBuilder]"

lemmas handshake_eval = server_handshake_def client_handshake_def client_v2_info_def send_info_packet_def
  demo_server_builders_def demo_client_builders_def demo_ws_def ws_send_def handle_handshake_def
  build_to_extension_def Motd_build_to_extension_def res_map_def InfoPacket_encode_def
  extension_encode_into_def extension_encode_def Motd_encode_def extension_get_id_def builder_get_id_def
  WISP_VERSION_def WispVersion_encode_into_def put_u8_def put_u32_be_0 Udp_ID_def Motd_ID_def TWisp_ID_def

lemmas info_decode_eval = MaybeInfoPacket_decode_info InfoPacket_decode_def decode_extensions_cons
  decode_extensions_cons [where rest = "[]", simplified] decode_extensions_short build_from_bytes_def
  Motd_build_from_bytes_def

definition demo_server_info :: bytes where
  "demo_server_info =
     5 # put_u32_le 0 @ [2, 0, 1] @ put_u32_le 0 @ 4 # put_u32_le 2 @ [104, 105] @ 0xF0 # put_u32_le 0"

definition demo_client_info :: bytes where
  "demo_client_info = 5 # put_u32_le 0 @ [2, 0, 4] @ put_u32_le 0 @ 1 # put_u32_le 0"

lemma demo_server_handshake:
  "server_handshake demo_crypto 32 [Ok demo_client_info] demo_ws
     (Some (WispV2Handshake_new demo_server_builders)) =
   (demo_ws\<lparr>ws_sent := [demo_server_info, Packet_encode (new_continue 0 32)]\<rparr>,
    Ok (\<lparr>kind = V2 [MotdExtension \<lparr>motd_role = Server, motd = []\<rparr>, UdpExtension],
         downgraded = False, hs_buffer_size = 32\<rparr>, []))"
  by (simp add: handshake_eval info_decode_eval demo_client_info_def demo_server_info_def
      get_supported_extensions_def)

lemma demo_client_handshake:
  "client_handshake demo_crypto [Ok demo_server_info, Ok (Packet_encode (new_continue 0 32))] demo_ws
     (Some (WispV2Handshake_new demo_client_builders)) =
   (demo_ws\<lparr>ws_sent := [demo_client_info]\<rparr>,
    Ok (\<lparr>kind = V2 [UdpExtension, MotdExtension \<lparr>motd_role = Client, motd = [104, 105]\<rparr>],
         downgraded = False, hs_buffer_size = 32\<rparr>, []))"
  by (simp add: handshake_eval info_decode_eval demo_client_info_def demo_server_info_def
      get_supported_extensions_def read_buffer_size_Ok)

theorem handshake_agreement_witness:
  "\<exists>hs hc. snd (server_handshake demo_crypto 32 [Ok demo_client_info] demo_ws
        (Some (WispV2Handshake_new demo_server_builders))) = Ok (hs, [])
    \<and> snd (client_handshake demo_crypto [Ok demo_server_info, Ok (Packet_encode (new_continue 0 32))]
        demo_ws (Some (WispV2Handshake_new demo_client_builders))) = Ok (hc, [])
    \<and> hs_buffer_size hs = 32 \<and> hs_buffer_size hc = 32"
  using handshake_agreement [OF demo_server_handshake demo_client_handshake]
  unfolding demo_server_handshake demo_client_handshake
  by (simp add: demo_ws_def demo_client_info_def demo_server_info_def)

section \<open>Authentication\<close>

text \<open>
  The password builders of a server that was configured with \<open>users\<close>, before and after the client's
  INFO, and the extensions they may produce.
\<close>

definition password_builder_ok :: "(rstring \<rightharpoonup> rstring) \<Rightarrow> AnyProtocolExtensionBuilder \<Rightarrow> bool" where
  "password_builder_ok users b = (case b of
      PasswordBuilder (PwbServerBeforeClientInfo us r) \<Rightarrow> us = users
    | PasswordBuilder (PwbServerAfterClientInfo us r) \<Rightarrow> us = users
    | PasswordBuilder _ \<Rightarrow> False
    | _ \<Rightarrow> True)"

definition password_extension_ok :: "(rstring \<rightharpoonup> rstring) \<Rightarrow> AnyProtocolExtension \<Rightarrow> bool" where
  "password_extension_ok users x = (case x of
      PasswordExtension (PwServerAfterClientInfo u p) \<Rightarrow> users u = Some p
    | PasswordExtension _ \<Rightarrow> False
    | _ \<Rightarrow> True)"

text \<open>
  The certificate builders of a server that was configured with \<open>keys\<close>; once the challenge is out it
  is the one drawn from the random source.
\<close>

definition cert_builder_ok :: "crypto \<Rightarrow> VerifyKey list \<Rightarrow> AnyProtocolExtensionBuilder \<Rightarrow> bool" where
  "cert_builder_ok cr keys b = (case b of
      CertAuthBuilder (ServerBeforeChallenge ks r) \<Rightarrow> ks = keys
    | CertAuthBuilder (ServerAfterChallenge ks c r) \<Rightarrow> ks = keys \<and> getrandom_fill cr = Some c
    | CertAuthBuilder _ \<Rightarrow> False
    | _ \<Rightarrow> True)"

definition cert_extension_ok :: "crypto \<Rightarrow> VerifyKey list \<Rightarrow> AnyProtocolExtension \<Rightarrow> bool" where
  "cert_extension_ok cr keys x = (case x of
      CertAuthExtension y \<Rightarrow> y = ServerVerified
        \<and> (\<exists>c sig. getrandom_fill cr = Some c \<and> (\<exists>k \<in> set keys. verifier k c sig))
    | _ \<Rightarrow> True)"

text \<open>
  What the handshake needs of such a pair of predicates: every builder keeps its property, and with
  it produces only good extensions from received bytes.
\<close>

locale builder_guard =
  fixes good :: "AnyProtocolExtensionBuilder \<Rightarrow> bool" and fine :: "AnyProtocolExtension \<Rightarrow> bool"
    and cr :: crypto
  assumes to_extension: "good b \<Longrightarrow> good (fst (build_to_extension cr b Server))"
    and from_bytes: "good b \<Longrightarrow> good (fst (build_from_bytes cr b bs Server))"
    and built: "good b \<Longrightarrow> snd (build_from_bytes cr b bs Server) = Ok x \<Longrightarrow> fine x"
begin

lemma build_extensions_good:
  "\<forall>b \<in> set bs. good b \<Longrightarrow> build_extensions cr Server bs = (bs', r) \<Longrightarrow> \<forall>b \<in> set bs'. good b"
proof (induction bs arbitrary: bs' r)
  case (Cons b bs)
  then have "good (fst (build_to_extension cr b Server))" by (simp add: to_extension)
  with Cons show ?case by (auto split: prod.splits res.splits)
qed simp

lemma build_first_good:
  "\<forall>b \<in> set bs. good b \<Longrightarrow> build_first cr i payload Server bs = Some (bs', r) \<Longrightarrow>
     (\<forall>b \<in> set bs'. good b) \<and> (\<forall>x. r = Ok x \<longrightarrow> fine x)"
proof (induction bs arbitrary: bs')
  case (Cons b bs)
  have "good (fst (build_from_bytes cr b payload Server))"
    "\<And>x. snd (build_from_bytes cr b payload Server) = Ok x \<Longrightarrow> fine x"
    using Cons.prems(1) from_bytes built by auto
  with Cons show ?case by (auto split: if_splits prod.splits)
qed simp

lemma build_all_good:
  "\<forall>b \<in> set bs. good b \<Longrightarrow> \<forall>x \<in> set exts. fine x \<Longrightarrow>
     build_all cr Server items bs exts = (bs', r) \<Longrightarrow> \<forall>xs. r = Ok xs \<longrightarrow> (\<forall>x \<in> set xs. fine x)"
proof (induction items arbitrary: bs exts)
  case (Cons item items)
  obtain i payload where item: "item = (i, payload)" by (cases item)
  show ?case
  proof (cases "build_first cr i payload Server bs")
    case None
    with Cons show ?thesis by (simp add: item)
  next
    case (Some p)
    obtain bs1 r1 where p: "p = (bs1, r1)" by (cases p)
    note first = build_first_good [OF Cons.prems(1) Some [unfolded p]]
    show ?thesis
    proof (cases r1)
      case (Ok x)
      have "build_all cr Server items bs1 (exts @ [x]) = (bs', r)"
        using Cons.prems(3) Some by (simp add: item p Ok)
      moreover have "\<forall>b \<in> set bs1. good b" "\<forall>y \<in> set (exts @ [x]). fine y"
        using first Ok Cons.prems(2) by auto
      ultimately show ?thesis by (metis Cons.IH)
    qed (use Cons.prems(3) Some in \<open>auto simp: item p\<close>)
  qed
qed auto

lemma info_decode_good:
  assumes "\<forall>b \<in> set bs. good b" "MaybeInfoPacket_decode cr msg bs Server = (bs', Ok (MIInfo info))"
  shows "\<forall>x \<in> set (extensions info). fine x"
proof -
  from assms(2) have "5 \<le> length msg"
    by (auto simp: MaybeInfoPacket_decode_def split: if_splits)
  then obtain ty sid body where "msg = ty # put_u32_le sid @ body" by (rule packet_header_split)
  with assms(2) obtain out where "InfoPacket_decode cr body bs Server = (bs', Ok info)"
    by (auto simp: MaybeInfoPacket_decode_def res_map_def split: if_splits prod.splits)
  then obtain packet where "info_spec cr Server packet bs [] = (bs', Ok (extensions info))"
    by (auto simp: InfoPacket_decode_def decode_extensions_spec split: if_splits res.splits prod.splits)
  then obtain items where "build_all cr Server items bs [] = (bs', Ok (extensions info))"
    by (auto simp: info_spec_def split: prod.splits if_splits)
  from build_all_good [OF assms(1) _ this] show ?thesis by simp
qed

lemma server_handshake_good:
  assumes "\<forall>b \<in> set bs. good b"
    and "server_handshake cr bsize rx w (Some (WispV2Handshake_new bs)) = (w', Ok (hr, rx'))"
  shows "(\<exists>packet. kind hr = V1 packet) \<or> (\<exists>exts. kind hr = V2 exts \<and> (\<forall>x \<in> set exts. fine x))"
proof -
  obtain ci rest where rx: "rx = Ok ci # rest"
    using assms(2) by (cases rx) (auto simp: server_handshake_def res_bind_eq_Err split: prod.splits res.splits)
  show ?thesis
  proof (cases "kind hr")
    case (V2 exts)
    obtain bs1 sx bs2 info where "build_extensions cr Server bs = (bs1, Ok sx)"
      "MaybeInfoPacket_decode cr ci bs1 Server = (bs2, Ok (MIInfo info))"
      "exts = get_supported_extensions (extensions info) bs2"
      by (rule server_v2_Ok [OF assms(2) [unfolded rx] V2])
    with info_decode_good build_extensions_good [OF assms(1)] V2 show ?thesis
      by (auto simp: get_supported_extensions_def Let_def)
  qed simp
qed

lemma required_extension_good:
  assumes "\<forall>b \<in> set bs. good b"
    and "server_create cr cres rx w bsize (Some (WispV2Handshake_new bs)) a h en = (w', Ok mx)"
    and "with_required_extensions fl ops required inps mx = (mx', Some (Ok ()))"
    and "i \<in> set required" "i \<noteq> Udp_ID"
  shows "mx' = mx \<and> \<not> was_downgraded mx
    \<and> (\<exists>x \<in> set (supported_extensions mx). extension_get_id x = i)
    \<and> (\<forall>x \<in> set (supported_extensions mx). fine x)"
proof -
  obtain hr rx' where hs: "server_handshake cr bsize rx w (Some (WispV2Handshake_new bs)) = (w', Ok (hr, rx'))"
    and mx: "mx = create_mux w' a h en (hr, rx')"
    using assms(2) by (auto simp: server_create_def split: prod.splits res.splits)
  have none: "missing_extensions required (supported_extensions mx) = []" and same: "mx' = mx"
    using assms(3) by (auto simp: with_required_extensions_def Let_def split: if_splits prod.splits option.splits)
  from none assms(4) obtain x where x: "x \<in> set (supported_extensions mx)" "extension_get_id x = i"
    by (auto simp: missing_extensions_def filter_empty_conv list_ex_iff)
  from server_handshake_good [OF assms(1) hs] show ?thesis
  proof
    assume "\<exists>packet. kind hr = V1 packet"
    with x assms(5) show ?thesis by (auto simp: mx create_mux_def extension_get_id_def)
  next
    assume "\<exists>exts. kind hr = V2 exts \<and> (\<forall>x \<in> set exts. fine x)"
    moreover from this have "\<not> downgraded hr"
      using hs by (auto simp: server_handshake_def Let_def split: prod.splits res.splits option.splits MaybeInfoPacket.splits)
    ultimately show ?thesis using x same by (auto simp: mx create_mux_def)
  qed
qed

end

interpretation password_guard: builder_guard "password_builder_ok users" "password_extension_ok users" cr
  for users cr
proof
  fix b bs x
  assume good: "password_builder_ok users b"
  show "password_builder_ok users (fst (build_to_extension cr b Server))"
    using good by (cases b) (simp_all add: build_to_extension_def password_builder_ok_def)
  show "password_builder_ok users (fst (build_from_bytes cr b bs Server))"
    using good
    by (auto simp: build_from_bytes_def password_builder_ok_def Password_build_from_bytes_def
        split: AnyProtocolExtensionBuilder.splits PasswordProtocolExtensionBuilder.splits res.splits)
  assume "snd (build_from_bytes cr b bs Server) = Ok x"
  with good show "password_extension_ok users x"
    by (auto simp: build_from_bytes_def password_builder_ok_def password_extension_ok_def
        Password_build_from_bytes_def res_map_def
        split: AnyProtocolExtensionBuilder.splits PasswordProtocolExtensionBuilder.splits res.splits if_splits)
qed

interpretation cert_guard: builder_guard "cert_builder_ok cr keys" "cert_extension_ok cr keys" cr
  for keys cr
proof
  fix b bs x
  assume good: "cert_builder_ok cr keys b"
  show "cert_builder_ok cr keys (fst (build_to_extension cr b Server))"
    using good
    by (auto simp: build_to_extension_def cert_builder_ok_def CertAuth_build_to_extension_def
        split: AnyProtocolExtensionBuilder.splits CertAuthProtocolExtensionBuilder.splits option.splits)
  show "cert_builder_ok cr keys (fst (build_from_bytes cr b bs Server))"
    using good
    by (auto simp: build_from_bytes_def cert_builder_ok_def CertAuth_build_from_bytes_def
        split: AnyProtocolExtensionBuilder.splits CertAuthProtocolExtensionBuilder.splits)
  assume "snd (build_from_bytes cr b bs Server) = Ok x"
  with good show "cert_extension_ok cr keys x"
    by (fastforce simp: build_from_bytes_def cert_builder_ok_def cert_extension_ok_def
        CertAuth_build_from_bytes_def res_map_def
        split: AnyProtocolExtensionBuilder.splits CertAuthProtocolExtensionBuilder.splits if_splits)
qed

lemma extension_id_password:
  "extension_get_id x = PASSWORD_PROTOCOL_EXTENSION_ID \<longleftrightarrow> (\<exists>y. x = PasswordExtension y)"
  by (cases x) (simp_all add: extension_get_id_def PASSWORD_PROTOCOL_EXTENSION_ID_def Udp_ID_def
      Motd_ID_def CertAuth_ID_def TWisp_ID_def Wispnet_ID_def)

lemma extension_id_cert: "extension_get_id x = CertAuth_ID \<longleftrightarrow> (\<exists>y. x = CertAuthExtension y)"
  by (cases x) (simp_all add: extension_get_id_def PASSWORD_PROTOCOL_EXTENSION_ID_def Udp_ID_def
      Motd_ID_def CertAuth_ID_def TWisp_ID_def Wispnet_ID_def)

lemma password_extension_okD:
  "password_extension_ok users (PasswordExtension x) \<Longrightarrow>
     \<exists>u p. x = PwServerAfterClientInfo u p \<and> users u = Some p"
  by (cases x) (simp_all add: password_extension_ok_def)

text \<open>
  A server that requires the password extension only serves authenticated clients: if creating the
  multiplexor and requiring id 2 both succeed, the connection was not downgraded, the password
  extension is among the negotiated ones, and every one of them holds a user name and password
  that the server's user table accepts.
\<close>

theorem required_password_authenticates:
  assumes "\<forall>b \<in> set bs. password_builder_ok users b"
    and "server_create cr cres rx w bsize (Some (WispV2Handshake_new bs)) a h en = (w', Ok mx)"
    and "with_required_extensions fl ops required inps mx = (mx', Some (Ok ()))"
    and "PASSWORD_PROTOCOL_EXTENSION_ID \<in> set required"
  shows "\<not> was_downgraded mx'
    \<and> (\<exists>u p. PasswordExtension (PwServerAfterClientInfo u p) \<in> set (supported_extensions mx')
         \<and> users u = Some p)
    \<and> (\<forall>x. PasswordExtension x \<in> set (supported_extensions mx') \<longrightarrow>
         (\<exists>u p. x = PwServerAfterClientInfo u p \<and> users u = Some p))"
proof -
  have "PASSWORD_PROTOCOL_EXTENSION_ID \<noteq> Udp_ID"
    by (simp add: PASSWORD_PROTOCOL_EXTENSION_ID_def Udp_ID_def)
  note good = password_guard.required_extension_good [OF assms this]
  then have fine: "\<exists>u p. x = PwServerAfterClientInfo u p \<and> users u = Some p"
    if "PasswordExtension x \<in> set (supported_extensions mx)" for x
    using that password_extension_okD by blast
  from good obtain x where "PasswordExtension x \<in> set (supported_extensions mx)"
    by (auto simp: extension_id_password)
  with fine good show ?thesis by metis
qed


definition demo_users :: "rstring \<rightharpoonup> rstring" where
  "demo_users = [[117] \<mapsto> [112]]"

definition demo_login :: "bytes \<Rightarrow> bytes" where
  "demo_login password = 5 # put_u32_le 0 @ [2, 0, 2]
     @ put_u32_le (of_nat (2 + length password)) @ 1 # 117 # password"

lemmas auth_eval = server_create_def handshake_eval info_decode_eval get_supported_extensions_def
  Password_build_to_extension_def Password_encode_def Password_build_from_bytes_def split_to_def
  from_utf8_def PASSWORD_PROTOCOL_EXTENSION_ID_def

lemma demo_login_create:
  "server_create demo_crypto (Ok ()) [Ok (demo_login [112])] demo_ws 32
     (Some (WispV2Handshake_new [PasswordBuilder (PwbServerBeforeClientInfo demo_users True)]))
     demo_server demo_heap demo_env =
   (let w = demo_ws\<lparr>ws_sent := [5 # put_u32_le 0 @ [2, 0, 2] @ put_u32_le 1 @ [1],
       Packet_encode (new_continue 0 32)]\<rparr>
    in (w, Ok (create_mux w demo_server demo_heap demo_env
      (\<lparr>kind = V2 [PasswordExtension (PwServerAfterClientInfo [117] [112])], downgraded = False,
        hs_buffer_size = 32\<rparr>, []))))"
  by (simp add: auth_eval demo_login_def demo_users_def Let_def)

theorem required_password_authenticates_witness:
  "\<exists>mx. snd (server_create demo_crypto (Ok ()) [Ok (demo_login [112])] demo_ws 32
       (Some (WispV2Handshake_new [PasswordBuilder (PwbServerBeforeClientInfo demo_users True)]))
       demo_server demo_heap demo_env) = Ok mx
    \<and> \<not> was_downgraded mx
    \<and> (\<exists>u p. PasswordExtension (PwServerAfterClientInfo u p) \<in> set (supported_extensions mx)
         \<and> demo_users u = Some p)"
  unfolding demo_login_create Let_def
  using required_password_authenticates [OF _ demo_login_create [unfolded Let_def], of demo_users
      list_flume "ServerActor list_flume" "[2]" "[]"]
  by (simp add: password_builder_ok_def with_required_extensions_def missing_extensions_def
      create_mux_def extension_get_id_def PASSWORD_PROTOCOL_EXTENSION_ID_def)

definition demo_cert_builder :: AnyProtocolExtensionBuilder where
  "demo_cert_builder = CertAuthBuilder (ServerBeforeChallenge [demo_key] True)"

definition demo_cert_info :: bytes where
  "demo_cert_info = 5 # put_u32_le 0 @ [2, 0, 3] @ put_u32_le 34 @ 1 # replicate 32 0 @ [7]"

lemma demo_cert_create:
  "\<exists>w mx. server_create demo_crypto (Ok ()) [Ok demo_cert_info] demo_ws 32
       (Some (WispV2Handshake_new [demo_cert_builder])) demo_server demo_heap demo_env = (w, Ok mx)
    \<and> supported_extensions mx = [CertAuthExtension ServerVerified]"
  by (simp add: server_create_def handshake_eval info_decode_eval get_supported_extensions_def
      CertAuth_build_to_extension_def CertAuth_encode_def CertAuth_build_from_bytes_def split_to_def
      CertAuth_ID_def demo_cert_info_def demo_cert_builder_def demo_key_def VerifyKey_new_ed25519_def
      CertTypes_Ed25519_def demo_crypto_def ok_or_def create_mux_def)




section \<open>Versions and missing extensions\<close>

text \<open>
  A v1 server is understood by every client: it sends one CONTINUE on stream 0, and a client that reads it,
  whether it asked for v1 or for v2, ends with a v1 connection and the server's buffer size; it
  reports a downgrade exactly when it asked for v2.
\<close>

theorem v1_server_serves_both:
  assumes "\<forall>sent m. ws_accepts w sent m = None"
  shows "\<exists>msg. server_handshake cr bsize rx w None =
      (w\<lparr>ws_sent := ws_sent w @ [msg]\<rparr>,
       Ok (\<lparr>kind = V1 None, downgraded = False, hs_buffer_size = bsize\<rparr>, rx))
    \<and> client_handshake cr' (Ok msg # rest) w' v2 =
       (w', Ok (\<lparr>kind = V1 None, downgraded = (v2 \<noteq> None), hs_buffer_size = bsize\<rparr>, rest))"
proof (rule exI [of _ "Packet_encode (new_continue 0 bsize)"], intro conjI)
  let ?msg = "Packet_encode (new_continue 0 bsize)"
  show "server_handshake cr bsize rx w None = (w\<lparr>ws_sent := ws_sent w @ [?msg]\<rparr>,
       Ok (\<lparr>kind = V1 None, downgraded = False, hs_buffer_size = bsize\<rparr>, rx))"
    by (simp add: server_handshake_def ws_send_def assms)
  have "PacketType_decode (PacketType_encode (packet_type (new_continue 0 bsize)) []) 3 =
      Ok (packet_type (new_continue 0 bsize))"
    using new_continue_decode [of 0 bsize]
    by (simp add: Packet_encode_eq Packet_decode_cons new_continue_def get_type_def)
  then have "MaybeInfoPacket_decode cr' ?msg bs role = (bs, Ok (MIPacket (new_continue 0 bsize)))" for bs role
    by (simp add: MaybeInfoPacket_decode_def Packet_encode_eq new_continue_def get_type_def)
  then show "client_handshake cr' (Ok ?msg # rest) w' v2 =
      (w', Ok (\<lparr>kind = V1 None, downgraded = (v2 \<noteq> None), hs_buffer_size = bsize\<rparr>, rest))"
    by (cases v2) (simp_all add: client_handshake_def read_buffer_size_Ok)
qed

theorem v1_server_serves_both_witness:
  "\<exists>msg. ws_sent (fst (server_handshake demo_crypto 128 [] demo_ws None)) = [msg]
    \<and> snd (client_handshake demo_crypto [Ok msg] demo_ws (Some (WispV2Handshake_new [UdpBuilder]))) =
       Ok (\<lparr>kind = V1 None, downgraded = True, hs_buffer_size = 128\<rparr>, [])"
  using v1_server_serves_both [of demo_ws demo_crypto 128 "[]" demo_crypto "[]" demo_ws
      "Some (WispV2Handshake_new [UdpBuilder])"]
  by (fastforce simp: demo_ws_def)

lemma server_v2_first_message:
  assumes "server_handshake cr bsize rx w (Some v) = (w', r)" "ws_sent w = []"
  shows "ws_sent w' = [] \<or> (\<exists>body rest. ws_sent w' = (5 # put_u32_le 0 @ body) # rest)"
proof -
  obtain w1 bs1 r1 where send: "send_info_packet cr w (builders v) Server = (w1, bs1, r1)"
    by (metis prod_cases3)
  show ?thesis
  proof (cases r1)
    case (Ok u)
    obtain exts msg where "InfoPacket_encode \<lparr>version = WISP_VERSION, extensions = exts\<rparr> = Ok msg"
      "ws_sent w1 = ws_sent w @ [msg]"
      by (rule send_info_Ok [OF send [unfolded Ok]])
    with info_message_head assms obtain body where "ws_sent w1 = [5 # put_u32_le 0 @ body]" by fastforce
    moreover have "ws_sent w' = ws_sent w1 \<or> (\<exists>m. ws_sent w' = ws_sent w1 @ [m])"
      using assms(1) by (auto simp: server_handshake_def send Ok Let_def handle_handshake_def ws_send_def
          split: prod.splits res.splits option.splits MaybeInfoPacket.splits)
    ultimately show ?thesis by auto
  next
    case (Err e)
    then have "ws_sent w1 = ws_sent w" using send
      by (auto simp: send_info_packet_def ws_send_def split: prod.splits res.splits option.splits)
    with assms show ?thesis by (simp add: server_handshake_def send Err)
  next
    case Panic
    then have "ws_sent w1 = ws_sent w" using send
      by (auto simp: send_info_packet_def ws_send_def split: prod.splits res.splits option.splits)
    with assms show ?thesis by (simp add: server_handshake_def send Panic)
  qed
qed

text \<open>
  The server's downgrade branch serves no v1 client of this library. Whatever a v2 server sends in
  its handshake, a client that asked for v1 and reads it fails: the first message is INFO, which
  it rejects as packet type 5. And when the server does downgrade, having read some other packet,
  it succeeds without ever sending the CONTINUE a v1 client waits for.
\<close>

theorem v2_server_fails_v1_client:
  assumes "server_handshake cr bsize rx w (Some v) = (w', r)" "ws_sent w = []"
  shows "snd (client_handshake cr' (map Ok (ws_sent w')) wc None)
      \<in> {Err WsImplSocketClosed, Err (InvalidPacketType 5)}
    \<and> (\<forall>hr rx'. r = Ok (hr, rx') \<and> downgraded hr \<longrightarrow> (\<exists>info. ws_sent w' = [5 # put_u32_le 0 @ info]))"
proof
  from server_v2_first_message [OF assms]
  show "snd (client_handshake cr' (map Ok (ws_sent w')) wc None)
      \<in> {Err WsImplSocketClosed, Err (InvalidPacketType 5)}"
    by (auto simp: client_handshake_def read_buffer_size_def Packet_decode_cons PacketType_decode_def)
  show "\<forall>hr rx'. r = Ok (hr, rx') \<and> downgraded hr \<longrightarrow> (\<exists>info. ws_sent w' = [5 # put_u32_le 0 @ info])"
  proof (intro allI impI)
    fix hr rx' assume r: "r = Ok (hr, rx') \<and> downgraded hr"
    then obtain w1 bs1 where send: "send_info_packet cr w (builders v) Server = (w1, bs1, Ok ())"
      using assms(1) by (auto simp: server_handshake_def split: prod.splits res.splits)
    then have "length (ws_sent w1) = 1" using assms(2) by (auto elim: send_info_Ok)
    moreover have "w' = w1"
      using assms(1) r by (auto simp: server_handshake_def send Let_def handle_handshake_def
          split: prod.splits res.splits MaybeInfoPacket.splits)
    ultimately show "\<exists>info. ws_sent w' = [5 # put_u32_le 0 @ info]"
      using server_v2_first_message [OF assms] by auto
  qed
qed

lemma demo_downgrade:
  "server_handshake demo_crypto 32 [Ok (Packet_encode (new_close 1 Voluntary))] demo_ws
     (Some (WispV2Handshake_new [UdpBuilder])) =
   (demo_ws\<lparr>ws_sent := [5 # put_u32_le 0 @ [2, 0, 1] @ put_u32_le 0]\<rparr>,
    Ok (\<lparr>kind = V1 (Some (new_close 1 Voluntary)), downgraded = True, hs_buffer_size = 32\<rparr>, []))"
  by (simp add: handshake_eval MaybeInfoPacket_decode_def Packet_encode_eq new_close_def get_type_def
      PacketType_decode_def PacketType_encode_def ClosePacket_codec_defs CloseReason_codec_defs
      CloseReason_into_def CloseReason_from_def)

theorem v2_server_fails_v1_client_witness:
  "snd (client_handshake demo_crypto (map Ok (ws_sent (fst (server_handshake demo_crypto 32
       [Ok (Packet_encode (new_close 1 Voluntary))] demo_ws (Some (WispV2Handshake_new [UdpBuilder]))))))
     demo_ws None) \<in> {Err WsImplSocketClosed, Err (InvalidPacketType 5)}"
  using v2_server_fails_v1_client [OF demo_downgrade, of demo_crypto demo_ws]
  unfolding demo_downgrade by (simp add: demo_ws_def)

lemma entry_loop_ends:
  "snd (entry_loop fl ops exts (inps @ [FromActor (EvEndFut x)]) m) \<noteq> None"
proof (induction inps arbitrary: m)
  case Nil
  then show ?case by (simp add: next_event_def handle_event_def split: option.splits)
next
  case (Cons inp inps)
  then show ?case by (auto split: prod.splits option.splits res.splits bool.splits)
qed

lemma into_future_ends:
  "snd (into_future fl ops (inps @ [FromActor (EvEndFut x)]) m) \<noteq> None"
proof -
  have "snd (entry fl ops (inps @ [FromActor (EvEndFut x)]) m) \<noteq> None"
    using entry_loop_ends [of fl ops _ inps x]
    by (auto simp: entry_def Let_def split: option.splits prod.splits res.splits bool.splits)
  then show ?thesis by (auto simp: into_future_def split: prod.splits option.splits res.splits)
qed

text \<open>
  A connection that lacks a required extension is refused and the call always returns. Whatever the
  task receives before the request to end reaches it, \<open>with_required_extensions\<close> returns and not
  with success; and on a v2 connection where nothing was received, the peer is sent CLOSE on
  stream 0 with reason \<open>ExtensionsIncompatible\<close>, the transport is closed, and the error lists
  exactly the required ids that were not negotiated, in order.
\<close>

theorem missing_extensions_refused:
  assumes "i \<in> set required" "\<forall>x \<in> set (supported_extensions mx). extension_get_id x \<noteq> i"
  shows "(\<exists>mx' r. with_required_extensions fl ops required inps mx = (mx', Some r) \<and> r \<noteq> Ok ())
    \<and> (mx = create_mux w a h en (\<lparr>kind = V2 exts, downgraded = d, hs_buffer_size = n\<rparr>, rx)
         \<and> (\<forall>sent m. ws_accepts w sent m = None) \<longrightarrow>
       (\<exists>mx'. with_required_extensions fl ops required [] mx =
            (mx', Some (Err (ExtensionsNotSupported
               (filter (\<lambda>j. \<forall>x \<in> set exts. extension_get_id x \<noteq> j) required))))
         \<and> ws_sent (tx (mx_inner mx')) = ws_sent w @ [Packet_encode (new_close 0 ExtensionsIncompatible)]
         \<and> tx_closed (mx_inner mx')))"
proof
  have missing: "missing_extensions required (supported_extensions mx) \<noteq> []"
    using assms by (auto simp: missing_extensions_def filter_empty_conv list_ex_iff)
  obtain m r where run: "into_future fl ops
      (inps @ [FromActor (EvEndFut (Some ExtensionsIncompatible))]) (mx_inner mx) = (m, Some r)"
    using into_future_ends [of fl ops inps "Some ExtensionsIncompatible" "mx_inner mx"]
    by (metis option.exhaust prod.collapse)
  show "\<exists>mx' r. with_required_extensions fl ops required inps mx = (mx', Some r) \<and> r \<noteq> Ok ()"
    using missing run by (cases r) (simp_all add: with_required_extensions_def Let_def)
  show "mx = create_mux w a h en (\<lparr>kind = V2 exts, downgraded = d, hs_buffer_size = n\<rparr>, rx)
         \<and> (\<forall>sent m. ws_accepts w sent m = None) \<longrightarrow>
       (\<exists>mx'. with_required_extensions fl ops required [] mx =
            (mx', Some (Err (ExtensionsNotSupported
               (filter (\<lambda>j. \<forall>x \<in> set exts. extension_get_id x \<noteq> j) required))))
         \<and> ws_sent (tx (mx_inner mx')) = ws_sent w @ [Packet_encode (new_close 0 ExtensionsIncompatible)]
         \<and> tx_closed (mx_inner mx'))"
    using missing
    by (auto simp: with_required_extensions_def Let_def create_mux_def into_future_def entry_def
        MuxInner_new_def next_event_def handle_event_def mux_send_def ws_send_def missing_extensions_def
        list_ex_iff)
qed

theorem missing_extensions_refused_witness:
  "\<exists>mx'. with_required_extensions list_flume (ServerActor list_flume) [1, 2] []
       (create_mux demo_ws demo_server demo_heap demo_env
          (\<lparr>kind = V2 [UdpExtension], downgraded = False, hs_buffer_size = 32\<rparr>, [])) =
       (mx', Some (Err (ExtensionsNotSupported [2])))
     \<and> tx_closed (mx_inner mx')"
  using missing_extensions_refused [of 2 "[1, 2]" "create_mux demo_ws demo_server demo_heap demo_env
          (\<lparr>kind = V2 [UdpExtension], downgraded = False, hs_buffer_size = 32\<rparr>, [])"
      list_flume "ServerActor list_flume" "[]" demo_ws demo_server demo_heap demo_env "[UdpExtension]"
      False 32 "[]"]
  by (auto simp: create_mux_def extension_get_id_def Udp_ID_def demo_ws_def)

end
