(* ===== verification/Server_Ip.thy ===== *)
theory Server_Ip
  imports Prelude
begin

text \<open>
  The address classification of the server, \<open>server/src/stream.rs\<close> (\<open>ipv4_is_global\<close>,
  \<open>ipv6_is_global\<close>, \<open>is_global\<close>), with the address types and predicates of \<open>std::net\<close> it uses.
  The reference is the list of address blocks of the IANA special-purpose registries, as
  network and prefix length.
\<close>

section \<open>std::net\<close>

datatype Ipv4Addr = Ipv4Addr u8 u8 u8 u8

datatype Ipv6Addr = Ipv6Addr u16 u16 u16 u16 u16 u16 u16 u16

datatype IpAddr = V4 Ipv4Addr | V6 Ipv6Addr

fun octets4 :: "Ipv4Addr \<Rightarrow> u8 list" where
  "octets4 (Ipv4Addr a b c d) = [a, b, c, d]"

fun segments :: "Ipv6Addr \<Rightarrow> u16 list" where
  "segments (Ipv6Addr a b c d e f g h) = [a, b, c, d, e, f, g, h]"

fun ipv4_is_private :: "Ipv4Addr \<Rightarrow> bool" where
  "ipv4_is_private (Ipv4Addr a b c d) \<longleftrightarrow> a = 10 \<or> (a = 172 \<and> 16 \<le> b \<and> b \<le> 31) \<or> (a = 192 \<and> b = 168)"

fun ipv4_is_loopback :: "Ipv4Addr \<Rightarrow> bool" where
  "ipv4_is_loopback (Ipv4Addr a b c d) \<longleftrightarrow> a = 127"

fun ipv4_is_link_local :: "Ipv4Addr \<Rightarrow> bool" where
  "ipv4_is_link_local (Ipv4Addr a b c d) \<longleftrightarrow> a = 169 \<and> b = 254"

fun ipv4_is_documentation :: "Ipv4Addr \<Rightarrow> bool" where
  "ipv4_is_documentation (Ipv4Addr a b c d) \<longleftrightarrow>
     (a = 192 \<and> b = 0 \<and> c = 2) \<or> (a = 198 \<and> b = 51 \<and> c = 100) \<or> (a = 203 \<and> b = 0 \<and> c = 113)"

fun ipv4_is_broadcast :: "Ipv4Addr \<Rightarrow> bool" where
  "ipv4_is_broadcast (Ipv4Addr a b c d) \<longleftrightarrow> a = 255 \<and> b = 255 \<and> c = 255 \<and> d = 255"

fun ipv4_is_multicast :: "Ipv4Addr \<Rightarrow> bool" where
  "ipv4_is_multicast (Ipv4Addr a b c d) \<longleftrightarrow> 224 \<le> a \<and> a \<le> 239"

definition ipv6_is_unspecified :: "Ipv6Addr \<Rightarrow> bool" where
  "ipv6_is_unspecified x \<longleftrightarrow> segments x = [0, 0, 0, 0, 0, 0, 0, 0]"

definition ipv6_is_loopback :: "Ipv6Addr \<Rightarrow> bool" where
  "ipv6_is_loopback x \<longleftrightarrow> segments x = [0, 0, 0, 0, 0, 0, 0, 1]"

fun ipv6_is_multicast :: "Ipv6Addr \<Rightarrow> bool" where
  "ipv6_is_multicast (Ipv6Addr a b c d e f g h) \<longleftrightarrow> a AND 0xff00 = 0xff00"

fun is_loopback :: "IpAddr \<Rightarrow> bool" where
  "is_loopback (V4 x) = ipv4_is_loopback x"
| "is_loopback (V6 x) = ipv6_is_loopback x"

fun is_multicast :: "IpAddr \<Rightarrow> bool" where
  "is_multicast (V4 x) = ipv4_is_multicast x"
| "is_multicast (V6 x) = ipv6_is_multicast x"

fun is_ipv4 :: "IpAddr \<Rightarrow> bool" where
  "is_ipv4 (V4 x) = True"
| "is_ipv4 (V6 x) = False"

section \<open>stream.rs\<close>

definition ipv4_is_global :: "Ipv4Addr \<Rightarrow> bool" where
  "ipv4_is_global addr = (case addr of Ipv4Addr o0 o1 o2 o3 \<Rightarrow>
     \<not> (o0 = 0
      \<or> ipv4_is_private addr
      \<or> (o0 = 100 \<and> o1 AND 0b11000000 = 0b01000000)
      \<or> ipv4_is_loopback addr
      \<or> ipv4_is_link_local addr
      \<or> (o0 = 192 \<and> o1 = 0 \<and> o2 = 0 \<and> o3 \<noteq> 9 \<and> o3 \<noteq> 10)
      \<or> ipv4_is_documentation addr
      \<or> (o0 = 198 \<and> o1 AND 0xfe = 18)
      \<or> o0 AND 240 = 240
      \<or> ipv4_is_broadcast addr))"

text \<open>
  The comparisons of \<open>u128::from_be_bytes(octets)\<close> with a constant compare the eight segments with the
  constant's.
\<close>

definition ipv6_is_global :: "Ipv6Addr \<Rightarrow> bool" where
  "ipv6_is_global addr = (case addr of Ipv6Addr s0 s1 s2 s3 s4 s5 s6 s7 \<Rightarrow>
     \<not> (ipv6_is_unspecified addr
      \<or> ipv6_is_loopback addr
      \<or> (s0 = 0 \<and> s1 = 0 \<and> s2 = 0 \<and> s3 = 0 \<and> s4 = 0 \<and> s5 = 0xffff)
      \<or> (s0 = 0x64 \<and> s1 = 0xff9b \<and> s2 = 1)
      \<or> (s0 = 0x100 \<and> s1 = 0 \<and> s2 = 0 \<and> s3 = 0)
      \<or> ((s0 = 0x2001 \<and> s1 < 0x200)
          \<and> \<not> (segments addr = [0x2001, 1, 0, 0, 0, 0, 0, 1]
             \<or> segments addr = [0x2001, 1, 0, 0, 0, 0, 0, 2]
             \<or> (s0 = 0x2001 \<and> s1 = 3)
             \<or> (s0 = 0x2001 \<and> s1 = 4 \<and> s2 = 0x112)
             \<or> (s0 = 0x2001 \<and> 0x20 \<le> s1 \<and> s1 \<le> 0x3F)))
      \<or> s0 = 0x2002
      \<or> (s0 = 0x2001 \<and> s1 = 0xdb8)
      \<or> s0 AND 0xfe00 = 0xfc00
      \<or> s0 AND 0xfe00 = 0xfc00))"

fun is_global :: "IpAddr \<Rightarrow> bool" where
  "is_global (V4 x) = ipv4_is_global x"
| "is_global (V6 x) = ipv6_is_global x"

section \<open>Reference: address blocks\<close>

text \<open>
  \<open>in_block n len net xs\<close>: the first \<open>len\<close> bits of the words \<open>xs\<close> of width \<open>n\<close> are those of
  \<open>net\<close>.
\<close>

definition prefix_eq :: "nat \<Rightarrow> nat \<Rightarrow> 'a::len word \<Rightarrow> 'a word \<Rightarrow> bool" where
  "prefix_eq n len x y \<longleftrightarrow> drop_bit (n - len) x = drop_bit (n - len) y"

fun in_block :: "nat \<Rightarrow> nat \<Rightarrow> 'a::len word list \<Rightarrow> 'a word list \<Rightarrow> bool" where
  "in_block n len (y # ys) (x # xs) \<longleftrightarrow>
     (if len < n then prefix_eq n len x y else x = y \<and> in_block n (len - n) ys xs)"
| "in_block n len ys xs \<longleftrightarrow> True"

definition special_blocks4 :: "(u8 list \<times> nat) list" where
  "special_blocks4 =
    [([0, 0, 0, 0], 8), ([10, 0, 0, 0], 8), ([100, 64, 0, 0], 10), ([127, 0, 0, 0], 8),
     ([169, 254, 0, 0], 16), ([172, 16, 0, 0], 12), ([192, 0, 0, 0], 24), ([192, 0, 2, 0], 24),
     ([192, 168, 0, 0], 16), ([198, 18, 0, 0], 15), ([198, 51, 100, 0], 24), ([203, 0, 113, 0], 24),
     ([240, 0, 0, 0], 4)]"

definition global_exceptions4 :: "(u8 list \<times> nat) list" where
  "global_exceptions4 = [([192, 0, 0, 9], 32), ([192, 0, 0, 10], 32)]"

definition special_blocks6 :: "(u16 list \<times> nat) list" where
  "special_blocks6 =
    [([0, 0, 0, 0, 0, 0, 0, 0], 128), ([0, 0, 0, 0, 0, 0, 0, 1], 128),
     ([0, 0, 0, 0, 0, 0xffff, 0, 0], 96), ([0x64, 0xff9b, 1, 0, 0, 0, 0, 0], 48),
     ([0x100, 0, 0, 0, 0, 0, 0, 0], 64), ([0x2001, 0, 0, 0, 0, 0, 0, 0], 23),
     ([0x2001, 0xdb8, 0, 0, 0, 0, 0, 0], 32), ([0x2002, 0, 0, 0, 0, 0, 0, 0], 16),
     ([0xfc00, 0, 0, 0, 0, 0, 0, 0], 7)]"

definition global_exceptions6 :: "(u16 list \<times> nat) list" where
  "global_exceptions6 =
    [([0x2001, 1, 0, 0, 0, 0, 0, 1], 128), ([0x2001, 1, 0, 0, 0, 0, 0, 2], 128),
     ([0x2001, 3, 0, 0, 0, 0, 0, 0], 32), ([0x2001, 4, 0x112, 0, 0, 0, 0, 0], 48),
     ([0x2001, 0x20, 0, 0, 0, 0, 0, 0], 28), ([0x2001, 0x30, 0, 0, 0, 0, 0, 0], 28)]"

definition in_blocks4 :: "(u8 list \<times> nat) list \<Rightarrow> Ipv4Addr \<Rightarrow> bool" where
  "in_blocks4 bs x \<longleftrightarrow> list_ex (\<lambda>(net, len). in_block 8 len net (octets4 x)) bs"

definition in_blocks6 :: "(u16 list \<times> nat) list \<Rightarrow> Ipv6Addr \<Rightarrow> bool" where
  "in_blocks6 bs x \<longleftrightarrow> list_ex (\<lambda>(net, len). in_block 16 len net (segments x)) bs"

section \<open>Lemmas\<close>

lemma and_prefix:
  fixes b :: "'a::len word"
  assumes "m = NOT (mask n)" "v AND m = v"
  shows "b AND m = v \<longleftrightarrow> drop_bit n b = drop_bit n v"
proof
  have low: "drop_bit n (x AND m) = drop_bit n x" and high: "x AND m = push_bit n (drop_bit n x)" for x :: "'a word"
    unfolding assms(1)
    by (rule bit_word_eqI; auto simp: bit_simps dest: bit_imp_le_length)+
  show "drop_bit n b = drop_bit n v" if "b AND m = v" using low [of b] that by simp
  show "b AND m = v" if "drop_bit n b = drop_bit n v" using high [of b] high [of v] that assms(2) by simp
qed

lemma drop_bit_unat_eq: "drop_bit n b = c \<longleftrightarrow> unat b div 2 ^ n = unat c" for b :: "'a::len word"
  by (simp only: word_unat_eq_iff unat_drop_bit_eq) (simp add: drop_bit_eq_div)

lemma range4: "16 \<le> b \<and> b \<le> 31 \<longleftrightarrow> drop_bit 4 b = drop_bit 4 16" for b :: u8
  by (simp add: drop_bit_unat_eq word_le_nat_alt) linarith

lemma range6:
  "b < 0x200 \<longleftrightarrow> drop_bit 9 b = drop_bit 9 0"
  "0x20 \<le> b \<and> b \<le> 0x3F \<longleftrightarrow> drop_bit 4 b = drop_bit 4 0x20 \<or> drop_bit 4 b = drop_bit 4 0x30" for b :: u16
  by (simp_all add: drop_bit_unat_eq word_le_nat_alt word_less_nat_alt) linarith+

lemma masks4:
  "b AND 192 = 64 \<longleftrightarrow> drop_bit 6 b = drop_bit 6 64" "b AND 254 = 18 \<longleftrightarrow> drop_bit 1 b = drop_bit 1 18"
  "b AND 240 = 240 \<longleftrightarrow> drop_bit 4 b = drop_bit 4 240" for b :: u8
  by (rule and_prefix; simp add: mask_eq_exp_minus_1)+

lemma masks6: "b AND 0xfe00 = 0xfc00 \<longleftrightarrow> drop_bit 9 b = drop_bit 9 0xfc00" for b :: u16
  by (rule and_prefix; simp add: mask_eq_exp_minus_1)

lemma prefix_all [simp]: "prefix_eq 8 0 (x :: u8) y" "prefix_eq 16 0 (u :: u16) v"
  by (simp_all add: prefix_eq_def)

text \<open>
  C39. IPv4 classification: an address counts as non-global exactly when it lies in one of the special-purpose
  blocks (0.0.0.0/8, 10.0.0.0/8, 100.64.0.0/10, 127.0.0.0/8, 169.254.0.0/16, 172.16.0.0/12,
  192.0.0.0/24, 192.0.2.0/24, 192.168.0.0/16, 198.18.0.0/15, 198.51.100.0/24, 203.0.113.0/24,
  240.0.0.0/4) and is neither 192.0.0.9 nor 192.0.0.10.
\<close>

theorem ipv4_global_blocks:
  "\<not> ipv4_is_global x \<longleftrightarrow> in_blocks4 special_blocks4 x \<and> \<not> in_blocks4 global_exceptions4 x"
proof (cases x)
  case (Ipv4Addr a b c d)
  define rest where "rest \<longleftrightarrow>
      a = 0 \<or> a = 10 \<or> (a = 100 \<and> drop_bit 6 b = drop_bit 6 64) \<or> a = 127 \<or> (a = 169 \<and> b = 254)
      \<or> (a = 172 \<and> drop_bit 4 b = drop_bit 4 16)
      \<or> (a = 192 \<and> b = 0 \<and> c = 2) \<or> (a = 192 \<and> b = 168) \<or> (a = 198 \<and> drop_bit 1 b = drop_bit 1 18)
      \<or> (a = 198 \<and> b = 51 \<and> c = 100) \<or> (a = 203 \<and> b = 0 \<and> c = 113)
      \<or> drop_bit 4 a = drop_bit 4 240"
  have special: "in_blocks4 special_blocks4 x \<longleftrightarrow> rest \<or> (a = 192 \<and> b = 0 \<and> c = 0)"
    by (simp add: Ipv4Addr in_blocks4_def special_blocks4_def prefix_eq_def rest_def) argo
  have exceptions: "in_blocks4 global_exceptions4 x \<longleftrightarrow> a = 192 \<and> b = 0 \<and> c = 0 \<and> (d = 9 \<or> d = 10)"
    by (auto simp: Ipv4Addr in_blocks4_def global_exceptions4_def)
  have broadcast: "a = 255 \<Longrightarrow> rest" by (simp add: rest_def)
  have "ipv4_is_global x \<longleftrightarrow> \<not> (rest \<or> (a = 192 \<and> b = 0 \<and> c = 0 \<and> d \<noteq> 9 \<and> d \<noteq> 10)
      \<or> (a = 255 \<and> b = 255 \<and> c = 255 \<and> d = 255))"
    by (simp add: Ipv4Addr ipv4_is_global_def masks4 range4 rest_def) argo
  moreover have "\<not> rest" if "a = 192" "b = 0" "c = 0" using that by (simp add: rest_def)
  ultimately show ?thesis unfolding special exceptions using broadcast by blast
qed

text \<open>
  IPv6 classification: an address counts as non-global exactly when it lies in one of the listed blocks
  (unspecified, loopback, v4-mapped, 64:ff9b:1::/48, 100::/64, 2001::/23, 2001:db8::/32, 2002::/16,
  fc00::/7) and in none of the six exceptions within 2001::/23.
\<close>

theorem ipv6_global_blocks:
  "\<not> ipv6_is_global x \<longleftrightarrow> in_blocks6 special_blocks6 x \<and> \<not> in_blocks6 global_exceptions6 x"
proof (cases x)
  case (Ipv6Addr s0 s1 s2 s3 s4 s5 s6 s7)
  define rest where "rest \<longleftrightarrow> ipv6_is_unspecified x \<or> ipv6_is_loopback x
      \<or> (s0 = 0 \<and> s1 = 0 \<and> s2 = 0 \<and> s3 = 0 \<and> s4 = 0 \<and> s5 = 0xffff)
      \<or> (s0 = 0x64 \<and> s1 = 0xff9b \<and> s2 = 1) \<or> (s0 = 0x100 \<and> s1 = 0 \<and> s2 = 0 \<and> s3 = 0)
      \<or> (s0 = 0x2001 \<and> s1 = 0xdb8) \<or> s0 = 0x2002 \<or> s0 AND 0xfe00 = 0xfc00"
  have special: "in_blocks6 special_blocks6 x \<longleftrightarrow> rest \<or> (s0 = 0x2001 \<and> s1 < 0x200)"
    unfolding rest_def
    by (simp add: Ipv6Addr in_blocks6_def special_blocks6_def prefix_eq_def range6 masks6
        ipv6_is_unspecified_def ipv6_is_loopback_def) argo
  have exceptions: "in_blocks6 global_exceptions6 x \<longleftrightarrow>
      segments x = [0x2001, 1, 0, 0, 0, 0, 0, 1] \<or> segments x = [0x2001, 1, 0, 0, 0, 0, 0, 2]
        \<or> (s0 = 0x2001 \<and> s1 = 3) \<or> (s0 = 0x2001 \<and> s1 = 4 \<and> s2 = 0x112)
        \<or> (s0 = 0x2001 \<and> 0x20 \<le> s1 \<and> s1 \<le> 0x3F)"
    by (auto simp: Ipv6Addr in_blocks6_def global_exceptions6_def prefix_eq_def range6)
  have inside: "s0 = 0x2001 \<and> s1 < 0x200 \<and> s1 \<noteq> 0xdb8" if "in_blocks6 global_exceptions6 x"
    using that unfolding exceptions by (auto simp: Ipv6Addr elim: le_less_trans)
  have "\<not> rest" if "s0 = 0x2001" "s1 \<noteq> 0xdb8"
    using that by (simp add: rest_def Ipv6Addr ipv6_is_unspecified_def ipv6_is_loopback_def)
  moreover have "ipv6_is_global x \<longleftrightarrow>
      \<not> (rest \<or> ((s0 = 0x2001 \<and> s1 < 0x200) \<and> \<not> in_blocks6 global_exceptions6 x))"
    unfolding exceptions rest_def by (simp only: Ipv6Addr ipv6_is_global_def Ipv6Addr.case) argo
  ultimately show ?thesis unfolding special using inside by blast
qed

text \<open>
  The classification misses link-local IPv6 addresses: every address of fe80::/64 lies in the
  link-local block fe80::/10, and \<open>ipv6_is_global\<close> takes it for a global one. The line that is
  meant to test for link-local addresses repeats the mask of the line before it.
\<close>

theorem ipv6_link_local_global:
  "in_blocks6 [([0xfe80, 0, 0, 0, 0, 0, 0, 0], 10)] (Ipv6Addr 0xfe80 0 0 0 e f g h)
   \<and> ipv6_is_global (Ipv6Addr 0xfe80 0 0 0 e f g h)"
  by (simp add: in_blocks6_def prefix_eq_def ipv6_is_global_def ipv6_is_unspecified_def
      ipv6_is_loopback_def)

end
