(* ===== verification/Server_Config.thy ===== *)
theory Server_Config
  imports Handshake Server_Ip
begin

text \<open>
  The configuration of the server, \<open>server/src/config.rs\<close> and \<open>server/src/handle/wisp/utils.rs\<close>:
  the settings with their defaults, the overrides from the environment, the parsed port ranges and
  host lists, and the extension settings a wisp connection starts from.

  Parameters: the type of log levels with its \<open>Info\<close> level, the version string the build
  inserts, the regular-expression sets, reading and decoding key files. The rate limits of the
  optional feature \<open>speed-limit\<close> are left out.
\<close>

section \<open>Settings\<close>

definition str :: "string \<Rightarrow> rstring" where
  "str s = map of_char s"

datatype SocketType = Tcp_socket | TlsTcp | Unix | TlsUnix | File

datatype SocketTransport = WebSocket | LengthDelimitedLe

datatype RuntimeFlavor = SingleThread | MultiThread | ThreadPerCore

definition is_thread_per_core :: "RuntimeFlavor \<Rightarrow> bool" where
  "is_thread_per_core r = (case r of ThreadPerCore \<Rightarrow> True | _ \<Rightarrow> False)"

type_synonym BindAddr = "SocketType \<times> rstring"

datatype StatsEndpoint = SameServer rstring | SeparateServer BindAddr

definition get_endpoint :: "StatsEndpoint \<Rightarrow> rstring option" where
  "get_endpoint e = (case e of SameServer x \<Rightarrow> Some x | SeparateServer _ \<Rightarrow> None)"

definition get_bindaddr :: "StatsEndpoint \<Rightarrow> BindAddr option" where
  "get_bindaddr e = (case e of SameServer _ \<Rightarrow> None | SeparateServer x \<Rightarrow> Some x)"

record 'l ServerConfig =
  bind :: BindAddr
  transport :: SocketTransport
  resolve_ipv6 :: bool
  server_tcp_nodelay :: bool
  file_raw_mode :: bool
  tls_keypair :: "(rstring \<times> rstring) option"
  stats_endpoint :: "StatsEndpoint option"
  use_real_ip_headers :: bool
  non_ws_response :: rstring
  autoconfigure_domain :: "rstring option"
  max_message_size :: u64
  log_level :: 'l
  runtime :: RuntimeFlavor

datatype ProtocolExtension = ExtUdp | ExtMotd | ExtWispnet

datatype ProtocolExtensionAuth = AuthPassword | AuthCertificate

record WispConfig =
  allow_wsproxy :: bool
  wisp_buffer_size :: u32
  wisp_prefix :: rstring
  wisp_v2 :: bool
  wisp_extensions :: "ProtocolExtension list"
  auth_extension :: "ProtocolExtensionAuth option"
  password_extension_users :: "rstring \<rightharpoonup> rstring"
  password_extension_required :: bool
  certificate_extension_keys :: "rstring list"
  certificate_extension_required :: bool
  motd_extension :: rstring

record StreamConfig =
  stream_tcp_nodelay :: bool
  stream_buffer_size :: u64
  allow_udp :: bool
  allow_wsproxy_udp :: bool
  allow_twisp :: bool
  dns_servers :: "IpAddr list"
  allow_direct_ip :: bool
  allow_loopback :: bool
  allow_multicast :: bool
  allow_global :: bool
  allow_non_global :: bool
  allow_tcp_hosts :: "rstring list"
  block_tcp_hosts :: "rstring list"
  allow_udp_hosts :: "rstring list"
  block_udp_hosts :: "rstring list"
  allow_hosts :: "rstring list"
  block_hosts :: "rstring list"
  allow_ports :: "u16 list list"
  block_ports :: "u16 list list"

record 'l Config =
  server :: "'l ServerConfig"
  wisp :: WispConfig
  stream :: StreamConfig

subsection \<open>Defaults\<close>

definition default_motd :: "rstring \<Rightarrow> rstring" where
  "default_motd version_string = str ''epoxy_server ('' @ version_string @ str '')''"

definition is_default_motd :: "rstring \<Rightarrow> rstring \<Rightarrow> bool" where
  "is_default_motd version_string s \<longleftrightarrow> s = default_motd version_string"

definition ServerConfig_default :: "'l \<Rightarrow> 'l ServerConfig" where
  "ServerConfig_default info =
    \<lparr>bind = (Tcp_socket, str ''127.0.0.1:4000''), transport = WebSocket, resolve_ipv6 = False,
     server_tcp_nodelay = True, file_raw_mode = False, tls_keypair = None, stats_endpoint = None,
     use_real_ip_headers = False, non_ws_response = str '':3'', autoconfigure_domain = None,
     max_message_size = 64 * 1024, log_level = info, runtime = MultiThread\<rparr>"

definition WispConfig_default :: "rstring \<Rightarrow> WispConfig" where
  "WispConfig_default version_string =
    \<lparr>allow_wsproxy = True, wisp_buffer_size = 128, wisp_prefix = [], wisp_v2 = True,
     wisp_extensions = [ExtUdp, ExtMotd], auth_extension = None,
     password_extension_users = Map.empty, password_extension_required = True,
     certificate_extension_keys = [], certificate_extension_required = True,
     motd_extension = default_motd version_string\<rparr>"

definition StreamConfig_default :: StreamConfig where
  "StreamConfig_default =
    \<lparr>stream_tcp_nodelay = True, stream_buffer_size = 128 * 1024, allow_udp = True,
     allow_wsproxy_udp = False, allow_twisp = False, dns_servers = [], allow_direct_ip = True,
     allow_loopback = True, allow_multicast = True, allow_global = True, allow_non_global = True,
     allow_tcp_hosts = [], block_tcp_hosts = [], allow_udp_hosts = [], block_udp_hosts = [],
     allow_hosts = [], block_hosts = [], allow_ports = [], block_ports = []\<rparr>"

definition Config_default :: "'l \<Rightarrow> rstring \<Rightarrow> 'l Config" where
  "Config_default info version_string =
    \<lparr>server = ServerConfig_default info, wisp = WispConfig_default version_string,
     stream = StreamConfig_default\<rparr>"

definition wasix_defaults :: "'l \<Rightarrow> rstring \<Rightarrow> 'l Config" where
  "wasix_defaults info version_string =
    (let config = Config_default info version_string
     in config
      \<lparr>server := (server config)\<lparr>bind := (Tcp_socket, str ''0.0.0.0:4000''), runtime := SingleThread,
         transport := WebSocket, log_level := info\<rparr>,
       wisp := (wisp config)\<lparr>allow_wsproxy := False, wisp_prefix := [], wisp_v2 := True,
         wisp_extensions := [ExtMotd]\<rparr>,
       stream := (stream config)\<lparr>allow_udp := False, allow_wsproxy_udp := False,
         allow_direct_ip := False, allow_loopback := False, allow_multicast := False,
         allow_global := True, allow_non_global := False,
         allow_ports := [[80, 80], [443, 443]]\<rparr>\<rparr>)"

section \<open>EnvironmentConfig\<close>

record 'l EnvironmentConfig =
  env_server_bind :: "rstring option"
  env_server_runtime :: "RuntimeFlavor option"
  env_server_transport :: "SocketTransport option"
  env_server_log_level :: "'l option"
  env_autoconfigure_domain :: "rstring option"
  env_protocol_allow_wsproxy :: "bool option"
  env_protocol_buffer_size :: "u32 option"
  env_protocol_prefix :: "rstring option"
  env_protocol_v2 :: "bool option"
  env_protocol_extensions :: "ProtocolExtension list option"
  env_stream_tcp_nodelay :: "bool option"
  env_stream_buffer_size :: "u64 option"
  env_stream_allow_udp :: "bool option"
  env_stream_allow_wsproxy_udp :: "bool option"
  env_stream_allow_direct_ip :: "bool option"
  env_stream_allow_loopback :: "bool option"
  env_stream_allow_multicast :: "bool option"
  env_stream_allow_global :: "bool option"
  env_stream_allow_non_global :: "bool option"
  env_stream_allow_ports :: "u16 list list option"

text \<open>\<open>if let Some(value) = x { field = value }\<close>.\<close>

definition override :: "'v option \<Rightarrow> ('v \<Rightarrow> 'r \<Rightarrow> 'r) \<Rightarrow> 'r \<Rightarrow> 'r" where
  "override x set_field r = (case x of None \<Rightarrow> r | Some value \<Rightarrow> set_field value r)"

definition apply_server :: "'l EnvironmentConfig \<Rightarrow> 'l ServerConfig \<Rightarrow> 'l ServerConfig" where
  "apply_server e =
     override (env_autoconfigure_domain e) (\<lambda>v c. c\<lparr>autoconfigure_domain := Some v\<rparr>)
   \<circ> override (env_server_log_level e) (\<lambda>v c. c\<lparr>log_level := v\<rparr>)
   \<circ> override (env_server_transport e) (\<lambda>v c. c\<lparr>transport := v\<rparr>)
   \<circ> override (env_server_runtime e) (\<lambda>v c. c\<lparr>runtime := v\<rparr>)
   \<circ> override (env_server_bind e) (\<lambda>v c. c\<lparr>bind := (fst (bind c), v)\<rparr>)"

definition apply_wisp :: "'l EnvironmentConfig \<Rightarrow> WispConfig \<Rightarrow> WispConfig" where
  "apply_wisp e =
     override (env_protocol_extensions e) (\<lambda>v c. c\<lparr>wisp_extensions := v\<rparr>)
   \<circ> override (env_protocol_v2 e) (\<lambda>v c. c\<lparr>wisp_v2 := v\<rparr>)
   \<circ> override (env_protocol_prefix e) (\<lambda>v c. c\<lparr>wisp_prefix := v\<rparr>)
   \<circ> override (env_protocol_buffer_size e) (\<lambda>v c. c\<lparr>wisp_buffer_size := v\<rparr>)
   \<circ> override (env_protocol_allow_wsproxy e) (\<lambda>v c. c\<lparr>allow_wsproxy := v\<rparr>)"

definition apply_stream :: "'l EnvironmentConfig \<Rightarrow> StreamConfig \<Rightarrow> StreamConfig" where
  "apply_stream e =
     override (env_stream_allow_ports e) (\<lambda>v c. c\<lparr>allow_ports := v\<rparr>)
   \<circ> override (env_stream_allow_non_global e) (\<lambda>v c. c\<lparr>allow_non_global := v\<rparr>)
   \<circ> override (env_stream_allow_global e) (\<lambda>v c. c\<lparr>allow_global := v\<rparr>)
   \<circ> override (env_stream_allow_multicast e) (\<lambda>v c. c\<lparr>allow_multicast := v\<rparr>)
   \<circ> override (env_stream_allow_loopback e) (\<lambda>v c. c\<lparr>allow_loopback := v\<rparr>)
   \<circ> override (env_stream_allow_direct_ip e) (\<lambda>v c. c\<lparr>allow_direct_ip := v\<rparr>)
   \<circ> override (env_stream_allow_wsproxy_udp e) (\<lambda>v c. c\<lparr>allow_wsproxy_udp := v\<rparr>)
   \<circ> override (env_stream_allow_udp e) (\<lambda>v c. c\<lparr>allow_udp := v\<rparr>)
   \<circ> override (env_stream_buffer_size e) (\<lambda>v c. c\<lparr>stream_buffer_size := v\<rparr>)
   \<circ> override (env_stream_tcp_nodelay e) (\<lambda>v c. c\<lparr>stream_tcp_nodelay := v\<rparr>)"

definition apply_to :: "'l EnvironmentConfig \<Rightarrow> 'l Config \<Rightarrow> 'l Config" where
  "apply_to e c =
     \<lparr>server = apply_server e (server c), wisp = apply_wisp e (wisp c), stream = apply_stream e (stream c)\<rparr>"

section \<open>Port ranges\<close>

text \<open>\<open>str::split_once\<close> with a one-byte separator.\<close>

fun split_once :: "u8 \<Rightarrow> rstring \<Rightarrow> (rstring \<times> rstring) option" where
  "split_once c [] = None"
| "split_once c (x # xs) = (if x = c then Some ([], xs)
     else map_option (\<lambda>(a, b). (x # a, b)) (split_once c xs))"

text \<open>
  \<open>str::parse\<close> of an unsigned integer below \<open>bound\<close>: an optional plus sign, at least one digit, and no
  overflow on the way.
\<close>

fun parse_digits :: "nat \<Rightarrow> nat \<Rightarrow> rstring \<Rightarrow> nat option" where
  "parse_digits bound acc [] = Some acc"
| "parse_digits bound acc (c # cs) =
    (if 48 \<le> c \<and> c \<le> 57 then
       let v = 10 * acc + (unat c - 48) in if v < bound then parse_digits bound v cs else None
     else None)"

definition parse_unsigned :: "nat \<Rightarrow> rstring \<Rightarrow> nat option" where
  "parse_unsigned bound s =
    (let digits = (case s of c # cs \<Rightarrow> if c = 43 then cs else s | [] \<Rightarrow> [])
     in if digits = [] then None else parse_digits bound 0 digits)"

definition parse_u16 :: "rstring \<Rightarrow> u16 option" where
  "parse_u16 s = map_option of_nat (parse_unsigned (2 ^ 16) s)"

definition parse_u32 :: "rstring \<Rightarrow> u32 option" where
  "parse_u32 s = map_option of_nat (parse_unsigned (2 ^ 32) s)"

datatype port_error = InvalidRange rstring | DescendingRange rstring

definition parse_port_range :: "rstring \<Rightarrow> (u16 list, port_error) res" where
  "parse_port_range value =
    (case (case split_once 45 value of Some p \<Rightarrow> p | None \<Rightarrow> (value, value)) of (lo, hi) \<Rightarrow>
     res_bind (ok_or (parse_u16 lo) (InvalidRange value)) (\<lambda>lo.
     res_bind (ok_or (parse_u16 hi) (InvalidRange value)) (\<lambda>hi.
       if lo > hi then Err (DescendingRange value) else Ok [lo, hi])))"

section \<open>The configuration cache\<close>

text \<open>
  \<open>x[0]..=x[1]\<close> panics on a list of fewer than two elements, and \<open>RegexSet::new(..).unwrap()\<close> on a pattern that
  does not compile. A regular-expression set is an element of a type \<open>'r\<close>.
\<close>

record 'r ConfigCache =
  blocked_ports :: "(u16 \<times> u16) list"
  allowed_ports :: "(u16 \<times> u16) list"
  allowed_hosts :: 'r
  blocked_hosts :: 'r
  allowed_tcp_hosts :: 'r
  blocked_tcp_hosts :: 'r
  allowed_udp_hosts :: 'r
  blocked_udp_hosts :: 'r

definition port_range :: "u16 list \<Rightarrow> (u16 \<times> u16, 'e) res" where
  "port_range x = (case x of a # b # _ \<Rightarrow> Ok (a, b) | _ \<Rightarrow> Panic)"

fun res_traverse :: "('a \<Rightarrow> ('b, 'e) res) \<Rightarrow> 'a list \<Rightarrow> ('b list, 'e) res" where
  "res_traverse f [] = Ok []"
| "res_traverse f (x # xs) = res_bind (f x) (\<lambda>y. res_bind (res_traverse f xs) (\<lambda>ys. Ok (y # ys)))"

definition unwrap :: "'a option \<Rightarrow> ('a, 'e) res" where
  "unwrap x = (case x of None \<Rightarrow> Panic | Some v \<Rightarrow> Ok v)"

definition config_cache ::
    "(rstring list \<Rightarrow> 'r option) \<Rightarrow> StreamConfig \<Rightarrow> ('r ConfigCache, 'e) res" where
  "config_cache RegexSet_new c =
     res_bind (res_traverse port_range (allow_ports c)) (\<lambda>ap.
     res_bind (res_traverse port_range (block_ports c)) (\<lambda>bp.
     res_bind (unwrap (RegexSet_new (allow_hosts c))) (\<lambda>ah.
     res_bind (unwrap (RegexSet_new (block_hosts c))) (\<lambda>bh.
     res_bind (unwrap (RegexSet_new (allow_tcp_hosts c))) (\<lambda>ath.
     res_bind (unwrap (RegexSet_new (block_tcp_hosts c))) (\<lambda>bth.
     res_bind (unwrap (RegexSet_new (allow_udp_hosts c))) (\<lambda>auh.
     res_bind (unwrap (RegexSet_new (block_udp_hosts c))) (\<lambda>buh.
       Ok \<lparr>blocked_ports = bp, allowed_ports = ap, allowed_hosts = ah, blocked_hosts = bh,
           allowed_tcp_hosts = ath, blocked_tcp_hosts = bth, allowed_udp_hosts = auh,
           blocked_udp_hosts = buh\<rparr>))))))))"

section \<open>Extension settings\<close>

text \<open>Errors of the server, which the code carries in \<open>anyhow::Error\<close>.\<close>

datatype anyhow = IoError | PemError | WispErr WispError | Utf8Err | ParseErr | DecodeErr | ResolveErr

text \<open>
  Reading a file, decoding a public key (its verifier and its bytes) and the digest come from other
  crates.
\<close>

record key_files =
  read_to_string :: "rstring \<Rightarrow> rstring option"
  from_public_key_pem :: "rstring \<Rightarrow> ((bytes \<Rightarrow> bytes \<Rightarrow> bool) \<times> bytes) option"
  sha256 :: "bytes \<Rightarrow> bytes"

definition get_certificates_from_paths :: "key_files \<Rightarrow> rstring list \<Rightarrow> (VerifyKey list, anyhow) res" where
  "get_certificates_from_paths kf = res_traverse (\<lambda>path.
     res_bind (ok_or (read_to_string kf path) IoError) (\<lambda>data.
     res_bind (ok_or (from_public_key_pem kf data) PemError) (\<lambda>(verifier, binary_key).
       Ok (VerifyKey_new_ed25519 verifier (sha256 kf binary_key)))))"

definition has_wispnet :: "WispConfig \<Rightarrow> bool" where
  "has_wispnet c \<longleftrightarrow> ExtWispnet \<in> set (wisp_extensions c)"

definition to_opts ::
    "key_files \<Rightarrow> WispConfig \<Rightarrow> (WispV2Handshake option \<times> u8 list \<times> u32, anyhow) res" where
  "to_opts kf c =
    (if wisp_v2 c then
       (let exts = (if ExtUdp \<in> set (wisp_extensions c) then [UdpBuilder] else [])
              @ (if ExtMotd \<in> set (wisp_extensions c) then [MotdBuilder (MotdServer (motd_extension c))] else [])
        in res_bind (case auth_extension c of
               Some AuthPassword \<Rightarrow>
                 Ok (exts @ [PasswordBuilder (PwbServerBeforeClientInfo (password_extension_users c)
                       (password_extension_required c))],
                     if password_extension_required c then [PASSWORD_PROTOCOL_EXTENSION_ID] else [])
             | Some AuthCertificate \<Rightarrow>
                 res_bind (get_certificates_from_paths kf (certificate_extension_keys c)) (\<lambda>keys.
                   Ok (exts @ [CertAuthBuilder (ServerBeforeChallenge keys (certificate_extension_required c))],
                       if certificate_extension_required c then [CertAuth_ID] else []))
             | None \<Rightarrow> Ok (exts, []))
           (\<lambda>(exts, required). Ok (Some (WispV2Handshake_new exts), required, wisp_buffer_size c)))
     else Ok (None, [], wisp_buffer_size c))"

text \<open>What the server does before it listens: both must not panic.\<close>

definition validate_config_cache ::
    "(rstring list \<Rightarrow> 'r option) \<Rightarrow> key_files \<Rightarrow> 'l Config \<Rightarrow> ('r ConfigCache, anyhow) res" where
  "validate_config_cache RegexSet_new kf c =
     res_bind (config_cache RegexSet_new (stream c)) (\<lambda>cache.
       case to_opts kf (wisp c) of Ok _ \<Rightarrow> Ok cache | _ \<Rightarrow> Panic)"

section \<open>Port ranges round trip\<close>

text \<open>Decimal notation, as \<open>Display\<close> prints an integer.\<close>

fun dec :: "nat \<Rightarrow> rstring" where
  "dec n = (if n < 10 then [of_nat (48 + n)] else dec (n div 10) @ [of_nat (48 + n mod 10)])"

declare dec.simps [simp del]

lemma digit_char:
  assumes "d < 10"
  shows "48 \<le> (of_nat (48 + d) :: u8)" "(of_nat (48 + d) :: u8) \<le> 57" "unat (of_nat (48 + d) :: u8) = 48 + d"
proof -
  show u: "unat (of_nat (48 + d) :: u8) = 48 + d"
    using assms by (simp add: unat_of_nat del: of_nat_add of_nat_numeral)
  show "48 \<le> (of_nat (48 + d) :: u8)" "(of_nat (48 + d) :: u8) \<le> 57"
    unfolding word_le_nat_alt u using assms by simp_all
qed

lemma parse_digits_append:
  "parse_digits bound acc (xs @ ys) = Option.bind (parse_digits bound acc xs) (\<lambda>v. parse_digits bound v ys)"
  by (induction xs arbitrary: acc) (auto simp: Let_def)

lemma parse_digits_digit:
  assumes "d < 10" "10 * acc + d < bound"
  shows "parse_digits bound acc [of_nat (48 + d)] = Some (10 * acc + d)"
proof -
  note ch = digit_char [OF assms(1)]
  have "unat (of_nat (48 + d) :: u8) - 48 = d" using ch(3) by simp
  then show ?thesis using ch(1,2) assms(2) by (simp only: parse_digits.simps Let_def if_True simp_thms)
qed

lemma parse_digits_dec: "n < bound \<Longrightarrow> parse_digits bound 0 (dec n) = Some n"
proof (induction n rule: dec.induct)
  case (1 n)
  show ?case
  proof (cases "n < 10")
    case True
    then show ?thesis using parse_digits_digit [of n 0 bound] 1(2) by (simp add: dec.simps)
  next
    case False
    have "n div 10 < bound" using 1(2) by (metis div_le_dividend le_less_trans)
    from 1(1) [OF False this] have "parse_digits bound 0 (dec (n div 10)) = Some (n div 10)" .
    moreover have "parse_digits bound (n div 10) [of_nat (48 + n mod 10)] = Some n"
      using parse_digits_digit [of "n mod 10" "n div 10" bound] 1(2) by simp
    ultimately show ?thesis
      using False by (subst dec.simps) (simp only: parse_digits_append if_False Option.bind.bind_lunit)
  qed
qed

lemma dec_range: "c \<in> set (dec n) \<Longrightarrow> 48 \<le> c \<and> c \<le> 57"
proof (induction n rule: dec.induct)
  case (1 n)
  then show ?case
    using digit_char [of n] digit_char [of "n mod 10"] by (subst (asm) (2) dec.simps) (auto split: if_splits)
qed

lemma dec_not_nil: "dec n \<noteq> []"
  by (subst dec.simps) simp

lemma dec_head: "dec n = c # cs \<Longrightarrow> c \<noteq> 43"
  using dec_range [of c n] by auto

lemma parse_unsigned_dec: "n < bound \<Longrightarrow> parse_unsigned bound (dec n) = Some n"
  using parse_digits_dec [of n bound] dec_not_nil [of n] dec_head [of n]
  by (auto simp: parse_unsigned_def Let_def split: list.splits)

lemma split_once_append: "c \<notin> set xs \<Longrightarrow> split_once c (xs @ c # ys) = Some (xs, ys)"
  by (induction xs) auto

lemma split_once_None: "c \<notin> set xs \<Longrightarrow> split_once c xs = None"
  by (induction xs) auto

lemma parse_u16_dec [simp]: "parse_u16 (dec (unat a)) = Some a"
proof -
  have "unat a < 2 ^ 16" using unsigned_less [of a] by simp
  then show ?thesis by (simp add: parse_u16_def parse_unsigned_dec)
qed

lemma dec_no_dash: "45 \<notin> set (dec n)"
  using dec_range [of 45 n] by auto

text \<open>
  A port range survives its text form and nothing else is accepted as a range: what
  \<open>parse_port_range\<close> accepts has exactly two bounds in ascending order, so that building the
  configuration cache cannot panic on it; every ascending range is accepted in the form
  \<open>low-high\<close> and every single port as itself, and a descending pair is refused.
\<close>

theorem port_range_round_trip:
  "(parse_port_range s = Ok r \<longrightarrow> (\<exists>a b. r = [a, b] \<and> a \<le> b \<and> port_range r = (Ok (a, b) :: (u16 \<times> u16, unit) res)))
   \<and> parse_port_range (dec (unat p)) = Ok [p, p]
   \<and> parse_port_range (dec (unat a) @ 45 # dec (unat b)) =
       (if a \<le> b then Ok [a, b] else Err (DescendingRange (dec (unat a) @ 45 # dec (unat b))))"
proof (intro conjI)
  show "parse_port_range s = Ok r \<longrightarrow>
      (\<exists>a b. r = [a, b] \<and> a \<le> b \<and> port_range r = (Ok (a, b) :: (u16 \<times> u16, unit) res))"
    by (auto simp: parse_port_range_def port_range_def split: prod.splits if_splits)
  show "parse_port_range (dec (unat p)) = Ok [p, p]"
    by (simp add: parse_port_range_def split_once_None dec_no_dash ok_or_def)
  show "parse_port_range (dec (unat a) @ 45 # dec (unat b)) =
       (if a \<le> b then Ok [a, b] else Err (DescendingRange (dec (unat a) @ 45 # dec (unat b))))"
    by (auto simp: parse_port_range_def split_once_append dec_no_dash ok_or_def)
qed

theorem port_range_round_trip_witness:
  "parse_port_range (str ''80'') = Ok [80, 80]
   \<and> port_range [80, 80] = (Ok (80, 80) :: (u16 \<times> u16, unit) res)
   \<and> parse_port_range (str ''80-443'') = Ok [80, 443]
   \<and> parse_port_range (str ''443-80'') = Err (DescendingRange (str ''443-80''))"
proof -
  have "str ''80'' = dec (unat (80 :: u16))" "str ''80-443'' = dec (unat (80 :: u16)) @ 45 # dec (unat (443 :: u16))"
    "str ''443-80'' = dec (unat (443 :: u16)) @ 45 # dec (unat (80 :: u16))"
    by (simp_all add: str_def dec.simps)
  then show ?thesis
    using port_range_round_trip [of "str ''80''" "[80, 80]" 80 80 443]
      port_range_round_trip [of "str ''80''" "[80, 80]" 80 443 80]
    by auto
qed

section \<open>Overrides\<close>

definition or_else :: "'v option \<Rightarrow> 'v \<Rightarrow> 'v" where
  "or_else x d = (case x of None \<Rightarrow> d | Some v \<Rightarrow> v)"

lemma or_else_twice [simp]: "or_else x (or_else x d) = or_else x d"
  by (simp add: or_else_def split: option.splits)

lemma override_stream:
  "override x_allow_ports (\<lambda>v c. c\<lparr>allow_ports := v\<rparr>) c = c\<lparr>allow_ports := or_else x_allow_ports (allow_ports c)\<rparr>"
  "override x_allow_non_global (\<lambda>v c. c\<lparr>allow_non_global := v\<rparr>) c = c\<lparr>allow_non_global := or_else x_allow_non_global (allow_non_global c)\<rparr>"
  "override x_allow_global (\<lambda>v c. c\<lparr>allow_global := v\<rparr>) c = c\<lparr>allow_global := or_else x_allow_global (allow_global c)\<rparr>"
  "override x_allow_multicast (\<lambda>v c. c\<lparr>allow_multicast := v\<rparr>) c = c\<lparr>allow_multicast := or_else x_allow_multicast (allow_multicast c)\<rparr>"
  "override x_allow_loopback (\<lambda>v c. c\<lparr>allow_loopback := v\<rparr>) c = c\<lparr>allow_loopback := or_else x_allow_loopback (allow_loopback c)\<rparr>"
  "override x_allow_direct_ip (\<lambda>v c. c\<lparr>allow_direct_ip := v\<rparr>) c = c\<lparr>allow_direct_ip := or_else x_allow_direct_ip (allow_direct_ip c)\<rparr>"
  "override x_allow_wsproxy_udp (\<lambda>v c. c\<lparr>allow_wsproxy_udp := v\<rparr>) c = c\<lparr>allow_wsproxy_udp := or_else x_allow_wsproxy_udp (allow_wsproxy_udp c)\<rparr>"
  "override x_allow_udp (\<lambda>v c. c\<lparr>allow_udp := v\<rparr>) c = c\<lparr>allow_udp := or_else x_allow_udp (allow_udp c)\<rparr>"
  "override x_stream_buffer_size (\<lambda>v c. c\<lparr>stream_buffer_size := v\<rparr>) c = c\<lparr>stream_buffer_size := or_else x_stream_buffer_size (stream_buffer_size c)\<rparr>"
  "override x_stream_tcp_nodelay (\<lambda>v c. c\<lparr>stream_tcp_nodelay := v\<rparr>) c = c\<lparr>stream_tcp_nodelay := or_else x_stream_tcp_nodelay (stream_tcp_nodelay c)\<rparr>"
  by (simp_all add: override_def or_else_def split: option.splits)

lemma override_wisp:
  "override x_wisp_extensions (\<lambda>v c. c\<lparr>wisp_extensions := v\<rparr>) c = c\<lparr>wisp_extensions := or_else x_wisp_extensions (wisp_extensions c)\<rparr>"
  "override x_wisp_v2 (\<lambda>v c. c\<lparr>wisp_v2 := v\<rparr>) c = c\<lparr>wisp_v2 := or_else x_wisp_v2 (wisp_v2 c)\<rparr>"
  "override x_wisp_prefix (\<lambda>v c. c\<lparr>wisp_prefix := v\<rparr>) c = c\<lparr>wisp_prefix := or_else x_wisp_prefix (wisp_prefix c)\<rparr>"
  "override x_wisp_buffer_size (\<lambda>v c. c\<lparr>wisp_buffer_size := v\<rparr>) c = c\<lparr>wisp_buffer_size := or_else x_wisp_buffer_size (wisp_buffer_size c)\<rparr>"
  "override x_allow_wsproxy (\<lambda>v c. c\<lparr>allow_wsproxy := v\<rparr>) c = c\<lparr>allow_wsproxy := or_else x_allow_wsproxy (allow_wsproxy c)\<rparr>"
  by (simp_all add: override_def or_else_def split: option.splits)

lemma override_server:
  "override x_log_level (\<lambda>v c. c\<lparr>log_level := v\<rparr>) c = c\<lparr>log_level := or_else x_log_level (log_level c)\<rparr>"
  "override x_transport (\<lambda>v c. c\<lparr>transport := v\<rparr>) c = c\<lparr>transport := or_else x_transport (transport c)\<rparr>"
  "override x_runtime (\<lambda>v c. c\<lparr>runtime := v\<rparr>) c = c\<lparr>runtime := or_else x_runtime (runtime c)\<rparr>"
  "override x (\<lambda>v c. c\<lparr>autoconfigure_domain := Some v\<rparr>) c =
     c\<lparr>autoconfigure_domain := or_else (map_option Some x) (autoconfigure_domain c)\<rparr>"
  "override y (\<lambda>v c. c\<lparr>bind := (fst (bind c), v)\<rparr>) c = c\<lparr>bind := (fst (bind c), or_else y (snd (bind c)))\<rparr>"
  by (simp_all add: override_def or_else_def split: option.splits)

lemma apply_stream_eq: "apply_stream e c = c
    \<lparr>allow_ports := or_else (env_stream_allow_ports e) (allow_ports c), allow_non_global := or_else (env_stream_allow_non_global e) (allow_non_global c),
     allow_global := or_else (env_stream_allow_global e) (allow_global c), allow_multicast := or_else (env_stream_allow_multicast e) (allow_multicast c),
     allow_loopback := or_else (env_stream_allow_loopback e) (allow_loopback c), allow_direct_ip := or_else (env_stream_allow_direct_ip e) (allow_direct_ip c),
     allow_wsproxy_udp := or_else (env_stream_allow_wsproxy_udp e) (allow_wsproxy_udp c), allow_udp := or_else (env_stream_allow_udp e) (allow_udp c),
     stream_buffer_size := or_else (env_stream_buffer_size e) (stream_buffer_size c), stream_tcp_nodelay := or_else (env_stream_tcp_nodelay e) (stream_tcp_nodelay c)\<rparr>"
  by (simp add: apply_stream_def override_stream)

lemma apply_wisp_eq: "apply_wisp e c = c
    \<lparr>wisp_extensions := or_else (env_protocol_extensions e) (wisp_extensions c), wisp_v2 := or_else (env_protocol_v2 e) (wisp_v2 c),
     wisp_prefix := or_else (env_protocol_prefix e) (wisp_prefix c), wisp_buffer_size := or_else (env_protocol_buffer_size e) (wisp_buffer_size c),
     allow_wsproxy := or_else (env_protocol_allow_wsproxy e) (allow_wsproxy c)\<rparr>"
  by (simp add: apply_wisp_def override_wisp)

lemma apply_server_eq: "apply_server e c = c
    \<lparr>autoconfigure_domain := or_else (map_option Some (env_autoconfigure_domain e)) (autoconfigure_domain c),
     log_level := or_else (env_server_log_level e) (log_level c),
     transport := or_else (env_server_transport e) (transport c),
     runtime := or_else (env_server_runtime e) (runtime c),
     bind := (fst (bind c), or_else (env_server_bind e) (snd (bind c)))\<rparr>"
  by (simp add: apply_server_def override_server)

text \<open>
  The environment may only change what it names. A variable that is set wins over the file,
  whatever the others are; one that is not set leaves the setting alone. No variable can touch
  the authentication settings, the lists of blocked hosts and ports, the host allow-lists, TLS or the
  use of proxy headers. Applying the environment twice is applying it once.
\<close>

theorem environment_overrides:
  "let d = apply_to e c in
     apply_to e d = d
   \<and> snd (bind (server d)) = or_else (env_server_bind e) (snd (bind (server c)))
   \<and> fst (bind (server d)) = fst (bind (server c))
   \<and> wisp_v2 (wisp d) = or_else (env_protocol_v2 e) (wisp_v2 (wisp c))
   \<and> wisp_extensions (wisp d) =
       or_else (env_protocol_extensions e) (wisp_extensions (wisp c))
   \<and> allow_udp (stream d) = or_else (env_stream_allow_udp e) (allow_udp (stream c))
   \<and> allow_non_global (stream d) =
       or_else (env_stream_allow_non_global e) (allow_non_global (stream c))
   \<and> allow_ports (stream d) = or_else (env_stream_allow_ports e) (allow_ports (stream c))
   \<and> auth_extension (wisp d) = auth_extension (wisp c)
   \<and> password_extension_users (wisp d) = password_extension_users (wisp c)
   \<and> password_extension_required (wisp d) = password_extension_required (wisp c)
   \<and> certificate_extension_keys (wisp d) = certificate_extension_keys (wisp c)
   \<and> certificate_extension_required (wisp d) = certificate_extension_required (wisp c)
   \<and> block_ports (stream d) = block_ports (stream c) \<and> block_hosts (stream d) = block_hosts (stream c)
   \<and> block_tcp_hosts (stream d) = block_tcp_hosts (stream c)
   \<and> block_udp_hosts (stream d) = block_udp_hosts (stream c)
   \<and> allow_hosts (stream d) = allow_hosts (stream c)
   \<and> tls_keypair (server d) = tls_keypair (server c)
   \<and> use_real_ip_headers (server d) = use_real_ip_headers (server c)"
  unfolding apply_to_def apply_server_eq apply_wisp_eq apply_stream_eq Let_def by simp

end
