(* ===== verification/Server_Policy.thy ===== *)
theory Server_Policy
  imports Server_Config "HOL-Library.Sublist"
begin

text \<open>
  Which upstream a client may reach, \<open>server/src/stream.rs\<close>: \<open>ClientStream::resolve\<close> applies the
  configured policy to a CONNECT packet, \<open>ClientStream::connect\<close> opens the socket.

  The record \<open>net\<close> holds what comes from elsewhere: matching a regular-expression set, the DNS
  resolver, base64, and the text form of IP addresses, whose law is that printing an address and
  parsing it again gives the address. \<open>feature_twisp\<close> is the build feature of that name.
\<close>

section \<open>Definitions\<close>

record 'r net =
  is_match :: "'r \<Rightarrow> rstring \<Rightarrow> bool"
  dns_resolve :: "rstring \<Rightarrow> IpAddr list option"
  base64_decode :: "rstring \<Rightarrow> bytes option"
  ip_from_str :: "rstring \<Rightarrow> IpAddr option"
  ip_to_string :: "IpAddr \<Rightarrow> rstring"
  feature_twisp :: bool

definition ip_text_law :: "'r net \<Rightarrow> bool" where
  "ip_text_law n \<longleftrightarrow> (\<forall>a. ip_from_str n (ip_to_string n a) = Some a)"

definition match_addr :: "'r net \<Rightarrow> rstring \<Rightarrow> 'r \<Rightarrow> 'r \<Rightarrow> bool" where
  "match_addr n s allowed blocked \<longleftrightarrow> is_match n blocked s \<and> \<not> is_match n allowed s"

definition allowed_set :: "'r ConfigCache \<Rightarrow> StreamType \<Rightarrow> ('r, 'e) res" where
  "allowed_set cache ty = (case ty of
      Tcp \<Rightarrow> Ok (allowed_tcp_hosts cache) | Udp \<Rightarrow> Ok (allowed_udp_hosts cache) | _ \<Rightarrow> Panic)"

definition blocked_set :: "'r ConfigCache \<Rightarrow> StreamType \<Rightarrow> ('r, 'e) res" where
  "blocked_set cache ty = (case ty of
      Tcp \<Rightarrow> Ok (blocked_tcp_hosts cache) | Udp \<Rightarrow> Ok (blocked_udp_hosts cache) | _ \<Rightarrow> Panic)"

datatype ResolvedPacket =
    Valid ConnectPacket
  | ValidWispnet u32 ConnectPacket
  | NoResolvedAddrs
  | Blocked
  | Invalid

definition ends_with :: "rstring \<Rightarrow> rstring \<Rightarrow> bool" where
  "ends_with s suf \<longleftrightarrow> suffix suf s"

text \<open>\<open>str::split(sep).next()\<close>: what precedes the first occurrence of the separator.\<close>

fun before :: "rstring \<Rightarrow> rstring \<Rightarrow> rstring" where
  "before sep [] = []"
| "before sep (x # xs) = (if prefix sep (x # xs) then [] else x # before sep xs)"

definition wisp_suffix :: rstring where
  "wisp_suffix = str ''.wisp''"

definition in_ranges :: "(u16 \<times> u16) list \<Rightarrow> u16 \<Rightarrow> bool" where
  "in_ranges rs p \<longleftrightarrow> list_ex (\<lambda>(a, b). a \<le> p \<and> p \<le> b) rs"

definition TWISP_STREAM_TYPE :: u8 where
  "TWISP_STREAM_TYPE = 0x03"

text \<open>The checks on one resolved address.\<close>

definition check_addr :: "'r net \<Rightarrow> StreamConfig \<Rightarrow> ConnectPacket \<Rightarrow> IpAddr \<Rightarrow> ResolvedPacket" where
  "check_addr n c packet addr =
    (if is_loopback addr \<and> \<not> allow_loopback c then Blocked
     else if is_multicast addr \<and> \<not> allow_multicast c then Blocked
     else if (is_global addr \<and> \<not> allow_global c) \<or> (\<not> is_global addr \<and> \<not> allow_non_global c) then Blocked
     else Valid \<lparr>stream_type = stream_type packet, host = ip_to_string n addr, port = port packet\<rparr>)"

text \<open>From the port check on: the part that TCP and UDP streams reach.\<close>

definition resolve_host ::
    "'r net \<Rightarrow> 'l Config \<Rightarrow> 'r ConfigCache \<Rightarrow> ConnectPacket \<Rightarrow> (ResolvedPacket, anyhow) res" where
  "resolve_host n cfg cache packet =
    (if in_ranges (blocked_ports cache) (port packet) \<and> \<not> in_ranges (allowed_ports cache) (port packet)
     then Ok Blocked
     else if ip_from_str n (host packet) \<noteq> None \<and> \<not> allow_direct_ip (stream cfg) then Ok Blocked
     else
       res_bind (allowed_set cache (stream_type packet)) (\<lambda>allowed.
       res_bind (blocked_set cache (stream_type packet)) (\<lambda>blocked.
         if match_addr n (host packet) allowed blocked then Ok Blocked
         else if match_addr n (host packet) (allowed_hosts cache) (blocked_hosts cache)
              \<and> \<not> is_match n allowed (host packet)
         then Ok Blocked
         else
           res_bind (ok_or (dns_resolve n (host packet)) ResolveErr) (\<lambda>addrs.
             Ok (case map (check_addr n (stream cfg) packet)
                       (filter (\<lambda>x. resolve_ipv6 (server cfg) \<or> is_ipv4 x) addrs) of
                   [] \<Rightarrow> NoResolvedAddrs
                 | r # _ \<Rightarrow> r)))))"

definition resolve ::
    "'r net \<Rightarrow> 'l Config \<Rightarrow> 'r ConfigCache \<Rightarrow> ConnectPacket \<Rightarrow> (ResolvedPacket, anyhow) res" where
  "resolve n cfg cache packet =
    (if has_wispnet (wisp cfg) \<and> ends_with (host packet) wisp_suffix then
       res_bind (ok_or (base64_decode n (before wisp_suffix (host packet))) DecodeErr) (\<lambda>decoded.
       res_bind (if utf8_valid decoded then Ok decoded else Err Utf8Err) (\<lambda>text.
       res_bind (ok_or (parse_u32 text) ParseErr) (\<lambda>server_id.
         Ok (ValidWispnet server_id packet))))
     else (case stream_type packet of
        StreamTypeOther ty \<Rightarrow>
          (if feature_twisp n \<and> ty = TWISP_STREAM_TYPE \<and> allow_twisp (stream cfg) \<and> wisp_v2 (wisp cfg)
           then Ok (Valid packet) else Ok Invalid)
      | _ \<Rightarrow>
          (if \<not> allow_udp (stream cfg) \<and> stream_type packet = Udp then Ok Blocked
           else resolve_host n cfg cache packet)))"

text \<open>
  \<open>connect\<close>: what it opens, or the error it fails with. The sockets of the operating system are
  the argument \<open>os\<close>: whether a TCP connection, binding and connecting a UDP socket, and spawning a
  command succeed.
\<close>

datatype ClientStream =
    TcpStream IpAddr u16
  | UdpSocket IpAddr IpAddr u16
  | Pty "rstring list"
  | StreamNoResolvedAddrs
  | StreamBlocked
  | StreamInvalid
  | WispnetStream u32 rstring

record os =
  tcp_connect :: "IpAddr \<Rightarrow> u16 \<Rightarrow> bool"
  set_nodelay :: "IpAddr \<Rightarrow> u16 \<Rightarrow> bool"
  udp_bind :: "IpAddr \<Rightarrow> bool"
  udp_connect :: "IpAddr \<Rightarrow> u16 \<Rightarrow> bool"
  shell_split :: "rstring \<Rightarrow> rstring list option"
  pty_spawn :: "rstring list \<Rightarrow> bool"

definition connect ::
    "'r net \<Rightarrow> os \<Rightarrow> 'l Config \<Rightarrow> ConnectPacket \<Rightarrow> (ClientStream, anyhow) res" where
  "connect n o_s cfg packet = (case stream_type packet of
      Tcp \<Rightarrow>
        res_bind (ok_or (ip_from_str n (host packet)) ParseErr) (\<lambda>ip.
          if \<not> tcp_connect o_s ip (port packet) then Err IoError
          else if stream_tcp_nodelay (stream cfg) \<and> \<not> set_nodelay o_s ip (port packet) then Err IoError
          else Ok (TcpStream ip (port packet)))
    | Udp \<Rightarrow>
        (if \<not> allow_udp (stream cfg) then Ok StreamBlocked
         else res_bind (ok_or (ip_from_str n (host packet)) ParseErr) (\<lambda>ip.
           let bind_addr = (if is_ipv4 ip then V4 (Ipv4Addr 0 0 0 0) else V6 (Ipv6Addr 0 0 0 0 0 0 0 0))
           in if \<not> udp_bind o_s bind_addr then Err IoError
              else if \<not> udp_connect o_s ip (port packet) then Err IoError
              else Ok (UdpSocket bind_addr ip (port packet))))
    | StreamTypeOther ty \<Rightarrow>
        (if feature_twisp n \<and> ty = TWISP_STREAM_TYPE then
           if \<not> allow_twisp (stream cfg) then Ok StreamBlocked
           else res_bind (ok_or (shell_split o_s (host packet)) ParseErr) (\<lambda>cmdline.
             if cmdline = [] then Panic
             else if pty_spawn o_s cmdline then Ok (Pty cmdline) else Err IoError)
         else Ok StreamInvalid))"

section \<open>The policy as a specification\<close>

definition port_permitted :: "'r ConfigCache \<Rightarrow> u16 \<Rightarrow> bool" where
  "port_permitted cache p \<longleftrightarrow> in_ranges (allowed_ports cache) p \<or> \<not> in_ranges (blocked_ports cache) p"

text \<open>
  A host on the list of its stream type passes; otherwise it must not be blocked for the type, and
  if it is blocked in general it must be allowed in general.
\<close>

definition host_permitted :: "'r net \<Rightarrow> 'r ConfigCache \<Rightarrow> StreamType \<Rightarrow> rstring \<Rightarrow> bool" where
  "host_permitted n cache ty h \<longleftrightarrow>
     is_match n (if ty = Tcp then allowed_tcp_hosts cache else allowed_udp_hosts cache) h
   \<or> \<not> is_match n (if ty = Tcp then blocked_tcp_hosts cache else blocked_udp_hosts cache) h
     \<and> (is_match n (allowed_hosts cache) h \<or> \<not> is_match n (blocked_hosts cache) h)"

definition addr_permitted :: "StreamConfig \<Rightarrow> IpAddr \<Rightarrow> bool" where
  "addr_permitted c a \<longleftrightarrow>
     (is_loopback a \<longrightarrow> allow_loopback c) \<and> (is_multicast a \<longrightarrow> allow_multicast c)
   \<and> (if is_global a then allow_global c else allow_non_global c)"

definition is_wispnet :: "'l Config \<Rightarrow> ConnectPacket \<Rightarrow> bool" where
  "is_wispnet cfg p \<longleftrightarrow> has_wispnet (wisp cfg) \<and> ends_with (host p) wisp_suffix"

definition request_permitted :: "'r net \<Rightarrow> 'l Config \<Rightarrow> 'r ConfigCache \<Rightarrow> ConnectPacket \<Rightarrow> bool" where
  "request_permitted n cfg cache p \<longleftrightarrow>
     (stream_type p = Tcp \<or> stream_type p = Udp \<and> allow_udp (stream cfg))
   \<and> port_permitted cache (port p)
   \<and> (allow_direct_ip (stream cfg) \<or> ip_from_str n (host p) = None)
   \<and> host_permitted n cache (stream_type p) (host p)"

text \<open>The addresses of a host that the server considers.\<close>

definition candidates :: "'r net \<Rightarrow> 'l Config \<Rightarrow> rstring \<Rightarrow> IpAddr list" where
  "candidates n cfg h = (case dns_resolve n h of None \<Rightarrow> []
     | Some addrs \<Rightarrow> filter (\<lambda>x. resolve_ipv6 (server cfg) \<or> is_ipv4 x) addrs)"

section \<open>Lemmas\<close>

lemma check_addr_eq:
  "check_addr n c p a = (if addr_permitted c a
     then Valid \<lparr>stream_type = stream_type p, host = ip_to_string n a, port = port p\<rparr> else Blocked)"
  by (simp add: check_addr_def addr_permitted_def)

lemma resolve_host_eq:
  assumes "stream_type p = Tcp \<or> stream_type p = Udp"
  shows "resolve_host n cfg cache p =
    (if \<not> port_permitted cache (port p) \<or> (\<not> allow_direct_ip (stream cfg) \<and> ip_from_str n (host p) \<noteq> None)
        \<or> \<not> host_permitted n cache (stream_type p) (host p) then Ok Blocked
     else case dns_resolve n (host p) of None \<Rightarrow> Err ResolveErr
       | Some addrs \<Rightarrow> Ok (case candidates n cfg (host p) of
           [] \<Rightarrow> NoResolvedAddrs | a # _ \<Rightarrow> check_addr n (stream cfg) p a))"
proof -
  define A where "A = (if stream_type p = Tcp then allowed_tcp_hosts cache else allowed_udp_hosts cache)"
  define B where "B = (if stream_type p = Tcp then blocked_tcp_hosts cache else blocked_udp_hosts cache)"
  have sets: "allowed_set cache (stream_type p) = (Ok A :: (_, anyhow) res)"
      "blocked_set cache (stream_type p) = (Ok B :: (_, anyhow) res)"
    using assms by (auto simp: allowed_set_def blocked_set_def A_def B_def)
  have host: "host_permitted n cache (stream_type p) (host p) \<longleftrightarrow> \<not> match_addr n (host p) A B
      \<and> \<not> (match_addr n (host p) (allowed_hosts cache) (blocked_hosts cache) \<and> \<not> is_match n A (host p))"
    unfolding host_permitted_def match_addr_def A_def B_def by argo
  have first: "(case map (check_addr n (stream cfg) p) (candidates n cfg (host p)) of
      [] \<Rightarrow> NoResolvedAddrs | r # _ \<Rightarrow> r) =
    (case candidates n cfg (host p) of [] \<Rightarrow> NoResolvedAddrs | a # _ \<Rightarrow> check_addr n (stream cfg) p a)"
    by (simp split: list.splits)
  show ?thesis
    unfolding resolve_host_def sets res_bind.simps first [symmetric] host port_permitted_def
    by (cases "dns_resolve n (host p)") (simp_all add: candidates_def ok_or_def, auto)
qed

lemma resolve_eq:
  "resolve n cfg cache p =
    (if is_wispnet cfg p then
       res_bind (ok_or (base64_decode n (before wisp_suffix (host p))) DecodeErr) (\<lambda>decoded.
       res_bind (if utf8_valid decoded then Ok decoded else Err Utf8Err) (\<lambda>text.
       res_bind (ok_or (parse_u32 text) ParseErr) (\<lambda>i. Ok (ValidWispnet i p))))
     else case stream_type p of
       StreamTypeOther ty \<Rightarrow>
         Ok (if feature_twisp n \<and> ty = TWISP_STREAM_TYPE \<and> allow_twisp (stream cfg) \<and> wisp_v2 (wisp cfg)
             then Valid p else Invalid)
     | _ \<Rightarrow> if request_permitted n cfg cache p
         then case dns_resolve n (host p) of None \<Rightarrow> Err ResolveErr
           | Some addrs \<Rightarrow> Ok (case candidates n cfg (host p) of
               [] \<Rightarrow> NoResolvedAddrs | a # _ \<Rightarrow> check_addr n (stream cfg) p a)
         else Ok Blocked)"
  by (cases "stream_type p")
    (auto simp: resolve_def is_wispnet_def request_permitted_def resolve_host_eq)

lemma resolve_Valid:
  "(resolve n cfg cache p = Ok (Valid q) \<and> (stream_type p = Tcp \<or> stream_type p = Udp)) \<longleftrightarrow>
   (\<exists>a rest. \<not> is_wispnet cfg p \<and> request_permitted n cfg cache p
      \<and> candidates n cfg (host p) = a # rest \<and> addr_permitted (stream cfg) a
      \<and> q = \<lparr>stream_type = stream_type p, host = ip_to_string n a, port = port p\<rparr>)"
proof (cases "stream_type p = Tcp \<or> stream_type p = Udp")
  case True
  then show ?thesis
    by (auto simp: resolve_eq check_addr_eq candidates_def split: option.splits list.splits if_splits)
next
  case False
  then show ?thesis by (simp add: request_permitted_def)
qed

lemma resolve_not_Panic: "resolve n cfg cache p \<noteq> Panic"
  by (cases "stream_type p") (auto simp: resolve_eq ok_or_def split: option.splits if_splits)

lemma connect_Panic_iff:
  "connect n o_s cfg p = Panic \<longleftrightarrow>
     feature_twisp n \<and> stream_type p = StreamTypeOther TWISP_STREAM_TYPE \<and> allow_twisp (stream cfg)
     \<and> shell_split o_s (host p) = Some []"
  by (cases "stream_type p")
    (auto simp: connect_def ok_or_def Let_def split: option.splits if_splits)


text \<open>
  Deciding a request never panics, whatever the packet, the configuration and the answers of the
  resolver: the two \<open>unreachable!\<close> branches of the host lists are unreachable. Opening the stream
  panics in one case only: a terminal stream, where they are built in and enabled, whose command
  line is empty.
\<close>

theorem resolve_panics_never:
  "resolve n cfg cache p \<noteq> Panic
   \<and> (connect n o_s cfg p = Panic \<longleftrightarrow>
        feature_twisp n \<and> stream_type p = StreamTypeOther TWISP_STREAM_TYPE \<and> allow_twisp (stream cfg)
        \<and> shell_split o_s (host p) = Some [])"
  using resolve_not_Panic connect_Panic_iff by blast

text \<open>
  The address that was checked is the address that is connected to. A TCP or UDP stream that the server opens
  after admitting a request goes to an address the resolver gave for the requested host, to the
  requested port, and the policy admits that address; the name is not resolved a second time.
\<close>

theorem connect_checked_address:
  assumes "ip_text_law n" "resolve n cfg cache p = Ok (Valid q)"
    and "stream_type p = Tcp \<or> stream_type p = Udp" "connect n o_s cfg q = Ok s"
  shows "\<exists>a. addr_permitted (stream cfg) a \<and> a \<in> set (candidates n cfg (host p))
    \<and> (s = TcpStream a (port p) \<or> (\<exists>b. s = UdpSocket b a (port p)))"
proof -
  from assms(2,3) resolve_Valid [of n cfg cache p q] obtain a rest where
    a: "request_permitted n cfg cache p" "candidates n cfg (host p) = a # rest"
      "addr_permitted (stream cfg) a"
      "q = \<lparr>stream_type = stream_type p, host = ip_to_string n a, port = port p\<rparr>"
    by blast
  from assms(1,3,4) a(1) have "s = TcpStream a (port p) \<or> (\<exists>b. s = UdpSocket b a (port p))"
    by (auto simp: a(4) connect_def ip_text_law_def request_permitted_def ok_or_def Let_def split: if_splits)
  with a show ?thesis by auto
qed

section \<open>Instances\<close>

text \<open>
  A network over which the policy can be run: lists of exact host names as patterns, a resolver that
  knows three names, and a fixed-width text form of addresses.
\<close>

fun demo_ip_to_string :: "IpAddr \<Rightarrow> rstring" where
  "demo_ip_to_string (V4 (Ipv4Addr a b c d)) = [4, a, b, c, d]"
| "demo_ip_to_string (V6 (Ipv6Addr a b c d e f g h)) =
     6 # put_u16_le a @ put_u16_le b @ put_u16_le c @ put_u16_le d
       @ put_u16_le e @ put_u16_le f @ put_u16_le g @ put_u16_le h"

fun u16s :: "nat \<Rightarrow> bytes \<Rightarrow> u16 list" where
  "u16s 0 bs = []"
| "u16s (Suc n) bs = (case get_u16_le bs of (Ok (x, r) :: (u16 \<times> bytes, unit) res) \<Rightarrow> x # u16s n r | _ \<Rightarrow> [])"

definition demo_ip_from_str :: "rstring \<Rightarrow> IpAddr option" where
  "demo_ip_from_str s =
    (if take 1 s = [4] \<and> length s = 5 then Some (V4 (Ipv4Addr (s ! 1) (s ! 2) (s ! 3) (s ! 4)))
     else if take 1 s = [6] then
       (case u16s 8 (drop 1 s) of [a, b, c, d, e, f, g, h] \<Rightarrow> Some (V6 (Ipv6Addr a b c d e f g h)) | _ \<Rightarrow> None)
     else None)"

definition demo_net :: "rstring list net" where
  "demo_net = \<lparr>is_match = (\<lambda>rs h. h \<in> set rs),
     dns_resolve = map_of [(str ''pub'', [V6 (Ipv6Addr 0x2600 0 0 0 0 0 0 1), V4 (Ipv4Addr 93 184 215 14)]),
       (str ''loop'', [V4 (Ipv4Addr 127 0 0 1)]), (str ''lan'', [V4 (Ipv4Addr 192 168 0 1)])],
     base64_decode = Some, ip_from_str = demo_ip_from_str, ip_to_string = demo_ip_to_string,
     feature_twisp = False\<rparr>"

lemma demo_ip_text_law: "ip_text_law demo_net"
proof -
  have "demo_ip_from_str (demo_ip_to_string (V6 (Ipv6Addr a b c d e f g h))) = Some (V6 (Ipv6Addr a b c d e f g h))"
    for a b c d e f g h
  proof -
    have "u16s 8 (put_u16_le a @ put_u16_le b @ put_u16_le c @ put_u16_le d
       @ put_u16_le e @ put_u16_le f @ put_u16_le g @ put_u16_le h) = [a, b, c, d, e, f, g, h]"
      using get_put_u16_le [of h "[]", where 'a = unit] by (simp add: numeral_eq_Suc)
    then show ?thesis by (simp add: demo_ip_from_str_def)
  qed
  moreover have "demo_ip_from_str (demo_ip_to_string (V4 x)) = Some (V4 x)" for x
    by (cases x) (simp add: demo_ip_from_str_def)
  ultimately show ?thesis
    unfolding ip_text_law_def demo_net_def by (metis IpAddr.exhaust Ipv6Addr.exhaust net.select_convs(4,5))
qed

definition demo_config :: "unit Config" where
  "demo_config = wasix_defaults () []"

definition demo_cache :: "rstring list ConfigCache" where
  "demo_cache = \<lparr>blocked_ports = [], allowed_ports = [(80, 80), (443, 443)], allowed_hosts = [],
     blocked_hosts = [], allowed_tcp_hosts = [], blocked_tcp_hosts = [], allowed_udp_hosts = [],
     blocked_udp_hosts = []\<rparr>"

definition demo_os :: os where
  "demo_os = \<lparr>tcp_connect = (\<lambda>_ _. True), set_nodelay = (\<lambda>_ _. True), udp_bind = (\<lambda>_. True),
     udp_connect = (\<lambda>_ _. True), shell_split = (\<lambda>_. None), pty_spawn = (\<lambda>_. False)\<rparr>"

definition demo_request :: "string \<Rightarrow> ConnectPacket" where
  "demo_request h = \<lparr>stream_type = Tcp, host = str h, port = 8080\<rparr>"

lemma demo_cache_valid: "config_cache Some (stream demo_config) = (Ok demo_cache :: (_, unit) res)"
  by (simp add: config_cache_def demo_config_def wasix_defaults_def Config_default_def Let_def
      StreamConfig_default_def port_range_def unwrap_def demo_cache_def)

lemmas policy_eval = resolve_def resolve_host_def demo_config_def wasix_defaults_def Config_default_def Let_def
  StreamConfig_default_def WispConfig_default_def ServerConfig_default_def has_wispnet_def demo_cache_def
  demo_request_def in_ranges_def demo_net_def demo_ip_from_str_def str_def allowed_set_def blocked_set_def
  match_addr_def check_addr_def ok_or_def is_global.simps ipv4_is_global_def connect_def demo_os_def

lemma demo_resolve:
  "resolve demo_net demo_config demo_cache (demo_request ''pub'') =
     Ok (Valid \<lparr>stream_type = Tcp, host = [4, 93, 184, 215, 14], port = 8080\<rparr>)"
  "resolve demo_net demo_config demo_cache (demo_request ''loop'') = Ok Blocked"
  "resolve demo_net demo_config demo_cache (demo_request ''lan'') = Ok Blocked"
  "resolve demo_net demo_config demo_cache (demo_request ''none'') = Err ResolveErr"
  "connect demo_net demo_os demo_config \<lparr>stream_type = Tcp, host = [4, 93, 184, 215, 14], port = 8080\<rparr> =
     Ok (TcpStream (V4 (Ipv4Addr 93 184 215 14)) 8080)"
  by (simp_all add: policy_eval)

theorem connect_checked_address_witness:
  "\<exists>a. addr_permitted (stream demo_config) a
    \<and> TcpStream (V4 (Ipv4Addr 93 184 215 14)) 8080 = TcpStream a (port (demo_request ''pub''))"
  using connect_checked_address [OF demo_ip_text_law demo_resolve(1) _ demo_resolve(5)]
  by (auto simp: demo_request_def)

text \<open>
  The packaged defaults let a client reach nothing but public IPv4 hosts over TCP. With
  \<open>wasix_defaults\<close>, every stream the server opens is a TCP connection to a global IPv4 address that
  is neither loopback nor multicast, reached through a host name and not an address literal,
  whatever the type, host and port requested.
\<close>

theorem wasix_policy:
  assumes "ip_text_law n" "resolve n (wasix_defaults info v) cache p = Ok (Valid q)"
    and "connect n o_s (wasix_defaults info v) q = Ok s"
  shows "\<exists>a. s = TcpStream (V4 a) (port p) \<and> is_global (V4 a) \<and> \<not> is_loopback (V4 a)
    \<and> \<not> is_multicast (V4 a) \<and> ip_from_str n (host p) = None \<and> stream_type p = Tcp"
proof -
  note defaults = wasix_defaults_def Config_default_def StreamConfig_default_def ServerConfig_default_def Let_def
  have tcp: "stream_type p = Tcp"
    using assms(2)
    by (cases "stream_type p")
      (auto simp: resolve_eq request_permitted_def defaults ok_or_def split: if_splits option.splits)
  with assms(2) resolve_Valid [of n "wasix_defaults info v" cache p q] obtain a rest where
    a: "request_permitted n (wasix_defaults info v) cache p" "candidates n (wasix_defaults info v) (host p) = a # rest"
      "addr_permitted (stream (wasix_defaults info v)) a"
      "q = \<lparr>stream_type = stream_type p, host = ip_to_string n a, port = port p\<rparr>"
    by blast
  from a(2) have "a \<in> set (candidates n (wasix_defaults info v) (host p))" by simp
  then have "is_ipv4 a" by (auto simp: candidates_def defaults split: option.splits)
  then obtain x where x: "a = V4 x" by (cases a) auto
  have "s = TcpStream a (port p)"
    using assms(1,3) tcp by (auto simp: a(4) connect_def ip_text_law_def ok_or_def split: if_splits)
  moreover have "is_global a" "\<not> is_loopback a" "\<not> is_multicast a"
    using a(3) by (auto simp: addr_permitted_def defaults split: if_splits)
  moreover have "ip_from_str n (host p) = None" using a(1) by (simp add: request_permitted_def defaults)
  ultimately show ?thesis using tcp x by blast
qed

theorem wasix_policy_witness:
  "\<exists>a. TcpStream (V4 (Ipv4Addr 93 184 215 14)) 8080 = TcpStream (V4 a) 8080 \<and> is_global (V4 a)
     \<and> stream_type (demo_request ''pub'') = Tcp"
  using wasix_policy [OF demo_ip_text_law demo_resolve(1) [unfolded demo_config_def]
      demo_resolve(5) [unfolded demo_config_def]]
  by (auto simp: demo_request_def)

end
