(* ===== verification/Server_Wisp.thy ===== *)
theory Server_Wisp
  imports Server_Policy
begin

text \<open>
  The connection handlers of the server: \<open>server/src/handle/wisp/mod.rs\<close> (wisp connections and
  their streams), \<open>handle/wisp/wispnet.rs\<close> (streams routed to a registered wispnet server) and
  \<open>handle/wsproxy.rs\<close> (the legacy protocol, one stream per websocket).

  The copying of payloads between sockets is input and output only; its outcome, success or
  failure, is an argument.
\<close>

section \<open>Opening a wisp connection\<close>

text \<open>
  \<open>handle_wisp\<close> up to the creation of the multiplexor. \<open>is_v2\<close> says whether the client named a websocket
  protocol; without it the connection is a v1 connection, but the required extensions are the same.
\<close>

definition wisp_settings ::
    "bool \<Rightarrow> key_files \<Rightarrow> WispConfig \<Rightarrow> (WispV2Handshake option \<times> u8 list \<times> u32, anyhow) res" where
  "wisp_settings twisp kf c =
     res_bind (to_opts kf c) (\<lambda>(exts, required, n).
       Ok (if twisp then map_option (add_extension TWispBuilder) exts else exts, required, n))"

definition wisp_open ::
    "bool \<Rightarrow> key_files \<Rightarrow> crypto \<Rightarrow> 'c flume \<Rightarrow> unit wres \<Rightarrow> WispConfig \<Rightarrow> bool \<Rightarrow> bytes wres list \<Rightarrow> ws_write
      \<Rightarrow> ServerState \<Rightarrow> 'c heap \<Rightarrow> ext_env \<Rightarrow> input list
      \<Rightarrow> (('c, ServerState) Multiplexor, anyhow) res option" where
  "wisp_open twisp kf cr fl close_res c is_v2 rx w a h en inps =
    (case wisp_settings twisp kf c of
       Err e \<Rightarrow> Some (Err e)
     | Panic \<Rightarrow> Some Panic
     | Ok (exts, required, n) \<Rightarrow>
        (case snd (server_create cr close_res rx w n (if is_v2 then exts else None) a h en) of
           Err e \<Rightarrow> Some (Err (WispErr e))
         | Panic \<Rightarrow> Some Panic
         | Ok mx \<Rightarrow>
            (case with_required_extensions fl (ServerActor fl) required inps mx of
               (mx', None) \<Rightarrow> None
             | (mx', Some r) \<Rightarrow> Some (res_bind (map_err WispErr r) (\<lambda>_. Ok mx')))))"

section \<open>One stream\<close>

text \<open>
  The registered wispnet servers: the client that registered the server, and what a new stream
  through its multiplexor answers.
\<close>

record WispnetClient =
  wn_id :: rstring
  wn_new_stream :: "ConnectPacket \<Rightarrow> bool"

definition route_wispnet ::
    "(u32 \<rightharpoonup> WispnetClient) \<Rightarrow> u32 \<Rightarrow> ConnectPacket \<Rightarrow> (ClientStream, anyhow) res" where
  "route_wispnet servers i packet = (case servers i of
      Some c \<Rightarrow> (if wn_new_stream c packet then Ok (WispnetStream i (wn_id c)) else Err IoError)
    | None \<Rightarrow> Ok StreamNoResolvedAddrs)"

record 'r upstream =
  up_net :: "'r net"
  up_os :: os
  up_servers :: "u32 \<rightharpoonup> WispnetClient"

datatype ('a, 'b) either = CloseWith 'a | Opened 'b

definition resolve_stream ::
    "'r upstream \<Rightarrow> 'l Config \<Rightarrow> 'r ConfigCache \<Rightarrow> ConnectPacket
      \<Rightarrow> ((CloseReason, ConnectPacket \<times> ConnectPacket \<times> ClientStream) either, unit) res" where
  "resolve_stream u cfg cache packet = (case resolve (up_net u) cfg cache packet of
      Err _ \<Rightarrow> Ok (CloseWith ServerStreamUnreachable)
    | Panic \<Rightarrow> Panic
    | Ok (Valid c) \<Rightarrow>
        (case connect (up_net u) (up_os u) cfg c of
           Ok s \<Rightarrow> Ok (Opened (packet, c, s))
         | Err _ \<Rightarrow> Ok (CloseWith ServerStreamUnreachable)
         | Panic \<Rightarrow> Panic)
    | Ok (ValidWispnet i c) \<Rightarrow>
        (case route_wispnet (up_servers u) i c of
           Ok s \<Rightarrow> Ok (Opened (packet, c, s))
         | Err _ \<Rightarrow> Ok (CloseWith ServerStreamUnreachable)
         | Panic \<Rightarrow> Panic)
    | Ok NoResolvedAddrs \<Rightarrow> Ok (CloseWith ServerStreamUnreachable)
    | Ok Blocked \<Rightarrow> Ok (CloseWith ServerStreamBlockedAddress)
    | Ok Invalid \<Rightarrow> Ok (CloseWith ServerStreamInvalidInfo))"

text \<open>
  The reason a stream is closed with when forwarding ends; \<open>copied\<close> is the outcome of the copying, and
  \<open>wisp_reason\<close> the close reason of the client's stream at that time, which a wispnet stream passes on.
\<close>

definition forward_stream :: "ClientStream \<Rightarrow> bool \<Rightarrow> CloseReason option \<Rightarrow> CloseReason" where
  "forward_stream s copied wisp_reason = (case s of
      TcpStream _ _ \<Rightarrow> (if copied then Voluntary else Unexpected)
    | UdpSocket _ _ _ \<Rightarrow> (if copied then Voluntary else Unexpected)
    | Pty _ \<Rightarrow> (if copied then Voluntary else Unexpected)
    | WispnetStream _ _ \<Rightarrow> (case wisp_reason of Some r \<Rightarrow> r | None \<Rightarrow> Unknown)
    | StreamNoResolvedAddrs \<Rightarrow> ServerStreamUnreachable
    | StreamInvalid \<Rightarrow> ServerStreamInvalidInfo
    | StreamBlocked \<Rightarrow> ServerStreamBlockedAddress)"

section \<open>wsproxy\<close>

datatype CloseCode = POLICY_VIOLATION | INTERNAL_SERVER_ERROR | NORMAL_CLOSURE

text \<open>\<open>str::split\<close> with a one-byte separator; the result is never empty.\<close>

fun split_on :: "u8 \<Rightarrow> rstring \<Rightarrow> rstring list" where
  "split_on c [] = [[]]"
| "split_on c (x # xs) = (if x = c then [] # split_on c xs
     else (case split_on c xs of y # ys \<Rightarrow> (x # y) # ys | [] \<Rightarrow> [[x]]))"

text \<open>The request a path names: the last segment, cut at colons, is host and port.\<close>

definition wsproxy_target :: "rstring \<Rightarrow> (rstring, rstring \<times> u16) either" where
  "wsproxy_target path =
    (let vec = split_on 58 (last (split_on 47 path))
     in case vec of
          [] \<Rightarrow> CloseWith (str ''invalid host'')
        | h # rest \<Rightarrow>
            (case (case rest of p # _ \<Rightarrow> parse_u16 p | [] \<Rightarrow> None) of
               None \<Rightarrow> CloseWith (str ''invalid port'')
             | Some p \<Rightarrow> Opened (h, p)))"

definition wsproxy_open ::
    "'r upstream \<Rightarrow> 'l Config \<Rightarrow> 'r ConfigCache \<Rightarrow> rstring \<Rightarrow> bool
      \<Rightarrow> ((CloseCode \<times> rstring, ConnectPacket \<times> ConnectPacket \<times> ClientStream) either, unit) res" where
  "wsproxy_open u cfg cache path udp =
    (if udp \<and> \<not> allow_wsproxy_udp (stream cfg)
     then Ok (CloseWith (POLICY_VIOLATION, str ''udp is blocked''))
     else (case wsproxy_target path of
        CloseWith msg \<Rightarrow> Ok (CloseWith (POLICY_VIOLATION, msg))
      | Opened (h, p) \<Rightarrow>
         (let packet = \<lparr>stream_type = (if udp then Udp else Tcp), host = h, port = p\<rparr>
          in case resolve (up_net u) cfg cache packet of
               Err _ \<Rightarrow> Ok (CloseWith (INTERNAL_SERVER_ERROR, str ''failed to resolve host''))
             | Panic \<Rightarrow> Panic
             | Ok (Valid c) \<Rightarrow>
                 (case connect (up_net u) (up_os u) cfg c of
                    Ok s \<Rightarrow> Ok (Opened (packet, c, s))
                  | Err _ \<Rightarrow> Ok (CloseWith (INTERNAL_SERVER_ERROR, str ''failed to connect to host''))
                  | Panic \<Rightarrow> Panic)
             | Ok (ValidWispnet i c) \<Rightarrow>
                 (case route_wispnet (up_servers u) i c of
                    Ok s \<Rightarrow> Ok (Opened (packet, c, s))
                  | Err _ \<Rightarrow> Ok (CloseWith (INTERNAL_SERVER_ERROR, str ''failed to connect to host''))
                  | Panic \<Rightarrow> Panic)
             | Ok NoResolvedAddrs \<Rightarrow>
                 Ok (CloseWith (INTERNAL_SERVER_ERROR, str ''host did not resolve to any addrs''))
             | Ok Blocked \<Rightarrow> Ok (CloseWith (POLICY_VIOLATION, str ''host is blocked''))
             | Ok Invalid \<Rightarrow>
                 Ok (CloseWith (POLICY_VIOLATION, str ''invalid host/port/type combination'')))))"

text \<open>How the websocket is closed at the end; \<open>failure\<close> is the message of the error that ended the copying.\<close>

definition wsproxy_close :: "ClientStream \<Rightarrow> rstring option \<Rightarrow> CloseCode \<times> rstring" where
  "wsproxy_close s failure = (case s of
      TcpStream _ _ \<Rightarrow> (NORMAL_CLOSURE, case failure of None \<Rightarrow> [] | Some x \<Rightarrow> x)
    | UdpSocket _ _ _ \<Rightarrow> (NORMAL_CLOSURE, case failure of None \<Rightarrow> [] | Some x \<Rightarrow> x)
    | WispnetStream _ _ \<Rightarrow> (NORMAL_CLOSURE, case failure of None \<Rightarrow> [] | Some x \<Rightarrow> x)
    | Pty _ \<Rightarrow> (POLICY_VIOLATION, str ''twisp is not supported'')
    | StreamNoResolvedAddrs \<Rightarrow> (INTERNAL_SERVER_ERROR, str ''host did not resolve to any addrs'')
    | StreamBlocked \<Rightarrow> (POLICY_VIOLATION, str ''host is blocked'')
    | StreamInvalid \<Rightarrow> (POLICY_VIOLATION, str ''host is invalid''))"

section \<open>Authentication of a whole server\<close>

lemma wisp_open_Ok:
  assumes "wisp_open twisp kf cr fl close_res c is_v2 rx w a h en inps = Some (Ok mx)"
  obtains exts required n w' mx0 where "wisp_settings twisp kf c = Ok (exts, required, n)"
    "server_create cr close_res rx w n (if is_v2 then exts else None) a h en = (w', Ok mx0)"
    "with_required_extensions fl (ServerActor fl) required inps mx0 = (mx, Some (Ok ()))"
proof -
  from assms obtain exts required n where s: "wisp_settings twisp kf c = Ok (exts, required, n)"
    by (auto simp: wisp_open_def split: res.splits)
  obtain w' r where cre: "server_create cr close_res rx w n (if is_v2 then exts else None) a h en = (w', r)"
    by force
  with assms s obtain mx0 where r: "r = Ok mx0" by (auto simp: wisp_open_def split: res.splits)
  with assms s cre have "with_required_extensions fl (ServerActor fl) required inps mx0 = (mx, Some (Ok ()))"
    by (auto simp: wisp_open_def split: prod.splits option.splits)
  with s cre r that show thesis by blast
qed

text \<open>A v1 connection offers the UDP extension only, so no other required extension is present.\<close>

lemma v1_lacks_required:
  assumes "server_create cr close_res rx w n None a h en = (w', Ok mx0)"
    and "with_required_extensions fl ops required inps mx0 = (mx, Some (Ok ()))"
  shows "set required \<subseteq> {Udp_ID}"
proof
  fix i
  assume i: "i \<in> set required"
  have "supported_extensions mx0 = [UdpExtension]"
    using assms(1)
    by (auto simp: server_create_def server_handshake_def create_mux_def res_bind_eq_Err
        split: prod.splits res.splits)
  moreover have "missing_extensions required (supported_extensions mx0) = []"
    using assms(2) by (auto simp: with_required_extensions_def Let_def split: if_splits prod.splits option.splits)
  ultimately show "i \<in> {Udp_ID}"
    using i by (auto simp: missing_extensions_def filter_empty_conv extension_get_id_def)
qed

lemma add_extension_new:
  "add_extension b (WispV2Handshake_new bs) = WispV2Handshake_new (bs @ [b])"
  by (simp add: add_extension_def WispV2Handshake_new_def)

text \<open>
  C2. A server whose configuration asks for a required password serves nobody else: whatever the client sends and
  whichever protocol version it asks for, a connection is established only if it is a v2 connection
  that was not downgraded, and it holds a user name and password of the configured user table.
\<close>

theorem configured_password_required:
  assumes "wisp_v2 c" "auth_extension c = Some AuthPassword" "password_extension_required c"
    and "wisp_open twisp kf cr fl close_res c is_v2 rx w a h en inps = Some (Ok mx)"
  shows "is_v2 \<and> \<not> was_downgraded mx
    \<and> (\<exists>u p. PasswordExtension (PwServerAfterClientInfo u p) \<in> set (supported_extensions mx)
         \<and> password_extension_users c u = Some p)"
proof -
  from assms(4) obtain exts required n w' mx0 where s: "wisp_settings twisp kf c = Ok (exts, required, n)"
    and cre: "server_create cr close_res rx w n (if is_v2 then exts else None) a h en = (w', Ok mx0)"
    and req: "with_required_extensions fl (ServerActor fl) required inps mx0 = (mx, Some (Ok ()))"
    by (rule wisp_open_Ok)
  obtain bs where bs: "exts = Some (WispV2Handshake_new bs)" "required = [PASSWORD_PROTOCOL_EXTENSION_ID]"
    "\<forall>b \<in> set bs. password_builder_ok (password_extension_users c) b"
    using s assms(1-3)
    by (fastforce simp: wisp_settings_def to_opts_def Let_def add_extension_new password_builder_ok_def
        split: if_splits)
  have ne: "PASSWORD_PROTOCOL_EXTENSION_ID \<noteq> Udp_ID"
    by (simp add: PASSWORD_PROTOCOL_EXTENSION_ID_def Udp_ID_def)
  have v2: is_v2
    using v1_lacks_required [OF _ req] cre ne bs(2) by (cases is_v2) auto
  then have "server_create cr close_res rx w n (Some (WispV2Handshake_new bs)) a h en = (w', Ok mx0)"
    using cre bs(1) by simp
  note good = password_guard.required_extension_good [OF bs(3) this req _ ne, unfolded bs(2), simplified]
  then obtain x where x: "PasswordExtension x \<in> set (supported_extensions mx0)"
    by (auto simp: extension_id_password)
  with good password_extension_okD [of _ x] v2 show ?thesis by metis
qed

definition demo_wisp_config :: WispConfig where
  "demo_wisp_config = (WispConfig_default [])\<lparr>wisp_v2 := True, wisp_extensions := [],
     auth_extension := Some AuthPassword, password_extension_users := demo_users,
     password_extension_required := True, wisp_buffer_size := 32\<rparr>"

definition demo_files :: key_files where
  "demo_files = \<lparr>read_to_string = Some, from_public_key_pem = (\<lambda>_. None), sha256 = (\<lambda>b. b)\<rparr>"

theorem configured_password_required_witness:
  "\<exists>mx. wisp_open False demo_files demo_crypto list_flume (Ok ()) demo_wisp_config True
       [Ok (demo_login [112])] demo_ws demo_server demo_heap demo_env [] = Some (Ok mx)
    \<and> (\<exists>u p. PasswordExtension (PwServerAfterClientInfo u p) \<in> set (supported_extensions mx)
         \<and> demo_users u = Some p)"
proof -
  have "\<exists>mx. wisp_open False demo_files demo_crypto list_flume (Ok ()) demo_wisp_config True
       [Ok (demo_login [112])] demo_ws demo_server demo_heap demo_env [] = Some (Ok mx)"
    using demo_login_create
    by (simp add: wisp_open_def wisp_settings_def to_opts_def demo_wisp_config_def Let_def
        with_required_extensions_def missing_extensions_def create_mux_def extension_get_id_def
        PASSWORD_PROTOCOL_EXTENSION_ID_def)
  then obtain mx where mx: "wisp_open False demo_files demo_crypto list_flume (Ok ()) demo_wisp_config True
       [Ok (demo_login [112])] demo_ws demo_server demo_heap demo_env [] = Some (Ok mx)" ..
  with configured_password_required [OF _ _ _ mx] show ?thesis by (auto simp: demo_wisp_config_def)
qed

section \<open>Streams\<close>

definition twisp_permitted :: "'r net \<Rightarrow> 'l Config \<Rightarrow> u8 \<Rightarrow> bool" where
  "twisp_permitted n cfg ty \<longleftrightarrow>
     feature_twisp n \<and> ty = TWISP_STREAM_TYPE \<and> allow_twisp (stream cfg) \<and> wisp_v2 (wisp cfg)"

lemma resolve_stream_wispnet:
  assumes "is_wispnet cfg p"
  shows "resolve_stream u cfg cache p = Ok (CloseWith ServerStreamUnreachable)
    \<or> (\<exists>s. resolve_stream u cfg cache p = Ok (Opened (p, p, s)))"
  using assms
  by (auto simp: resolve_stream_def resolve_eq ok_or_def route_wispnet_def split: option.splits)

lemma resolve_stream_other:
  assumes "\<not> is_wispnet cfg p" "stream_type p = StreamTypeOther ty"
  shows "resolve_stream u cfg cache p =
    (if \<not> twisp_permitted (up_net u) cfg ty then Ok (CloseWith ServerStreamInvalidInfo)
     else case shell_split (up_os u) (host p) of
       None \<Rightarrow> Ok (CloseWith ServerStreamUnreachable)
     | Some cmd \<Rightarrow> if cmd = [] then Panic
         else if pty_spawn (up_os u) cmd then Ok (Opened (p, p, Pty cmd))
         else Ok (CloseWith ServerStreamUnreachable))"
  using assms
  by (simp add: resolve_stream_def resolve_eq twisp_permitted_def connect_def ok_or_def split: option.splits)

lemma resolve_stream_host:
  assumes "\<not> is_wispnet cfg p" "stream_type p \<in> {Tcp, Udp}"
  shows "resolve_stream u cfg cache p =
    (if \<not> request_permitted (up_net u) cfg cache p then Ok (CloseWith ServerStreamBlockedAddress)
     else case candidates (up_net u) cfg (host p) of
       [] \<Rightarrow> Ok (CloseWith ServerStreamUnreachable)
     | a # _ \<Rightarrow> if addr_permitted (stream cfg) a
         then (let q = \<lparr>stream_type = stream_type p, host = ip_to_string (up_net u) a, port = port p\<rparr>
               in case connect (up_net u) (up_os u) cfg q of
                    Ok s \<Rightarrow> Ok (Opened (p, q, s)) | _ \<Rightarrow> Ok (CloseWith ServerStreamUnreachable))
         else Ok (CloseWith ServerStreamBlockedAddress))"
proof -
  have panic: "connect (up_net u) (up_os u) cfg \<lparr>stream_type = stream_type p, host = h, port = port p\<rparr> \<noteq> Panic" for h
    using assms(2) by (auto simp: connect_Panic_iff)
  have res: "resolve (up_net u) cfg cache p = (if request_permitted (up_net u) cfg cache p
     then case dns_resolve (up_net u) (host p) of None \<Rightarrow> Err ResolveErr
       | Some addrs \<Rightarrow> Ok (case candidates (up_net u) cfg (host p) of
           [] \<Rightarrow> NoResolvedAddrs | a # _ \<Rightarrow> check_addr (up_net u) (stream cfg) p a)
     else Ok Blocked)"
    using assms by (cases "stream_type p") (simp_all add: resolve_eq)
  show ?thesis
  proof (cases "candidates (up_net u) cfg (host p)")
    case Nil
    then show ?thesis by (simp add: resolve_stream_def res split: option.splits)
  next
    case (Cons a rest)
    then obtain addrs where "dns_resolve (up_net u) (host p) = Some addrs"
      by (cases "dns_resolve (up_net u) (host p)") (simp_all add: candidates_def)
    with Cons panic show ?thesis
      by (simp add: resolve_stream_def res check_addr_eq Let_def split: res.splits)
  qed
qed

text \<open>
  A client learns why its stream was refused. The stream is closed with \<open>ServerStreamInvalidInfo\<close> exactly
  when its type is unknown or disabled, with \<open>ServerStreamBlockedAddress\<close> exactly when the policy
  refuses the request or the address it resolves to, and in every other case it is opened or closed
  with \<open>ServerStreamUnreachable\<close>; only the empty command line of a terminal stream panics.
\<close>

theorem stream_close_reasons:
  "(resolve_stream u cfg cache p = Ok (CloseWith ServerStreamInvalidInfo) \<longleftrightarrow>
      \<not> is_wispnet cfg p
      \<and> (\<exists>ty. stream_type p = StreamTypeOther ty \<and> \<not> twisp_permitted (up_net u) cfg ty))
   \<and> (resolve_stream u cfg cache p = Ok (CloseWith ServerStreamBlockedAddress) \<longleftrightarrow>
      \<not> is_wispnet cfg p \<and> stream_type p \<in> {Tcp, Udp}
      \<and> (if request_permitted (up_net u) cfg cache p
         then \<exists>a rest. candidates (up_net u) cfg (host p) = a # rest \<and> \<not> addr_permitted (stream cfg) a
         else True))
   \<and> (resolve_stream u cfg cache p = Panic \<longleftrightarrow>
      \<not> is_wispnet cfg p \<and> stream_type p = StreamTypeOther TWISP_STREAM_TYPE
      \<and> twisp_permitted (up_net u) cfg TWISP_STREAM_TYPE \<and> shell_split (up_os u) (host p) = Some [])
   \<and> resolve_stream u cfg cache p \<in> {Panic} \<union> range (\<lambda>(q, s). Ok (Opened (p, q, s)))
      \<union> (\<lambda>r. Ok (CloseWith r)) ` {ServerStreamUnreachable, ServerStreamBlockedAddress, ServerStreamInvalidInfo}"
proof (cases "is_wispnet cfg p")
  case True
  then show ?thesis using resolve_stream_wispnet [OF True, of u cache] by fastforce
next
  case False
  show ?thesis
  proof (cases "stream_type p")
    case (StreamTypeOther ty)
    then show ?thesis
      using False by (auto simp: resolve_stream_other twisp_permitted_def image_iff split: option.splits)
  qed (use False in \<open>auto simp: resolve_stream_host Let_def image_iff split: list.splits res.splits\<close>)
qed

section \<open>Requests of the legacy protocol\<close>

lemma split_on_no_sep: "c \<notin> set xs \<Longrightarrow> split_on c xs = [xs]"
  by (induction xs) auto

lemma split_on_append: "c \<notin> set xs \<Longrightarrow> split_on c (xs @ c # ys) = xs # split_on c ys"
  by (induction xs) auto

lemma split_on_not_nil: "split_on c xs \<noteq> []"
  by (induction xs) (auto split: list.splits)

lemma split_on_sep: "\<exists>y z zs. split_on c (xs @ c # ys) = y # z # zs"
  using split_on_not_nil [of c ys] by (induction xs) (auto simp: neq_Nil_conv)

lemma last_split_on: "c \<notin> set ys \<Longrightarrow> last (split_on c (xs @ c # ys)) = ys"
proof (induction xs)
  case (Cons x xs)
  then show ?case using split_on_sep [of c xs ys] by auto
qed (simp add: split_on_no_sep)

lemma dec_no_sep: "58 \<notin> set (dec n)" "47 \<notin> set (dec n)"
  using dec_range [of 58 n] dec_range [of 47 n] by auto

text \<open>
  The address a wsproxy client writes in its path is the address that is requested: for every prefix, every
  host without slash and colon and every port, the path \<open>prefix/host:port\<close> names that host and port.
\<close>

theorem wsproxy_target_round_trip:
  assumes "47 \<notin> set h" "58 \<notin> set h"
  shows "wsproxy_target (pre @ 47 # h @ 58 # dec (unat p)) = Opened (h, p)"
proof -
  have "last (split_on 47 (pre @ 47 # h @ 58 # dec (unat p))) = h @ 58 # dec (unat p)"
    using assms(1) by (intro last_split_on) (simp add: dec_no_sep)
  then show ?thesis
    using assms(2) by (simp add: wsproxy_target_def split_on_append split_on_no_sep dec_no_sep)
qed

theorem wsproxy_target_round_trip_witness:
  "wsproxy_target (str ''/wisp/pub:8080'') = Opened (str ''pub'', 8080)"
proof -
  have "dec (unat (8080 :: u16)) = str ''8080''"
    by (simp add: dec.simps str_def)
  with wsproxy_target_round_trip [of "str ''pub''" "str ''/wisp''" 8080] show ?thesis
    by (simp add: str_def)
qed

lemma resolve_stream_request:
  "resolve_stream u cfg cache packet = Ok (Opened (p, q, s)) \<Longrightarrow> p = packet"
  by (auto simp: resolve_stream_def split: res.splits ResolvedPacket.splits)

lemma wsproxy_open_eq:
  assumes "wsproxy_target path = Opened (h, pt)"
  shows "wsproxy_open u cfg cache path udp = Ok (Opened x) \<longleftrightarrow>
      (if udp then allow_wsproxy_udp (stream cfg) else True)
      \<and> resolve_stream u cfg cache \<lparr>stream_type = (if udp then Udp else Tcp), host = h, port = pt\<rparr>
        = Ok (Opened x)"
proof -
  define packet where "packet = \<lparr>stream_type = (if udp then Udp else Tcp), host = h, port = pt\<rparr>"
  have "wsproxy_open u cfg cache path udp = Ok (Opened x) \<longleftrightarrow>
      \<not> (udp \<and> \<not> allow_wsproxy_udp (stream cfg)) \<and> resolve_stream u cfg cache packet = Ok (Opened x)"
  proof (cases "resolve (up_net u) cfg cache packet")
    case (Ok r)
    show ?thesis
    proof (cases r)
      case (Valid c)
      then show ?thesis
        by (cases "connect (up_net u) (up_os u) cfg c")
          (simp_all add: wsproxy_open_def resolve_stream_def assms packet_def [symmetric] Let_def Ok)
    next
      case (ValidWispnet i c)
      then show ?thesis
        by (cases "route_wispnet (up_servers u) i c")
          (simp_all add: wsproxy_open_def resolve_stream_def assms packet_def [symmetric] Let_def Ok)
    qed (simp_all add: wsproxy_open_def resolve_stream_def assms packet_def [symmetric] Let_def Ok)
  qed (simp_all add: wsproxy_open_def resolve_stream_def assms packet_def [symmetric] Let_def)
  then show ?thesis by (simp add: packet_def)
qed

text \<open>
  The legacy protocol cannot reach more than a wisp stream: a wsproxy connection is opened exactly when its
  path names a host and port, UDP is allowed for wsproxy if it asks for it, and a wisp stream with
  the same type, host and port would be opened, with the same result.
\<close>

theorem wsproxy_same_policy:
  "wsproxy_open u cfg cache path udp = Ok (Opened (p, q, s)) \<longleftrightarrow>
     (if udp then allow_wsproxy_udp (stream cfg) else True)
   \<and> wsproxy_target path = Opened (host p, port p)
   \<and> stream_type p = (if udp then Udp else Tcp)
   \<and> resolve_stream u cfg cache p = Ok (Opened (p, q, s))"
proof (cases "wsproxy_target path")
  case (CloseWith msg)
  then show ?thesis by (simp add: wsproxy_open_def)
next
  case (Opened hp)
  obtain h pt where hp: "hp = (h, pt)" by (cases hp)
  have eq: "p = \<lparr>stream_type = (if udp then Udp else Tcp), host = h, port = pt\<rparr> \<longleftrightarrow>
      stream_type p = (if udp then Udp else Tcp) \<and> host p = h \<and> port p = pt"
    by (cases p) auto
  have "wsproxy_open u cfg cache path udp = Ok (Opened (p, q, s)) \<longleftrightarrow>
      (if udp then allow_wsproxy_udp (stream cfg) else True)
      \<and> (let packet = \<lparr>stream_type = (if udp then Udp else Tcp), host = h, port = pt\<rparr>
         in resolve_stream u cfg cache packet = Ok (Opened (p, q, s)))"
    by (simp add: wsproxy_open_eq Opened hp Let_def)
  with Opened hp eq resolve_stream_request [of u cfg cache _ p q s] show ?thesis
    by (auto simp: Let_def)
qed

end
