(* ===== verification/Server_Clients.thy ===== *)
theory Server_Clients
  imports Server_Wisp "HOL-Library.AList"
begin

text \<open>
  The table of connected clients and of their streams: \<open>CLIENTS\<close> and \<open>handle_stream\<close> of
  \<open>server/src/main.rs\<close>, \<open>handle_stream\<close> and \<open>handle_wisp\<close> of \<open>handle/wisp/mod.rs\<close>, the registry of
  wispnet servers and \<open>handle_stream\<close> of \<open>wispnet.rs\<close>, \<open>handle_wsproxy\<close>, and the statistics of
  \<open>stats.rs\<close> that read the table.

  Connections and streams are tasks that run concurrently. Each access to the table holds its lock,
  so it is one action; a run is a list of actions of all tasks. Hash maps are association lists, in
  their order of iteration.
\<close>

section \<open>Definitions\<close>

type_synonym uuid = nat

datatype ServerRouteResult = RouteWisp bool | RouteWispnet | RouteWsProxy rstring bool

text \<open>\<open>Client\<close>: the streams of a client, each requested and as resolved, and how it was routed.\<close>

type_synonym Client = "(uuid \<times> ConnectPacket \<times> ConnectPacket) list \<times> ServerRouteResult"

text \<open>Where the task of a connection stands.\<close>

datatype conn =
    WispServing
  | WispJoining
  | NetStart
  | NetHandshake u32
  | NetServing u32
  | ProxyStart rstring bool
  | ProxyBusy uuid
  | ConnDone

text \<open>
  Where a stream stands: being resolved, opened, listed with its client, also listed with the wispnet
  client it is routed to, forwarding ended.
\<close>

datatype stream_pc =
    Resolving ConnectPacket
  | StreamOpen ConnectPacket ConnectPacket ClientStream
  | Forwarding ConnectPacket ConnectPacket ClientStream
  | InWispnet ConnectPacket ConnectPacket rstring
  | StreamEnding

record stream_task =
  st_owner :: rstring
  st_proxy :: bool
  st_pc :: stream_pc

text \<open>\<open>uuids\<close> holds the identifiers drawn so far: \<open>Uuid::new_v4\<close> gives a new one each time.\<close>

record srv =
  clients :: "(rstring \<times> Client) list"
  net_registry :: "(u32 \<times> rstring \<times> bool) list"
  wispnet_ids :: u32
  conns :: "(rstring \<times> conn) list"
  tasks :: "(uuid \<times> stream_task) list"
  uuids :: "uuid list"

definition srv_init :: srv where
  "srv_init = \<lparr>clients = [], net_registry = [], wispnet_ids = 0, conns = [], tasks = [], uuids = []\<rparr>"

subsection \<open>Accesses to the table\<close>

definition client_insert :: "rstring \<Rightarrow> ServerRouteResult \<Rightarrow> srv \<Rightarrow> srv" where
  "client_insert i r s = s\<lparr>clients := AList.update i ([], r) (clients s)\<rparr>"

definition client_remove :: "rstring \<Rightarrow> srv \<Rightarrow> srv" where
  "client_remove i s = s\<lparr>clients := AList.delete i (clients s)\<rparr>"

definition stream_insert :: "rstring \<Rightarrow> uuid \<Rightarrow> ConnectPacket \<times> ConnectPacket \<Rightarrow> srv \<Rightarrow> srv" where
  "stream_insert i u v s = (case map_of (clients s) i of
      None \<Rightarrow> s
    | Some (tab, r) \<Rightarrow> s\<lparr>clients := AList.update i (AList.update u v tab, r) (clients s)\<rparr>)"

definition stream_remove :: "rstring \<Rightarrow> uuid \<Rightarrow> srv \<Rightarrow> srv" where
  "stream_remove i u s = (case map_of (clients s) i of
      None \<Rightarrow> s
    | Some (tab, r) \<Rightarrow> s\<lparr>clients := AList.update i (AList.delete u tab, r) (clients s)\<rparr>)"

definition set_conn :: "rstring \<Rightarrow> conn \<Rightarrow> srv \<Rightarrow> srv" where
  "set_conn i c s = s\<lparr>conns := AList.update i c (conns s)\<rparr>"

definition set_task :: "uuid \<Rightarrow> stream_task \<Rightarrow> srv \<Rightarrow> srv" where
  "set_task u t s = s\<lparr>tasks := AList.update u t (tasks s)\<rparr>"

definition end_task :: "uuid \<Rightarrow> srv \<Rightarrow> srv" where
  "end_task u s = s\<lparr>tasks := AList.delete u (tasks s)\<rparr>"

text \<open>The upstream a request meets: what is registered now, and whether a wispnet server takes the stream.\<close>

definition current_upstream ::
    "(rstring \<Rightarrow> ConnectPacket \<Rightarrow> bool) \<Rightarrow> 'r net \<Rightarrow> os \<Rightarrow> srv \<Rightarrow> 'r upstream" where
  "current_upstream takes n o_s s = \<lparr>up_net = n, up_os = o_s,
     up_servers = (\<lambda>i. map_option (\<lambda>(c, _). \<lparr>wn_id = c, wn_new_stream = takes c\<rparr>)
       (map_of (net_registry s) i))\<rparr>"

subsection \<open>Actions\<close>

datatype action =
    Accept rstring ServerRouteResult
  | Spawn rstring uuid ConnectPacket
  | WispClose rstring
  | WispJoined rstring
  | NetAlloc rstring
  | NetReady rstring bool
  | NetFail rstring
  | NetEnd rstring
  | ProxyOpen rstring uuid
  | Disconnect rstring
  | ResolveEnd uuid
  | ResolveCancel uuid
  | Insert uuid
  | EnterNet uuid
  | LeaveNet uuid
  | ForwardEnd uuid
  | ForwardCancel uuid
  | NetCancel uuid
  | ProxyQuit uuid
  | Remove uuid

text \<open>What surrounds the server: network, operating system, configuration, and which streams the wispnet servers take.\<close>

record ('r, 'l) world =
  w_net :: "'r net"
  w_os :: os
  w_cfg :: "'l Config"
  w_cache :: "'r ConfigCache"
  w_takes :: "rstring \<Rightarrow> ConnectPacket \<Rightarrow> bool"

definition w_upstream :: "('r, 'l) world \<Rightarrow> srv \<Rightarrow> 'r upstream" where
  "w_upstream w s = current_upstream (w_takes w) (w_net w) (w_os w) s"

definition draw :: "uuid \<Rightarrow> srv \<Rightarrow> srv" where
  "draw u s = s\<lparr>uuids := u # uuids s\<rparr>"

text \<open>The handler a route leads to.\<close>

definition route_conn :: "ServerRouteResult \<Rightarrow> conn" where
  "route_conn r = (case r of RouteWisp _ \<Rightarrow> WispServing | RouteWispnet \<Rightarrow> NetStart
     | RouteWsProxy path udp \<Rightarrow> ProxyStart path udp)"

text \<open>
  The task of a connection; \<open>None\<close> where an action is not possible. The rest of \<open>handle_wisp\<close>: streams are
  spawned until the multiplexor ends, then the tasks are signalled and joined.
\<close>

fun handle_wisp_step :: "action \<Rightarrow> srv \<Rightarrow> srv option" where
  "handle_wisp_step (Spawn i u p) s = (if map_of (conns s) i = Some WispServing \<and> u \<notin> set (uuids s)
     then Some (set_task u \<lparr>st_owner = i, st_proxy = False, st_pc = Resolving p\<rparr> (draw u s)) else None)"
| "handle_wisp_step (WispClose i) s = (if map_of (conns s) i = Some WispServing
     then Some (set_conn i WispJoining s) else None)"
| "handle_wisp_step (WispJoined i) s =
     (if map_of (conns s) i = Some WispJoining \<and> \<not> list_ex (\<lambda>(u, t). st_owner t = i) (tasks s)
      then Some (set_conn i ConnDone s) else None)"
| "handle_wisp_step _ s = None"

text \<open>\<open>handle_wispnet\<close>: an identifier, the handshake, and the registration while the multiplexor runs.\<close>

fun handle_wispnet_step :: "action \<Rightarrow> srv \<Rightarrow> srv option" where
  "handle_wispnet_step (NetAlloc i) s = (if map_of (conns s) i = Some NetStart
     then Some (set_conn i (NetHandshake (wispnet_ids s)) (s\<lparr>wispnet_ids := wispnet_ids s + 1\<rparr>)) else None)"
| "handle_wispnet_step (NetReady i pr) s = (case map_of (conns s) i of
      Some (NetHandshake n) \<Rightarrow> Some (set_conn i (NetServing n)
        (s\<lparr>net_registry := AList.update n (i, pr) (net_registry s)\<rparr>))
    | _ \<Rightarrow> None)"
| "handle_wispnet_step (NetFail i) s = (case map_of (conns s) i of
      Some (NetHandshake n) \<Rightarrow> Some (set_conn i ConnDone s) | _ \<Rightarrow> None)"
| "handle_wispnet_step (NetEnd i) s = (case map_of (conns s) i of
      Some (NetServing n) \<Rightarrow> Some (set_conn i ConnDone
        (s\<lparr>net_registry := AList.delete n (net_registry s)\<rparr>))
    | _ \<Rightarrow> None)"
| "handle_wispnet_step _ s = None"

text \<open>\<open>handle_wsproxy\<close> up to the point where its one stream is open.\<close>

fun handle_wsproxy_step :: "('r, 'l) world \<Rightarrow> action \<Rightarrow> srv \<Rightarrow> srv option" where
  "handle_wsproxy_step w (ProxyOpen i u) s = (case map_of (conns s) i of
      Some (ProxyStart path udp) \<Rightarrow>
        (if u \<in> set (uuids s) then None
         else (case wsproxy_open (w_upstream w s) (w_cfg w) (w_cache w) path udp of
            Ok (Opened (p, q, st)) \<Rightarrow> Some (set_conn i (ProxyBusy u)
              (set_task u \<lparr>st_owner = i, st_proxy = True, st_pc = StreamOpen p q st\<rparr> (draw u s)))
          | _ \<Rightarrow> Some (set_conn i ConnDone s)))
    | _ \<Rightarrow> None)"
| "handle_wsproxy_step w _ s = None"

text \<open>
  \<open>handle_stream\<close> of \<open>main.rs\<close>, around the three handlers. The listener gives open connections
  different identifiers.
\<close>

fun conn_step :: "('r, 'l) world \<Rightarrow> action \<Rightarrow> srv \<Rightarrow> srv option" where
  "conn_step w (Accept i r) s = (if map_of (conns s) i \<noteq> None then None
     else Some (set_conn i (route_conn r) (client_insert i r s)))"
| "conn_step w (Spawn i u p) s = handle_wisp_step (Spawn i u p) s"
| "conn_step w (WispClose i) s = handle_wisp_step (WispClose i) s"
| "conn_step w (WispJoined i) s = handle_wisp_step (WispJoined i) s"
| "conn_step w (NetAlloc i) s = handle_wispnet_step (NetAlloc i) s"
| "conn_step w (NetReady i pr) s = handle_wispnet_step (NetReady i pr) s"
| "conn_step w (NetFail i) s = handle_wispnet_step (NetFail i) s"
| "conn_step w (NetEnd i) s = handle_wispnet_step (NetEnd i) s"
| "conn_step w (ProxyOpen i u) s = handle_wsproxy_step w (ProxyOpen i u) s"
| "conn_step w (Disconnect i) s = (if map_of (conns s) i = Some ConnDone
     then Some (client_remove i (s\<lparr>conns := AList.delete i (conns s)\<rparr>)) else None)"
| "conn_step w _ s = None"

text \<open>
  A stream: \<open>handle_stream\<close> of \<open>handle/wisp/mod.rs\<close> and of \<open>wispnet.rs\<close>, and the second half of
  \<open>handle_wsproxy\<close>. A task is cancelled by the event its connection signals when it closes; a panic while
  resolving ends the task.
\<close>

definition cancelled :: "stream_task \<Rightarrow> srv \<Rightarrow> bool" where
  "cancelled t s \<longleftrightarrow> \<not> st_proxy t \<and> map_of (conns s) (st_owner t) = Some WispJoining"

fun is_wispnet_stream :: "ClientStream \<Rightarrow> bool" where
  "is_wispnet_stream (WispnetStream n m) = True"
| "is_wispnet_stream _ = False"

text \<open>The two accesses of \<open>wispnet.rs\<close>, before and after the copying.\<close>

definition wispnet_enter :: "uuid \<Rightarrow> stream_task \<Rightarrow> ConnectPacket \<Rightarrow> ConnectPacket \<Rightarrow> rstring \<Rightarrow> srv \<Rightarrow> srv" where
  "wispnet_enter u t p q m s = set_task u (t\<lparr>st_pc := InWispnet p q m\<rparr>) (stream_insert m u (q, q) s)"

definition wispnet_leave :: "uuid \<Rightarrow> stream_task \<Rightarrow> rstring \<Rightarrow> srv \<Rightarrow> srv" where
  "wispnet_leave u t m s = set_task u (t\<lparr>st_pc := StreamEnding\<rparr>) (stream_remove m u s)"

definition stream_step :: "('r, 'l) world \<Rightarrow> action \<Rightarrow> uuid \<Rightarrow> stream_task \<Rightarrow> srv \<Rightarrow> srv option" where
  "stream_step w a u t s = (case (a, st_pc t) of
      (ResolveEnd _, Resolving p) \<Rightarrow>
        (case resolve_stream (w_upstream w s) (w_cfg w) (w_cache w) p of
           Ok (Opened (p, q, st)) \<Rightarrow> Some (set_task u (t\<lparr>st_pc := StreamOpen p q st\<rparr>) s)
         | _ \<Rightarrow> Some (end_task u s))
    | (ResolveCancel _, Resolving p) \<Rightarrow> if cancelled t s then Some (end_task u s) else None
    | (Insert _, StreamOpen p q st) \<Rightarrow>
        Some (set_task u (t\<lparr>st_pc := Forwarding p q st\<rparr>) (stream_insert (st_owner t) u (p, q) s))
    | (EnterNet _, Forwarding p q (WispnetStream n m)) \<Rightarrow>
        Some (wispnet_enter u t p q m s)
    | (LeaveNet _, InWispnet p q m) \<Rightarrow>
        Some (wispnet_leave u t m s)
    | (ForwardEnd _, Forwarding p q st) \<Rightarrow>
        if is_wispnet_stream st \<or> (st_proxy t \<and> st = StreamNoResolvedAddrs) then None
        else Some (set_task u (t\<lparr>st_pc := StreamEnding\<rparr>) s)
    | (ForwardCancel _, Forwarding p q st) \<Rightarrow>
        if cancelled t s then Some (set_task u (t\<lparr>st_pc := StreamEnding\<rparr>) s) else None
    | (NetCancel _, InWispnet p q m) \<Rightarrow>
        if cancelled t s then Some (set_task u (t\<lparr>st_pc := StreamEnding\<rparr>) s) else None
    | (ProxyQuit _, Forwarding p q StreamNoResolvedAddrs) \<Rightarrow>
        if st_proxy t then Some (set_conn (st_owner t) ConnDone (end_task u s)) else None
    | (Remove _, StreamEnding) \<Rightarrow>
        (let s' = end_task u (stream_remove (st_owner t) u s)
         in Some (if st_proxy t then set_conn (st_owner t) ConnDone s' else s'))
    | _ \<Rightarrow> None)"

fun action_uuid :: "action \<Rightarrow> uuid option" where
  "action_uuid (ResolveEnd u) = Some u"
| "action_uuid (ResolveCancel u) = Some u"
| "action_uuid (Insert u) = Some u"
| "action_uuid (EnterNet u) = Some u"
| "action_uuid (LeaveNet u) = Some u"
| "action_uuid (ForwardEnd u) = Some u"
| "action_uuid (ForwardCancel u) = Some u"
| "action_uuid (NetCancel u) = Some u"
| "action_uuid (ProxyQuit u) = Some u"
| "action_uuid (Remove u) = Some u"
| "action_uuid _ = None"

definition srv_step :: "('r, 'l) world \<Rightarrow> action \<Rightarrow> srv \<Rightarrow> srv option" where
  "srv_step w a s = (case action_uuid a of
      None \<Rightarrow> conn_step w a s
    | Some u \<Rightarrow> (case map_of (tasks s) u of None \<Rightarrow> None | Some t \<Rightarrow> stream_step w a u t s))"

fun srv_run :: "('r, 'l) world \<Rightarrow> action list \<Rightarrow> srv \<Rightarrow> srv option" where
  "srv_run w [] s = Some s"
| "srv_run w (a # as) s = (case srv_step w a s of None \<Rightarrow> None | Some s' \<Rightarrow> srv_run w as s')"

subsection \<open>Statistics\<close>

definition format_stream_type :: "bool \<Rightarrow> StreamType \<Rightarrow> (rstring, anyhow) res" where
  "format_stream_type twisp ty = (case ty of
      Tcp \<Rightarrow> Ok (str ''tcp'') | Udp \<Rightarrow> Ok (str ''udp'')
    | StreamTypeOther x \<Rightarrow> if twisp \<and> x = TWISP_STREAM_TYPE then Ok (str ''twisp'') else Panic)"

record StreamStats =
  ss_stream_type :: rstring
  ss_requested :: rstring
  ss_resolved :: rstring

definition host_port :: "ConnectPacket \<Rightarrow> rstring" where
  "host_port p = host p @ str '':'' @ dec (unat (port p))"

definition StreamStats_from :: "bool \<Rightarrow> ConnectPacket \<times> ConnectPacket \<Rightarrow> (StreamStats, anyhow) res" where
  "StreamStats_from twisp v = res_bind (format_stream_type twisp (stream_type (fst v))) (\<lambda>ty.
     Ok \<lparr>ss_stream_type = ty, ss_requested = host_port (fst v), ss_resolved = host_port (snd v)\<rparr>)"

text \<open>The part of \<open>generate_stats\<close> that reads the table: the streams of every client.\<close>

definition generate_stats ::
    "bool \<Rightarrow> srv \<Rightarrow> ((rstring \<times> ServerRouteResult \<times> (uuid \<times> StreamStats) list) list, anyhow) res" where
  "generate_stats twisp s = res_traverse (\<lambda>(i, tab, r).
     res_bind (res_traverse (\<lambda>(u, v). res_bind (StreamStats_from twisp v) (\<lambda>x. Ok (u, x))) tab)
       (\<lambda>streams. Ok (i, r, streams))) (clients s)"

section \<open>Reading the table\<close>

definition listed :: "srv \<Rightarrow> rstring \<Rightarrow> uuid \<Rightarrow> (ConnectPacket \<times> ConnectPacket) option" where
  "listed s i u = (case map_of (clients s) i of None \<Rightarrow> None | Some (tab, r) \<Rightarrow> map_of tab u)"

abbreviation conn_at :: "srv \<Rightarrow> rstring \<Rightarrow> conn option" where
  "conn_at s i \<equiv> map_of (conns s) i"

abbreviation task_at :: "srv \<Rightarrow> uuid \<Rightarrow> stream_task option" where
  "task_at s u \<equiv> map_of (tasks s) u"

lemmas alist_simps = update_conv' delete_conv'

lemma listed_simps [simp]:
  "listed (client_insert i r s) j u = (if j = i then None else listed s j u)"
  "listed (client_remove i s) j u = (if j = i then None else listed s j u)"
  "listed (stream_insert i x v s) j u =
     (if j = i \<and> u = x \<and> map_of (clients s) i \<noteq> None then Some v else listed s j u)"
  "listed (stream_remove i x s) j u = (if j = i \<and> u = x then None else listed s j u)"
  "listed (set_conn i c s) j u = listed s j u" "listed (set_task x t s) j u = listed s j u"
  "listed (end_task x s) j u = listed s j u" "listed (draw x s) j u = listed s j u"
  "listed (s\<lparr>conns := cs\<rparr>) j u = listed s j u" "listed (s\<lparr>wispnet_ids := k\<rparr>) j u = listed s j u"
  "listed (s\<lparr>net_registry := ws\<rparr>) j u = listed s j u"
  by (auto simp: listed_def client_insert_def client_remove_def stream_insert_def stream_remove_def
      set_conn_def set_task_def end_task_def draw_def alist_simps split: option.splits prod.splits)

lemma client_at_simps [simp]:
  "map_of (clients (client_insert i r s)) j = (if j = i then Some ([], r) else map_of (clients s) j)"
  "map_of (clients (client_remove i s)) j = (if j = i then None else map_of (clients s) j)"
  "map_of (clients (stream_insert i x v s)) j = None \<longleftrightarrow> map_of (clients s) j = None"
  "map_of (clients (stream_remove i x s)) j = None \<longleftrightarrow> map_of (clients s) j = None"
  "clients (set_conn i c s) = clients s" "clients (set_task x t s) = clients s"
  "clients (end_task x s) = clients s" "clients (draw x s) = clients s"
  by (auto simp: client_insert_def client_remove_def stream_insert_def stream_remove_def
      set_conn_def set_task_def end_task_def draw_def alist_simps split: option.splits prod.splits)

lemma conn_at_simps [simp]:
  "conns (client_insert i r s) = conns s" "conns (client_remove i s) = conns s"
  "conns (stream_insert i x v s) = conns s" "conns (stream_remove i x s) = conns s"
  "conn_at (set_conn i c s) j = (if j = i then Some c else conn_at s j)"
  "conns (set_task x t s) = conns s" "conns (end_task x s) = conns s" "conns (draw x s) = conns s"
  by (auto simp: client_insert_def client_remove_def stream_insert_def stream_remove_def
      set_conn_def set_task_def end_task_def draw_def alist_simps split: option.splits prod.splits)

lemma task_at_simps [simp]:
  "tasks (client_insert i r s) = tasks s" "tasks (client_remove i s) = tasks s"
  "tasks (stream_insert i x v s) = tasks s" "tasks (stream_remove i x s) = tasks s"
  "tasks (set_conn i c s) = tasks s"
  "task_at (set_task x t s) u = (if u = x then Some t else task_at s u)"
  "task_at (end_task x s) u = (if u = x then None else task_at s u)" "tasks (draw x s) = tasks s"
  by (auto simp: client_insert_def client_remove_def stream_insert_def stream_remove_def
      set_conn_def set_task_def end_task_def draw_def alist_simps split: option.splits prod.splits)

lemma uuids_simps [simp]:
  "uuids (client_insert i r s) = uuids s" "uuids (client_remove i s) = uuids s"
  "uuids (stream_insert i x v s) = uuids s" "uuids (stream_remove i x s) = uuids s"
  "uuids (set_conn i c s) = uuids s" "uuids (set_task x t s) = uuids s"
  "uuids (end_task x s) = uuids s" "uuids (draw x s) = x # uuids s"
  by (auto simp: client_insert_def client_remove_def stream_insert_def stream_remove_def
      set_conn_def set_task_def end_task_def draw_def split: option.splits prod.splits)

lemma servers_simps [simp]:
  "net_registry (client_insert i r s) = net_registry s"
  "net_registry (client_remove i s) = net_registry s"
  "net_registry (stream_insert i x v s) = net_registry s"
  "net_registry (stream_remove i x s) = net_registry s"
  "net_registry (set_conn i c s) = net_registry s" "net_registry (set_task x t s) = net_registry s"
  "net_registry (end_task x s) = net_registry s" "net_registry (draw x s) = net_registry s"
  by (auto simp: client_insert_def client_remove_def stream_insert_def stream_remove_def
      set_conn_def set_task_def end_task_def draw_def split: option.splits prod.splits)

text \<open>The steps, one case per action.\<close>

lemma conn_stepE:
  assumes "conn_step w a s = Some s'"
  obtains (accept) i r where "a = Accept i r" "conn_at s i = None"
      "s' = set_conn i (route_conn r) (client_insert i r s)"
  | (spawn) i u p where "a = Spawn i u p" "conn_at s i = Some WispServing" "u \<notin> set (uuids s)"
      "s' = set_task u \<lparr>st_owner = i, st_proxy = False, st_pc = Resolving p\<rparr> (draw u s)"
  | (close) i where "a = WispClose i" "conn_at s i = Some WispServing" "s' = set_conn i WispJoining s"
  | (joined) i where "a = WispJoined i" "conn_at s i = Some WispJoining"
      "\<forall>u t. task_at s u = Some t \<longrightarrow> st_owner t \<noteq> i" "s' = set_conn i ConnDone s"
  | (alloc) i where "a = NetAlloc i" "conn_at s i = Some NetStart"
      "s' = set_conn i (NetHandshake (wispnet_ids s)) (s\<lparr>wispnet_ids := wispnet_ids s + 1\<rparr>)"
  | (ready) i pr n where "a = NetReady i pr" "conn_at s i = Some (NetHandshake n)"
      "s' = set_conn i (NetServing n) (s\<lparr>net_registry := AList.update n (i, pr) (net_registry s)\<rparr>)"
  | (net_fail) i n where "a = NetFail i" "conn_at s i = Some (NetHandshake n)" "s' = set_conn i ConnDone s"
  | (net_end) i n where "a = NetEnd i" "conn_at s i = Some (NetServing n)"
      "s' = set_conn i ConnDone (s\<lparr>net_registry := AList.delete n (net_registry s)\<rparr>)"
  | (proxy) i u path udp p q st where "a = ProxyOpen i u" "conn_at s i = Some (ProxyStart path udp)"
      "u \<notin> set (uuids s)" "wsproxy_open (w_upstream w s) (w_cfg w) (w_cache w) path udp = Ok (Opened (p, q, st))"
      "s' = set_conn i (ProxyBusy u)
         (set_task u \<lparr>st_owner = i, st_proxy = True, st_pc = StreamOpen p q st\<rparr> (draw u s))"
  | (refused) i u path udp where "a = ProxyOpen i u" "conn_at s i = Some (ProxyStart path udp)"
      "s' = set_conn i ConnDone s"
  | (disconnect) i where "a = Disconnect i" "conn_at s i = Some ConnDone"
      "s' = client_remove i (s\<lparr>conns := AList.delete i (conns s)\<rparr>)"
proof (cases a)
  case (WispJoined i)
  with assms joined show thesis
    by (fastforce simp: list_ex_iff dest: map_of_SomeD split: if_splits)
next
  case (ProxyOpen i u)
  with assms obtain path udp where c: "conn_at s i = Some (ProxyStart path udp)" "u \<notin> set (uuids s)"
    by (auto split: option.splits conn.splits if_splits)
  show thesis
  proof (cases "\<exists>x. wsproxy_open (w_upstream w s) (w_cfg w) (w_cache w) path udp = Ok (Opened x)")
    case True
    then show thesis using assms ProxyOpen c by (auto intro: proxy)
  next
    case False
    then show thesis using assms ProxyOpen c by (auto intro: refused split: res.splits either.splits)
  qed
qed (use assms that in \<open>auto split: if_splits option.splits conn.splits\<close>)

lemma stream_stepE:
  assumes "stream_step w a u t s = Some s'"
  obtains (opened) p q st where "st_pc t = Resolving p"
      "resolve_stream (w_upstream w s) (w_cfg w) (w_cache w) p = Ok (Opened (p, q, st))"
      "s' = set_task u (t\<lparr>st_pc := StreamOpen p q st\<rparr>) s"
  | (unresolved) p where "st_pc t = Resolving p" "s' = end_task u s"
  | (insert) p q st where "st_pc t = StreamOpen p q st"
      "s' = set_task u (t\<lparr>st_pc := Forwarding p q st\<rparr>) (stream_insert (st_owner t) u (p, q) s)"
  | (enter) p q n m where "st_pc t = Forwarding p q (WispnetStream n m)"
      "s' = set_task u (t\<lparr>st_pc := InWispnet p q m\<rparr>) (stream_insert m u (q, q) s)"
  | (leave) p q m where "st_pc t = InWispnet p q m"
      "s' = set_task u (t\<lparr>st_pc := StreamEnding\<rparr>) (stream_remove m u s)"
  | (forwarded) p q st where "st_pc t = Forwarding p q st" "s' = set_task u (t\<lparr>st_pc := StreamEnding\<rparr>) s"
  | (net_cancel) p q m where "\<exists>x. a = NetCancel x" "st_pc t = InWispnet p q m" "cancelled t s"
      "s' = set_task u (t\<lparr>st_pc := StreamEnding\<rparr>) s"
  | (quit) p q where "st_proxy t" "st_pc t = Forwarding p q StreamNoResolvedAddrs"
      "s' = set_conn (st_owner t) ConnDone (end_task u s)"
  | (remove) "st_pc t = StreamEnding"
      "s' = (if st_proxy t then set_conn (st_owner t) ConnDone (end_task u (stream_remove (st_owner t) u s))
         else end_task u (stream_remove (st_owner t) u s))"
proof (cases a)
  case (ResolveEnd x)
  with assms obtain p where p: "st_pc t = Resolving p"
    by (auto simp: stream_step_def split: stream_pc.splits)
  show thesis
  proof (cases "\<exists>x. resolve_stream (w_upstream w s) (w_cfg w) (w_cache w) p = Ok (Opened x)")
    case True
    then obtain p' q st where "resolve_stream (w_upstream w s) (w_cfg w) (w_cache w) p = Ok (Opened (p', q, st))"
      by auto
    with resolve_stream_request [OF this] assms ResolveEnd p show thesis
      by (auto simp: stream_step_def intro: opened)
  next
    case False
    then show thesis
      using assms ResolveEnd p by (auto simp: stream_step_def intro: unresolved split: res.splits either.splits)
  qed
qed (use assms that in \<open>auto simp: stream_step_def wispnet_enter_def wispnet_leave_def Let_def split: stream_pc.splits ClientStream.splits if_splits\<close>)

end
