(* ===== verification/Server_Stats.thy ===== *)
theory Server_Stats
  imports Server_Clients
begin

text \<open>
  What the table of clients keeps in every run of the server: the listed streams are the streams that
  are being forwarded, and the statistics that are generated from it.
\<close>

section \<open>Invariants\<close>

definition owners_ok :: "srv \<Rightarrow> bool" where
  "owners_ok s \<longleftrightarrow> (\<forall>u t. task_at s u = Some t \<longrightarrow>
     (if st_proxy t then conn_at s (st_owner t) = Some (ProxyBusy u)
      else conn_at s (st_owner t) = Some WispServing \<or> conn_at s (st_owner t) = Some WispJoining))"

definition clients_ok :: "srv \<Rightarrow> bool" where
  "clients_ok s \<longleftrightarrow> (\<forall>i. map_of (clients s) i = None \<longleftrightarrow> conn_at s i = None)"

definition fresh_ok :: "srv \<Rightarrow> bool" where
  "fresh_ok s \<longleftrightarrow> (\<forall>u. u \<notin> set (uuids s) \<longrightarrow> task_at s u = None \<and> (\<forall>i. listed s i u = None))"

definition servers_ok :: "srv \<Rightarrow> bool" where
  "servers_ok s \<longleftrightarrow> (\<forall>n m pr. map_of (net_registry s) n = Some (m, pr) \<longrightarrow> conn_at s m = Some (NetServing n))"

fun routed_to :: "stream_pc \<Rightarrow> rstring option" where
  "routed_to (StreamOpen p q (WispnetStream n m)) = Some m"
| "routed_to (Forwarding p q (WispnetStream n m)) = Some m"
| "routed_to (InWispnet p q m) = Some m"
| "routed_to _ = None"

definition routes_ok :: "srv \<Rightarrow> bool" where
  "routes_ok s \<longleftrightarrow> (\<forall>u t. task_at s u = Some t \<longrightarrow> routed_to (st_pc t) \<noteq> Some (st_owner t))"

text \<open>The stream a task forwards, requested and as resolved.\<close>

fun forwards_pair :: "stream_pc \<Rightarrow> (ConnectPacket \<times> ConnectPacket) option" where
  "forwards_pair (Forwarding p q st) = Some (p, q)"
| "forwards_pair (InWispnet p q m) = Some (p, q)"
| "forwards_pair _ = None"

definition listed_ok :: "srv \<Rightarrow> bool" where
  "listed_ok s \<longleftrightarrow> (\<forall>u t v. task_at s u = Some t \<longrightarrow> forwards_pair (st_pc t) = Some v \<longrightarrow>
     listed s (st_owner t) u = Some v)"

text \<open>The task that an entry under a client belongs to.\<close>

definition holds_entry :: "stream_task \<Rightarrow> rstring \<Rightarrow> bool" where
  "holds_entry t i \<longleftrightarrow> (case st_pc t of
      Forwarding p q st \<Rightarrow> i = st_owner t
    | InWispnet p q m \<Rightarrow> i = st_owner t \<or> i = m
    | StreamEnding \<Rightarrow> i = st_owner t
    | _ \<Rightarrow> False)"

definition entries_ok :: "uuid set \<Rightarrow> srv \<Rightarrow> bool" where
  "entries_ok C s \<longleftrightarrow> (\<forall>i u. listed s i u \<noteq> None \<longrightarrow>
     u \<in> C \<or> conn_at s i = Some ConnDone \<or> (\<exists>t. task_at s u = Some t \<and> holds_entry t i))"

definition table_inv :: "uuid set \<Rightarrow> srv \<Rightarrow> bool" where
  "table_inv C s \<longleftrightarrow> owners_ok s \<and> clients_ok s \<and> fresh_ok s \<and> servers_ok s \<and> routes_ok s \<and> listed_ok s
     \<and> entries_ok C s"

lemma route_conn_cases:
  "route_conn r = WispServing \<or> route_conn r = NetStart \<or> (\<exists>path udp. route_conn r = ProxyStart path udp)"
  by (cases r) (simp_all add: route_conn_def)

lemma owners_okD:
  assumes "owners_ok s" "task_at s u = Some t"
  shows "conn_at s (st_owner t) = (if st_proxy t then Some (ProxyBusy u) else Some WispServing)
    \<or> \<not> st_proxy t \<and> conn_at s (st_owner t) = Some WispJoining"
  using assms by (auto simp: owners_ok_def split: if_splits)

text \<open>The connection of a wsproxy client has no other stream.\<close>

lemma proxy_alone:
  assumes "owners_ok s" "task_at s u = Some t" "st_proxy t" "task_at s u' = Some t'" "u' \<noteq> u"
  shows "st_owner t' \<noteq> st_owner t"
  using owners_okD [OF assms(1,2)] owners_okD [OF assms(1,4)] assms(3,5) by (auto split: if_splits)

lemma srv_stepE:
  assumes "srv_step w a s = Some s'"
  obtains (conn) "conn_step w a s = Some s'"
  | (stream) u t where "action_uuid a = Some u" "task_at s u = Some t" "stream_step w a u t s = Some s'"
  using assms by (auto simp: srv_step_def split: option.splits)

lemma owners_step:
  assumes "srv_step w a s = Some s'" "owners_ok s"
  shows "owners_ok s'"
  using assms(1)
proof (cases rule: srv_stepE)
  case conn
  then show ?thesis
    using assms(2)
    by (cases rule: conn_stepE) (fastforce simp: owners_ok_def alist_simps split: if_splits)+
next
  case (stream u t)
  have alone: "\<forall>u' t'. st_proxy t \<longrightarrow> task_at s u' = Some t' \<longrightarrow> u' \<noteq> u \<longrightarrow> st_owner t' \<noteq> st_owner t"
    using proxy_alone [OF assms(2) stream(2)] by blast
  from stream(3) show ?thesis
    using assms(2) stream(2) alone
    by (cases rule: stream_stepE) (auto simp: owners_ok_def split: if_splits)
qed

lemma clients_step:
  assumes "srv_step w a s = Some s'" "clients_ok s" "owners_ok s"
  shows "clients_ok s'"
  using assms(1)
proof (cases rule: srv_stepE)
  case conn
  then show ?thesis
    using assms(2)
    by (cases rule: conn_stepE) (auto simp: clients_ok_def alist_simps)
next
  case (stream u t)
  have "conn_at s (st_owner t) \<noteq> None" using owners_okD [OF assms(3) stream(2)] by (auto split: if_splits)
  with stream(3) show ?thesis
    using assms(2) by (cases rule: stream_stepE) (auto simp: clients_ok_def)
qed

lemma fresh_step:
  assumes "srv_step w a s = Some s'" "fresh_ok s"
  shows "fresh_ok s'"
  using assms(1)
proof (cases rule: srv_stepE)
  case conn
  then show ?thesis
    using assms(2) by (cases rule: conn_stepE) (auto simp: fresh_ok_def)
next
  case (stream u t)
  then have "u \<in> set (uuids s)" using assms(2) by (auto simp: fresh_ok_def)
  with stream(3) show ?thesis
    using assms(2) by (cases rule: stream_stepE) (auto simp: fresh_ok_def)
qed

lemma servers_step:
  assumes "srv_step w a s = Some s'" "servers_ok s" "owners_ok s"
  shows "servers_ok s'"
  using assms(1)
proof (cases rule: srv_stepE)
  case conn
  then show ?thesis
    using assms(2)
    by (cases rule: conn_stepE)
      (use route_conn_cases in \<open>fastforce simp: servers_ok_def alist_simps split: if_splits\<close>)+
next
  case (stream u t)
  have "\<forall>n m pr. map_of (net_registry s) n = Some (m, pr) \<longrightarrow> m \<noteq> st_owner t"
    using owners_okD [OF assms(3) stream(2)] assms(2) by (fastforce simp: servers_ok_def split: if_splits)
  with stream(3) show ?thesis
    using assms(2) by (cases rule: stream_stepE) (auto simp: servers_ok_def)
qed

text \<open>A stream is never routed to the client that asked for it: wispnet servers do not open streams.\<close>

lemma resolve_stream_wispnet_target:
  assumes "resolve_stream u cfg cache p = Ok (Opened (p', q, WispnetStream n m))"
  shows "\<exists>c. up_servers u n = Some c \<and> wn_id c = m"
proof -
  have nc: "connect (up_net u) (up_os u) cfg c \<noteq> Ok (WispnetStream n m)" for c
    by (cases "stream_type c") (auto simp: connect_def ok_or_def Let_def split: option.splits if_splits)
  from assms obtain i c where "route_wispnet (up_servers u) i c = Ok (WispnetStream n m)"
    by (auto simp: resolve_stream_def nc split: res.splits ResolvedPacket.splits)
  then show ?thesis by (auto simp: route_wispnet_def split: option.splits if_splits)
qed

lemma routed_target:
  assumes "resolve_stream (w_upstream w s) cfg cache p = Ok (Opened (p', q, WispnetStream n m))" "servers_ok s"
  shows "conn_at s m = Some (NetServing n)"
  using resolve_stream_wispnet_target [OF assms(1)] assms(2)
  by (auto simp: w_upstream_def current_upstream_def servers_ok_def)

lemma wsproxy_opens:
  assumes "wsproxy_open u cfg cache path udp = Ok (Opened (p, q, st))"
  shows "resolve_stream u cfg cache p = Ok (Opened (p, q, st))"
proof -
  have "\<exists>h pt. wsproxy_target path = Opened (h, pt)"
    using assms by (auto simp: wsproxy_open_def split: if_splits either.splits)
  then obtain h pt where "wsproxy_target path = Opened (h, pt)" by blast
  from assms [unfolded wsproxy_open_eq [OF this]] resolve_stream_request show ?thesis by metis
qed

lemma routed_to_open:
  "routed_to (StreamOpen p q st) = Some m \<longleftrightarrow> (\<exists>n. st = WispnetStream n m)"
  "routed_to (Forwarding p q st) = Some m \<longleftrightarrow> (\<exists>n. st = WispnetStream n m)"
  by (cases st; simp)+

lemma routes_step:
  assumes "srv_step w a s = Some s'" "routes_ok s" "servers_ok s" "owners_ok s"
  shows "routes_ok s'"
  using assms(1)
proof (cases rule: srv_stepE)
  case conn
  have target: "m \<noteq> i" if "conn_at s i = Some (ProxyStart path udp)"
    "wsproxy_open (w_upstream w s) (w_cfg w) (w_cache w) path udp = Ok (Opened (p, q, WispnetStream n m))"
    for i path udp p q n m
    using routed_target [OF wsproxy_opens [OF that(2)] assms(3)] that(1) by auto
  from conn show ?thesis
    using assms(2)
    by (cases rule: conn_stepE) (auto simp: routes_ok_def routed_to_open dest: target)
next
  case (stream u t)
  have own: "conn_at s (st_owner t) \<noteq> Some (NetServing n)" for n
    using owners_okD [OF assms(4) stream(2)] by (auto split: if_splits)
  have route: "routed_to (st_pc t) \<noteq> Some (st_owner t)" using assms(2) stream(2) by (auto simp: routes_ok_def)
  from stream(3) show ?thesis
    using assms(2) stream(2) own route
    by (cases rule: stream_stepE)
      (auto simp: routes_ok_def routed_to_open dest: routed_target [OF _ assms(3)])
qed

lemma listed_step:
  assumes "srv_step w a s = Some s'" "listed_ok s" "routes_ok s" "owners_ok s" "clients_ok s"
  shows "listed_ok s'"
  using assms(1)
proof (cases rule: srv_stepE)
  case conn
  have present: "conn_at s (st_owner t) \<noteq> None \<and> conn_at s (st_owner t) \<noteq> Some ConnDone"
    if "task_at s u = Some t" for u t
    using owners_okD [OF assms(4) that] by (auto split: if_splits)
  from conn show ?thesis
    using assms(2)
    by (cases rule: conn_stepE) (auto simp: listed_ok_def dest: present)
next
  case (stream u t)
  have present: "map_of (clients s) (st_owner t) \<noteq> None"
    using owners_okD [OF assms(4) stream(2)] assms(5) by (auto simp: clients_ok_def split: if_splits)
  have route: "routed_to (st_pc t) \<noteq> Some (st_owner t)" using assms(3) stream(2) by (auto simp: routes_ok_def)
  from stream(3) show ?thesis
    using assms(2) stream(2) present route
    by (cases rule: stream_stepE) (auto simp: listed_ok_def split: if_splits)
qed

text \<open>The streams that were cancelled while they were listed with a wispnet client.\<close>

fun net_cancels :: "action list \<Rightarrow> uuid set" where
  "net_cancels [] = {}"
| "net_cancels (NetCancel u # as) = insert u (net_cancels as)"
| "net_cancels (a # as) = net_cancels as"

lemma action_uuid_net_cancel:
  "action_uuid a = Some u \<Longrightarrow> net_cancels [a] = (if \<exists>x. a = NetCancel x then {u} else {})"
  by (cases a) auto

lemma entries_other:
  assumes "entries_ok C s" "C \<subseteq> D"
    and "\<And>i v. v \<noteq> u \<Longrightarrow> listed s' i v = listed s i v" "\<And>v. v \<noteq> u \<Longrightarrow> task_at s' v = task_at s v"
    and "\<And>i. conn_at s i = Some ConnDone \<Longrightarrow> conn_at s' i = Some ConnDone"
    and "\<And>i. listed s' i u \<noteq> None \<Longrightarrow> u \<in> D \<or> conn_at s' i = Some ConnDone
      \<or> (\<exists>t. task_at s' u = Some t \<and> holds_entry t i)"
  shows "entries_ok D s'"
  unfolding entries_ok_def
proof (intro allI impI)
  fix i v
  assume l: "listed s' i v \<noteq> None"
  show "v \<in> D \<or> conn_at s' i = Some ConnDone \<or> (\<exists>t. task_at s' v = Some t \<and> holds_entry t i)"
  proof (cases "v = u")
    case False
    with l assms(1-5) show ?thesis unfolding entries_ok_def by (metis subsetD)
  qed (use assms(6) l in simp)
qed

lemma entries_step:
  assumes "srv_step w a s = Some s'" "entries_ok C s" "owners_ok s" "fresh_ok s" "routes_ok s"
  shows "entries_ok (C \<union> net_cancels [a]) s'"
  using assms(1)
proof (cases rule: srv_stepE)
  case conn
  then show ?thesis
    using assms(2,4)
    by (cases rule: conn_stepE) (fastforce simp: entries_ok_def fresh_ok_def alist_simps split: if_splits)+
next
  case (stream u t)
  have entry: "u \<in> C \<or> conn_at s i = Some ConnDone \<or> holds_entry t i" if "listed s i u \<noteq> None" for i
    using assms(2) stream(2) that unfolding entries_ok_def by fastforce
  note net = action_uuid_net_cancel [OF stream(1)]
  have busy: "conn_at s (st_owner t) \<noteq> Some ConnDone"
    using owners_okD [OF assms(3) stream(2)] by (auto split: if_splits)
  show ?thesis
  proof (rule entries_other [OF assms(2), of _ u])
    show "C \<subseteq> C \<union> net_cancels [a]" by simp
    from stream(3) show "\<And>i v. v \<noteq> u \<Longrightarrow> listed s' i v = listed s i v" "\<And>v. v \<noteq> u \<Longrightarrow> task_at s' v = task_at s v"
      "\<And>i. conn_at s i = Some ConnDone \<Longrightarrow> conn_at s' i = Some ConnDone"
      by (cases rule: stream_stepE; simp)+
    fix i
    assume l: "listed s' i u \<noteq> None"
    from stream(3) show "u \<in> C \<union> net_cancels [a] \<or> conn_at s' i = Some ConnDone
        \<or> (\<exists>t. task_at s' u = Some t \<and> holds_entry t i)"
      using l entry [of i] busy
      by (cases rule: stream_stepE) (auto simp: holds_entry_def net split: if_splits)
  qed
qed

lemma table_inv_step:
  "srv_step w a s = Some s' \<Longrightarrow> table_inv C s \<Longrightarrow> table_inv (C \<union> net_cancels [a]) s'"
  unfolding table_inv_def
  using owners_step clients_step fresh_step servers_step routes_step listed_step entries_step by metis

lemma net_cancels_Cons: "net_cancels (a # as) = net_cancels [a] \<union> net_cancels as"
  by (cases a) auto

lemma table_inv_run:
  "srv_run w as s = Some s' \<Longrightarrow> table_inv C s \<Longrightarrow> table_inv (C \<union> net_cancels as) s'"
proof (induction as arbitrary: s C)
  case (Cons a as)
  from Cons.prems(1) obtain s1 where s1: "srv_step w a s = Some s1" "srv_run w as s1 = Some s'"
    by (auto split: option.splits)
  from Cons.IH [OF s1(2) table_inv_step [OF s1(1) Cons.prems(2)]] show ?case
    by (simp add: net_cancels_Cons [of a as] Un_assoc)
qed simp

lemma table_inv_init: "table_inv {} srv_init"
  by (simp add: table_inv_def srv_init_def owners_ok_def clients_ok_def fresh_ok_def servers_ok_def
      routes_ok_def listed_ok_def entries_ok_def listed_def)

lemmas table_inv_reachable = table_inv_run [OF _ table_inv_init, simplified]

section \<open>The table is exact\<close>

text \<open>
  C25. The table of streams never lies while it is read. In every interleaving of connections and streams, each
  stream that is being forwarded is listed under its client, with the request and the resolved
  address; each listed stream belongs to a stream task that has not finished, unless its client is
  already gone or the stream was cancelled while it was also listed with a wispnet client; and the
  connection of every running stream is itself still in the table.
\<close>

theorem stream_table_exact:
  assumes "srv_run w as srv_init = Some s"
  shows "(\<forall>u t v. task_at s u = Some t \<longrightarrow> forwards_pair (st_pc t) = Some v \<longrightarrow> listed s (st_owner t) u = Some v)
    \<and> (\<forall>i u. listed s i u \<noteq> None \<longrightarrow>
         u \<in> net_cancels as \<or> conn_at s i = Some ConnDone \<or> (\<exists>t. task_at s u = Some t \<and> holds_entry t i))
    \<and> (\<forall>u t. task_at s u = Some t \<longrightarrow> map_of (clients s) (st_owner t) \<noteq> None)
    \<and> (\<forall>n m pr. map_of (net_registry s) n = Some (m, pr) \<longrightarrow> map_of (clients s) m \<noteq> None)"
proof -
  note inv = table_inv_reachable [OF assms, unfolded table_inv_def]
  have "\<forall>u t. task_at s u = Some t \<longrightarrow> conn_at s (st_owner t) \<noteq> None"
    using inv owners_okD by (fastforce split: if_splits)
  with inv show ?thesis
    by (auto simp: listed_ok_def entries_ok_def clients_ok_def servers_ok_def)
qed

section \<open>Statistics\<close>

definition has_name :: "bool \<Rightarrow> StreamType \<Rightarrow> bool" where
  "has_name twisp ty \<longleftrightarrow> (case ty of StreamTypeOther x \<Rightarrow> twisp \<and> x = TWISP_STREAM_TYPE | _ \<Rightarrow> True)"

lemma res_traverse_Panic:
  "\<forall>x \<in> set xs. \<forall>e. f x \<noteq> Err e \<Longrightarrow> res_traverse f xs = Panic \<longleftrightarrow> (\<exists>x \<in> set xs. f x = Panic)"
proof (induction xs)
  case (Cons x xs)
  have "res_traverse f xs \<noteq> Err e" for e
    using Cons.prems by (induction xs) (auto simp: res_bind_eq_Err)
  with Cons show ?case by (cases "f x") auto
qed simp

lemma res_traverse_not_Err: "\<forall>x \<in> set xs. \<forall>e. f x \<noteq> Err e \<Longrightarrow> res_traverse f xs \<noteq> Err e"
  by (induction xs) (auto simp: res_bind_eq_Err)

lemma StreamStats_from_Panic:
  "StreamStats_from twisp v = Panic \<longleftrightarrow> \<not> has_name twisp (stream_type (fst v))"
  "StreamStats_from twisp v \<noteq> Err e"
  by (auto simp: StreamStats_from_def format_stream_type_def has_name_def split: StreamType.splits)

text \<open>All streams in the table, each requested and as resolved.\<close>

definition table_pairs :: "srv \<Rightarrow> (ConnectPacket \<times> ConnectPacket) set" where
  "table_pairs s = (\<Union>c \<in> set (clients s). snd ` set (fst (snd c)))"

lemma generate_stats_Panic:
  "generate_stats twisp s = Panic \<longleftrightarrow> (\<exists>v \<in> table_pairs s. \<not> has_name twisp (stream_type (fst v)))"
proof -
  let ?f = "\<lambda>(u, v). res_bind (StreamStats_from twisp v) (\<lambda>x. Ok (u :: uuid, x))"
  have no_err: "?f x \<noteq> Err e" for x e
    by (cases x) (simp add: res_bind_eq_Err StreamStats_from_Panic)
  have f_panic: "?f x = Panic \<longleftrightarrow> \<not> has_name twisp (stream_type (fst (snd x)))" for x
    by (cases x) (simp add: StreamStats_from_Panic)
  let ?g = "\<lambda>(i, tab, r). res_bind (res_traverse ?f tab) (\<lambda>streams. Ok (i, r, streams))"
  have g_panic: "?g c = Panic \<longleftrightarrow> (\<exists>x \<in> set (fst (snd c)). \<not> has_name twisp (stream_type (fst (snd x))))"
    for c :: "rstring \<times> Client"
    using res_traverse_Panic [of "fst (snd c)" ?f] no_err f_panic by (cases c) simp
  have g_err: "?g c \<noteq> Err e" for c :: "rstring \<times> Client" and e
    using res_traverse_not_Err [of "fst (snd c)" ?f e] no_err by (cases c) (simp add: res_bind_eq_Err)
  have "generate_stats twisp s = Panic \<longleftrightarrow> (\<exists>c \<in> set (clients s). ?g c = Panic)"
    unfolding generate_stats_def by (rule res_traverse_Panic) (use g_err in blast)
  then show ?thesis by (simp add: g_panic table_pairs_def)
qed

lemma set_alist_update: "set (AList.update k v al) \<subseteq> insert (k, v) (set al)"
  by (induction al) auto

lemma set_alist_delete: "set (AList.delete k al) \<subseteq> set al"
  by (induction al) auto

lemma table_pairs_update:
  assumes "map_of (clients s) i = Some (tab, r)" "snd ` set tab' \<subseteq> V \<union> snd ` set tab"
  shows "table_pairs (s\<lparr>clients := AList.update i (tab', r) (clients s)\<rparr>) \<subseteq> V \<union> table_pairs s"
proof -
  have "(i, tab, r) \<in> set (clients s)" using assms(1) by (rule map_of_SomeD)
  then have "snd ` set tab \<subseteq> table_pairs s" by (force simp: table_pairs_def)
  moreover have "table_pairs (s\<lparr>clients := AList.update i (tab', r) (clients s)\<rparr>) \<subseteq> snd ` set tab' \<union> table_pairs s"
    using set_alist_update [of i "(tab', r)" "clients s"] by (force simp: table_pairs_def)
  ultimately show ?thesis using assms(2) by blast
qed

lemma table_pairs_stream:
  "table_pairs (stream_insert i u v s) \<subseteq> insert v (table_pairs s)"
  "table_pairs (stream_remove i u s) \<subseteq> table_pairs s"
proof -
  have "snd ` set (AList.update u v tab) \<subseteq> {v} \<union> snd ` set tab"
    "snd ` set (AList.delete u tab) \<subseteq> {} \<union> snd ` set tab" for tab
    using image_mono [OF set_alist_update [of u v tab], of snd] image_mono [OF set_alist_delete [of u tab], of snd]
    by auto
  note sub = table_pairs_update [OF _ this(1)] table_pairs_update [OF _ this(2)]
  show "table_pairs (stream_insert i u v s) \<subseteq> insert v (table_pairs s)"
    using sub(1) [of s i] by (auto simp: stream_insert_def split: option.splits)
  show "table_pairs (stream_remove i u s) \<subseteq> table_pairs s"
    using sub(2) [of s i] by (auto simp: stream_remove_def split: option.splits)
qed

lemma table_pairs_client:
  "table_pairs (client_insert i r s) \<subseteq> table_pairs s" "table_pairs (client_remove i s) \<subseteq> table_pairs s"
  using set_alist_update [of i "([], r)" "clients s"] set_alist_delete [of i "clients s"]
  by (force simp: client_insert_def client_remove_def table_pairs_def)+

lemma table_pairs_same [simp]:
  "table_pairs (set_conn i c s) = table_pairs s" "table_pairs (set_task x t s) = table_pairs s"
  "table_pairs (end_task x s) = table_pairs s" "table_pairs (draw x s) = table_pairs s"
  "table_pairs (s\<lparr>conns := cs\<rparr>) = table_pairs s" "table_pairs (s\<lparr>wispnet_ids := k\<rparr>) = table_pairs s"
  "table_pairs (s\<lparr>net_registry := ws\<rparr>) = table_pairs s"
  by (simp_all add: table_pairs_def set_conn_def set_task_def end_task_def draw_def)

lemma resolve_stream_named:
  assumes "\<not> has_wispnet (wisp cfg)" "resolve_stream u cfg cache p = Ok (Opened (p', q, st))"
  shows "has_name (feature_twisp (up_net u)) (stream_type p') \<and> \<not> is_wispnet_stream st"
proof -
  have nw: "\<not> is_wispnet cfg p" using assms(1) by (simp add: is_wispnet_def)
  have nc: "connect n o_s cfg c = Ok st \<Longrightarrow> \<not> is_wispnet_stream st" for n :: "'b net" and o_s c
    by (cases "stream_type c") (auto simp: connect_def ok_or_def Let_def split: option.splits if_splits)
  have p: "p' = p" using resolve_stream_request [OF assms(2)] .
  show ?thesis
  proof (cases "stream_type p")
    case (StreamTypeOther ty)
    then show ?thesis
      using assms(2) p
      by (auto simp: resolve_stream_other [OF nw StreamTypeOther] twisp_permitted_def has_name_def
          split: if_splits option.splits)
  qed (use assms(2) p nw nc in \<open>auto simp: resolve_stream_host Let_def has_name_def
        split: if_splits list.splits res.splits\<close>)
qed

text \<open>What holds of every stream the server opens holds of every stream that is open in a run.\<close>

definition streams_satisfy :: "(ConnectPacket \<Rightarrow> ClientStream \<Rightarrow> bool) \<Rightarrow> srv \<Rightarrow> bool" where
  "streams_satisfy P s \<longleftrightarrow> (\<forall>u t p q st. task_at s u = Some t \<longrightarrow>
     st_pc t = StreamOpen p q st \<or> st_pc t = Forwarding p q st \<longrightarrow> P p st)"

definition opens_only :: "('r, 'l) world \<Rightarrow> (ConnectPacket \<Rightarrow> ClientStream \<Rightarrow> bool) \<Rightarrow> bool" where
  "opens_only w P \<longleftrightarrow> (\<forall>s p q st. resolve_stream (w_upstream w s) (w_cfg w) (w_cache w) p = Ok (Opened (p, q, st)) \<longrightarrow> P p st)"

lemma streams_satisfy_step:
  assumes "srv_step w a s = Some s'" "streams_satisfy P s" "opens_only w P"
  shows "streams_satisfy P s'"
  using assms(1)
proof (cases rule: srv_stepE)
  case conn
  have "\<forall>path udp p q st. wsproxy_open (w_upstream w s) (w_cfg w) (w_cache w) path udp = Ok (Opened (p, q, st)) \<longrightarrow> P p st"
    using wsproxy_opens assms(3) unfolding opens_only_def by blast
  with conn show ?thesis
    using assms(2)
    by (cases rule: conn_stepE) (auto simp: streams_satisfy_def)
next
  case (stream u t)
  have here: "\<forall>p q st. st_pc t = StreamOpen p q st \<or> st_pc t = Forwarding p q st \<longrightarrow> P p st"
    using assms(2) stream(2) unfolding streams_satisfy_def by blast
  have new: "\<forall>p q st. resolve_stream (w_upstream w s) (w_cfg w) (w_cache w) p = Ok (Opened (p, q, st)) \<longrightarrow> P p st"
    using assms(3) unfolding opens_only_def by blast
  from stream(3) show ?thesis
    using here new assms(2)
    by (cases rule: stream_stepE) (auto simp: streams_satisfy_def split: if_splits)
qed

lemma streams_satisfy_run:
  "srv_run w as s = Some s' \<Longrightarrow> streams_satisfy P s \<Longrightarrow> opens_only w P \<Longrightarrow> streams_satisfy P s'"
proof (induction as arbitrary: s)
  case (Cons a as)
  then show ?case using streams_satisfy_step by (fastforce split: option.splits)
qed simp

lemma streams_satisfy_init: "streams_satisfy P srv_init"
  by (simp add: streams_satisfy_def srv_init_def)

definition names_ok :: "bool \<Rightarrow> srv \<Rightarrow> bool" where
  "names_ok twisp s \<longleftrightarrow> (\<forall>v \<in> table_pairs s. has_name twisp (stream_type (fst v)))
   \<and> streams_satisfy (\<lambda>p st. has_name twisp (stream_type p) \<and> \<not> is_wispnet_stream st) s"

lemma named_opens:
  assumes "\<not> has_wispnet (wisp (w_cfg w))"
  shows "opens_only w (\<lambda>p st. has_name (feature_twisp (w_net w)) (stream_type p) \<and> \<not> is_wispnet_stream st)"
  using resolve_stream_named [OF assms] unfolding opens_only_def
  by (fastforce simp: w_upstream_def current_upstream_def)

lemma names_step:
  assumes "srv_step w a s = Some s'" "names_ok (feature_twisp (w_net w)) s" "\<not> has_wispnet (wisp (w_cfg w))"
  shows "names_ok (feature_twisp (w_net w)) s'"
proof -
  have "\<forall>v \<in> table_pairs s'. has_name (feature_twisp (w_net w)) (stream_type (fst v))"
    using assms(1)
  proof (cases rule: srv_stepE)
    case conn
    then show ?thesis
      using assms(2) table_pairs_client
      by (cases rule: conn_stepE) (fastforce simp: names_ok_def)+
  next
    case (stream u t)
    have "\<forall>p q st. st_pc t = StreamOpen p q st \<or> st_pc t = Forwarding p q st \<longrightarrow>
        has_name (feature_twisp (w_net w)) (stream_type p) \<and> \<not> is_wispnet_stream st"
      using assms(2) stream(2) unfolding names_ok_def streams_satisfy_def by blast
    with stream(3) show ?thesis
      using assms(2)
      by (cases rule: stream_stepE) (use table_pairs_stream in \<open>fastforce simp: names_ok_def split: if_splits\<close>)+
  qed
  with assms(2) streams_satisfy_step [OF assms(1) _ named_opens [OF assms(3)]] show ?thesis
    by (simp add: names_ok_def)
qed

lemma names_run:
  "srv_run w as s = Some s' \<Longrightarrow> names_ok (feature_twisp (w_net w)) s \<Longrightarrow> \<not> has_wispnet (wisp (w_cfg w)) \<Longrightarrow>
     names_ok (feature_twisp (w_net w)) s'"
proof (induction as arbitrary: s)
  case (Cons a as)
  from Cons.prems(1) obtain s1 where s1: "srv_step w a s = Some s1" "srv_run w as s1 = Some s'"
    by (auto split: option.splits)
  from Cons.IH [OF s1(2) names_step [OF s1(1) Cons.prems(2,3)] Cons.prems(3)] show ?case .
qed simp

text \<open>
  Generating the statistics does not panic in any run of a server that does not offer wispnet: every stream
  the server ever lists has a type that the statistics can name, so the \<open>unreachable!\<close> of
  \<open>format_stream_type\<close> is not reached.
\<close>

theorem stats_never_panic:
  assumes "srv_run w as srv_init = Some s" "\<not> has_wispnet (wisp (w_cfg w))"
  shows "generate_stats (feature_twisp (w_net w)) s \<noteq> Panic"
proof -
  have "names_ok (feature_twisp (w_net w)) srv_init" by (simp add: names_ok_def streams_satisfy_init) (simp add: srv_init_def table_pairs_def)
  from names_run [OF assms(1) this assms(2)] show ?thesis by (auto simp: generate_stats_Panic names_ok_def)
qed

section \<open>Runs\<close>

definition demo_world :: "(rstring list, unit) world" where
  "demo_world = \<lparr>w_net = demo_net, w_os = demo_os, w_cfg = demo_config, w_cache = demo_cache,
     w_takes = (\<lambda>_ _. True)\<rparr>"

definition demo_run :: "action list" where
  "demo_run = [Accept [1] (RouteWisp True), Spawn [1] 7 (demo_request ''pub''), ResolveEnd 7, Insert 7]"

lemma demo_resolve_stream:
  "up_net u = demo_net \<Longrightarrow> up_os u = demo_os \<Longrightarrow>
   resolve_stream u demo_config demo_cache (demo_request ''pub'') = Ok (Opened (demo_request ''pub'',
     \<lparr>stream_type = Tcp, host = [4, 93, 184, 215, 14], port = 8080\<rparr>, TcpStream (V4 (Ipv4Addr 93 184 215 14)) 8080))"
  by (simp add: resolve_stream_def demo_resolve)

lemmas run_eval = srv_init_def srv_step_def stream_step_def wispnet_enter_def wispnet_leave_def set_task_def set_conn_def end_task_def draw_def
  client_insert_def stream_insert_def stream_remove_def route_conn_def w_upstream_def current_upstream_def
  cancelled_def

lemma demo_run_state:
  "srv_run demo_world demo_run srv_init = Some \<lparr>
     clients = [([1], [(7, demo_request ''pub'', \<lparr>stream_type = Tcp, host = [4, 93, 184, 215, 14], port = 8080\<rparr>)],
        RouteWisp True)],
     net_registry = [], wispnet_ids = 0, conns = [([1], WispServing)],
     tasks = [(7, \<lparr>st_owner = [1], st_proxy = False,
        st_pc = Forwarding (demo_request ''pub'') \<lparr>stream_type = Tcp, host = [4, 93, 184, 215, 14], port = 8080\<rparr>
          (TcpStream (V4 (Ipv4Addr 93 184 215 14)) 8080)\<rparr>)], uuids = [7]\<rparr>"
  by (simp add: demo_run_def demo_world_def run_eval demo_resolve_stream)

theorem stream_table_exact_witness:
  "\<exists>s t. srv_run demo_world demo_run srv_init = Some s \<and> task_at s 7 = Some t \<and> listed s (st_owner t) 7 =
     Some (demo_request ''pub'', \<lparr>stream_type = Tcp, host = [4, 93, 184, 215, 14], port = 8080\<rparr>)"
proof -
  note exact = conjunct1 [OF stream_table_exact [OF demo_run_state], rule_format, of 7]
  show ?thesis unfolding demo_run_state by (intro exI conjI) (rule refl, simp, rule exact, simp_all)
qed

theorem stats_never_panic_witness:
  "\<exists>s. srv_run demo_world demo_run srv_init = Some s \<and> generate_stats False s \<noteq> Panic"
  using stats_never_panic [OF demo_run_state] demo_run_state
  by (simp add: demo_world_def demo_net_def demo_config_def wasix_defaults_def Config_default_def
      WispConfig_default_def has_wispnet_def Let_def)

subsection \<open>With wispnet\<close>

text \<open>The same server with the wispnet extension enabled: one wispnet server, and a client that asks for it.\<close>

definition net_config :: "unit Config" where
  "net_config = demo_config\<lparr>wisp := (wisp demo_config)\<lparr>wisp_extensions := [ExtWispnet]\<rparr>\<rparr>"

definition net_world :: "(rstring list, unit) world" where
  "net_world = demo_world\<lparr>w_cfg := net_config\<rparr>"

definition net_request :: "StreamType \<Rightarrow> ConnectPacket" where
  "net_request ty = \<lparr>stream_type = ty, host = str ''0.wisp'', port = 80\<rparr>"

definition net_run :: "StreamType \<Rightarrow> action list" where
  "net_run ty = [Accept [2] RouteWispnet, NetAlloc [2], NetReady [2] False, Accept [1] (RouteWisp True),
     Spawn [1] 7 (net_request ty), ResolveEnd 7, Insert 7]"

lemma net_resolve_stream:
  assumes "up_net u = demo_net" "up_servers u 0 = Some c" "wn_new_stream c (net_request ty)"
  shows "resolve_stream u net_config demo_cache (net_request ty) =
    Ok (Opened (net_request ty, net_request ty, WispnetStream 0 (wn_id c)))"
proof -
  have "has_wispnet (wisp net_config)" by (simp add: net_config_def has_wispnet_def)
  moreover have "before wisp_suffix (host (net_request ty)) = str ''0''"
    "ends_with (host (net_request ty)) wisp_suffix"
    by (simp_all add: net_request_def wisp_suffix_def str_def ends_with_def suffix_def)
  moreover have "base64_decode demo_net b = Some b" for b by (simp add: demo_net_def)
  moreover have "utf8_valid (str ''0'')" "parse_u32 (str ''0'') = Some 0"
    by (simp_all add: str_def parse_u32_def parse_unsigned_def)
  ultimately show ?thesis
    using assms by (simp add: resolve_stream_def resolve_def ok_or_def route_wispnet_def)
qed

lemma net_run_state:
  "srv_run net_world (net_run ty) srv_init = Some \<lparr>
     clients = [([2], [], RouteWispnet), ([1], [(7, net_request ty, net_request ty)], RouteWisp True)],
     net_registry = [(0, [2], False)], wispnet_ids = 1, conns = [([2], NetServing 0), ([1], WispServing)],
     tasks = [(7, \<lparr>st_owner = [1], st_proxy = False,
        st_pc = Forwarding (net_request ty) (net_request ty) (WispnetStream 0 [2])\<rparr>)], uuids = [7]\<rparr>"
  by (simp add: net_run_def net_world_def demo_world_def run_eval net_resolve_stream)

text \<open>
  A client can make the statistics panic where wispnet is offered: a stream routed to a wispnet server
  is accepted with any stream type.
\<close>

lemma stats_panics_with_wispnet:
  "\<exists>s. srv_run net_world (net_run (StreamTypeOther 9)) srv_init = Some s
     \<and> generate_stats (feature_twisp (w_net net_world)) s = Panic"
  unfolding net_run_state
  by (simp add: generate_stats_Panic table_pairs_def net_request_def has_name_def TWISP_STREAM_TYPE_def)

text \<open>
  A stream that is cancelled while it is routed to a wispnet server stays listed under that server's
  client after its task has ended.
\<close>

lemma srv_run_append:
  "srv_run w (as @ bs) s = (case srv_run w as s of None \<Rightarrow> None | Some s' \<Rightarrow> srv_run w bs s')"
  by (induction as arbitrary: s) (auto split: option.splits)

lemma cancelled_stream_stays_listed:
  "\<exists>s. srv_run net_world (net_run Tcp @ [EnterNet 7, WispClose [1], NetCancel 7, Remove 7, WispJoined [1],
       Disconnect [1]]) srv_init = Some s
     \<and> tasks s = [] \<and> conn_at s [2] = Some (NetServing 0)
     \<and> listed s [2] 7 = Some (net_request Tcp, net_request Tcp)"
  unfolding srv_run_append net_run_state
  by (simp add: net_world_def run_eval client_remove_def listed_def)

end
