(* ===== verification/Http_Headers.thy ===== *)
theory Http_Headers
  imports Prelude
begin

text \<open>
  Header maps of the \<open>http\<close> crate, which the server and the browser client share: an association list
  with names in lower case. Several values of one name are several entries, in the order they were added.
  \<open>insert\<close> replaces all values of a name, \<open>append\<close> (and \<open>header\<close> of a request builder) adds one.
\<close>

type_synonym HeaderMap = "(rstring \<times> bytes) list"

definition header_get :: "HeaderMap \<Rightarrow> rstring \<Rightarrow> bytes option" where
  "header_get hs name = map_of hs name"

definition header_get_all :: "HeaderMap \<Rightarrow> rstring \<Rightarrow> bytes list" where
  "header_get_all hs name = map snd (filter (\<lambda>(k, v). k = name) hs)"

text \<open>\<open>u8::is_ascii_whitespace\<close> and \<open>eq_ignore_ascii_case\<close> of the standard library.\<close>

definition is_ascii_whitespace :: "u8 \<Rightarrow> bool" where
  "is_ascii_whitespace b \<longleftrightarrow> b = 32 \<or> b = 9 \<or> b = 10 \<or> b = 12 \<or> b = 13"

definition to_ascii_lowercase :: "u8 \<Rightarrow> u8" where
  "to_ascii_lowercase b = (if 65 \<le> b \<and> b \<le> 90 then b + 32 else b)"

definition eq_ignore_ascii_case :: "bytes \<Rightarrow> bytes \<Rightarrow> bool" where
  "eq_ignore_ascii_case a b \<longleftrightarrow> map to_ascii_lowercase a = map to_ascii_lowercase b"

fun header_insert :: "rstring \<Rightarrow> bytes \<Rightarrow> HeaderMap \<Rightarrow> HeaderMap" where
  "header_insert k v [] = [(k, v)]"
| "header_insert k v ((k', v') # hs) =
    (if k' = k then (k, v) # filter (\<lambda>(n, _). n \<noteq> k) hs else (k', v') # header_insert k v hs)"

declare header_insert.simps [simp del]

definition header_append :: "rstring \<Rightarrow> bytes \<Rightarrow> HeaderMap \<Rightarrow> HeaderMap" where
  "header_append k v hs = hs @ [(k, v)]"

lemma header_get_Nil [simp]: "header_get [] n = None"
  by (simp add: header_get_def)

lemma header_get_filter: "header_get (filter (\<lambda>(n, _). n \<noteq> k) hs) n = (if n = k then None else header_get hs n)"
  by (induction hs) (auto simp: header_get_def)

lemma header_get_insert [simp]: "header_get (header_insert k v hs) n = (if n = k then Some v else header_get hs n)"
proof (induction k v hs rule: header_insert.induct)
  case (2 k v k' v' hs)
  then show ?case using header_get_filter [of k hs n] by (auto simp: header_get_def header_insert.simps)
qed (simp add: header_get_def header_insert.simps)

lemma header_get_append: "header_get (header_append k v hs) n =
    (case header_get hs n of Some w \<Rightarrow> Some w | None \<Rightarrow> if n = k then Some v else None)"
  by (auto simp: header_get_def header_append_def map_add_def split: option.splits)

lemma header_insert_names: "set (map fst (header_insert k v hs)) = insert k (set (map fst hs))"
  by (induction k v hs rule: header_insert.induct) (auto simp: image_iff header_insert.simps)

lemma header_insert_distinct: "distinct (map fst hs) \<Longrightarrow> distinct (map fst (header_insert k v hs))"
proof (induction k v hs rule: header_insert.induct)
  case (2 k v k' v' hs)
  have "filter (\<lambda>(n, _). n \<noteq> k) hs = hs" if "k \<notin> fst ` set hs"
    using that by (intro filter_True) force
  with 2 header_insert_names [of k v hs] show ?case by (auto simp: header_insert.simps)
qed (simp add: header_insert.simps)

lemma header_insert_entry: "(k, x) \<in> set (header_insert k v hs) \<longleftrightarrow> x = v"
  by (induction k v hs rule: header_insert.induct) (auto simp: header_insert.simps)

lemma header_get_all_append: "header_get_all (header_append k v hs) n = header_get_all hs n @ (if n = k then [v] else [])"
  by (simp add: header_get_all_def header_append_def)

end
