(* ===== verification/Server_Http.thy ===== *)
theory Server_Http
  imports Server_Clients Http_Headers
begin

text \<open>
  The HTTP side of the server: \<open>server/src/upgrade.rs\<close> (recognising and answering websocket upgrades)
  and \<open>server/src/route.rs\<close> (the index page, the statistics endpoint, and which handler a request is
  routed to), and the naming of clients in \<open>listen_wisp\<close> of \<open>main.rs\<close>.

  The record \<open>http\<close> holds what other crates compute: reading a header value as a string, parsing a
  URI (its scheme and authority), SHA-1, base64 and JSON string literals. Header names are
  lower case, as \<open>hyper\<close> keeps them.
\<close>

section \<open>Definitions\<close>

record http =
  to_str :: "bytes \<Rightarrow> rstring option"
  uri_parse :: "rstring \<Rightarrow> (rstring option \<times> rstring option) option"
  sha1 :: "bytes \<Rightarrow> bytes"
  base64_encode :: "bytes \<Rightarrow> rstring"
  json_string :: "rstring \<Rightarrow> rstring option"

record Request =
  req_path :: rstring
  req_query :: "rstring option"
  req_headers :: HeaderMap

record Response =
  status :: nat
  resp_headers :: HeaderMap
  resp_body :: bytes

subsection \<open>Upgrades\<close>

text \<open>\<open>position\<close> and \<open>rposition\<close> of the first and last byte that satisfies a predicate.\<close>

fun position :: "('a \<Rightarrow> bool) \<Rightarrow> 'a list \<Rightarrow> nat option" where
  "position P [] = None"
| "position P (x # xs) = (if P x then Some 0 else map_option Suc (position P xs))"

definition rposition :: "('a \<Rightarrow> bool) \<Rightarrow> 'a list \<Rightarrow> nat option" where
  "rposition P xs = map_option (\<lambda>i. length xs - 1 - i) (position P (rev xs))"

definition trim_start :: "bytes \<Rightarrow> bytes" where
  "trim_start d = (case position (\<lambda>x. \<not> is_ascii_whitespace x) d of Some i \<Rightarrow> drop i d | None \<Rightarrow> [])"

definition trim_end :: "bytes \<Rightarrow> bytes" where
  "trim_end d = (case rposition (\<lambda>x. \<not> is_ascii_whitespace x) d of Some i \<Rightarrow> take (i + 1) d | None \<Rightarrow> [])"

definition trim :: "bytes \<Rightarrow> bytes" where
  "trim d = trim_end (trim_start d)"

definition header_contains_value :: "HeaderMap \<Rightarrow> rstring \<Rightarrow> bytes \<Rightarrow> bool" where
  "header_contains_value hs header value \<longleftrightarrow>
     list_ex (\<lambda>h. list_ex (\<lambda>x. eq_ignore_ascii_case (trim x) value) (split_on 44 h)) (header_get_all hs header)"

definition is_upgrade_request :: "Request \<Rightarrow> bool" where
  "is_upgrade_request r \<longleftrightarrow> header_contains_value (req_headers r) (str ''connection'') (str ''Upgrade'')
     \<and> header_contains_value (req_headers r) (str ''upgrade'') (str ''websocket'')"

definition sec_websocket_protocol :: "http \<Rightarrow> bytes \<Rightarrow> rstring" where
  "sec_websocket_protocol h k = base64_encode h (sha1 h (k @ str ''258EAFA5-E914-47DA-95CA-C5AB0DC85B11''))"

datatype http_error = MissingKey | BadVersion | JsonError

definition upgrade :: "http \<Rightarrow> Request \<Rightarrow> (Response, http_error) res" where
  "upgrade h r = (case header_get (req_headers r) (str ''sec-websocket-key'') of
      None \<Rightarrow> Err MissingKey
    | Some k \<Rightarrow>
       (if header_get (req_headers r) (str ''sec-websocket-version'') \<noteq> Some (str ''13'') then Err BadVersion
        else Ok \<lparr>status = 101, resp_headers = [(str ''connection'', str ''upgrade''),
           (str ''upgrade'', str ''websocket''),
           (str ''sec-websocket-accept'', sec_websocket_protocol h k)], resp_body = []\<rparr>))"

subsection \<open>The index page\<close>

definition html_escape :: "rstring \<Rightarrow> rstring" where
  "html_escape value = concat (map (\<lambda>c.
     if c = 38 then str ''&amp;'' else if c = 60 then str ''&lt;'' else if c = 62 then str ''&gt;''
     else if c = 34 then str ''&quot;'' else if c = 39 then str ''&#39;'' else [c]) value)"

definition get_header :: "http \<Rightarrow> HeaderMap \<Rightarrow> rstring \<Rightarrow> rstring option" where
  "get_header h hs name = Option.bind (header_get hs name) (to_str h)"

text \<open>
  \<open>str::trim\<close>: a string loses the white space characters at both ends. \<open>white_space\<close> lists the UTF-8
  encodings of these characters.
\<close>

definition white_space :: "bytes list" where
  "white_space = [[9], [10], [11], [12], [13], [32], [0xC2, 0x85], [0xC2, 0xA0], [0xE1, 0x9A, 0x80]]
     @ map (\<lambda>b. [0xE2, 0x80, b]) [0x80, 0x81, 0x82, 0x83, 0x84, 0x85, 0x86, 0x87, 0x88, 0x89, 0x8A, 0xA8, 0xA9, 0xAF]
     @ [[0xE2, 0x81, 0x9F], [0xE3, 0x80, 0x80]]"

fun strip_prefixes :: "nat \<Rightarrow> bytes list \<Rightarrow> bytes \<Rightarrow> bytes" where
  "strip_prefixes 0 ws s = s"
| "strip_prefixes (Suc n) ws s = (case find (\<lambda>w. prefix w s) ws of
      None \<Rightarrow> s | Some w \<Rightarrow> strip_prefixes n ws (drop (length w) s))"

definition str_trim :: "rstring \<Rightarrow> rstring" where
  "str_trim s = (let t = strip_prefixes (length s) white_space s
     in rev (strip_prefixes (length t) (map rev white_space) (rev t)))"

definition first_header_value :: "http \<Rightarrow> HeaderMap \<Rightarrow> rstring \<Rightarrow> rstring option" where
  "first_header_value h hs name = (case get_header h hs name of
      None \<Rightarrow> None
    | Some value \<Rightarrow> (let v = str_trim (hd (split_on 44 value)) in if v = [] then None else Some v))"

definition trim_end_slashes :: "rstring \<Rightarrow> rstring" where
  "trim_end_slashes s = rev (dropWhile (\<lambda>c. c = 47) (rev s))"

text \<open>The path of the advertised endpoint.\<close>

definition endpoint_path :: "rstring \<Rightarrow> rstring" where
  "endpoint_path configured = (let p = trim_end_slashes configured
     in if p = [] then str ''/'' else if take 1 p = [47] then p @ str ''/'' else str ''/'' @ p @ str ''/'')"

definition websocket_url :: "http \<Rightarrow> WispConfig \<Rightarrow> Request \<Rightarrow> rstring" where
  "websocket_url h c r =
    (let hs = req_headers r;
         secure = (case first_header_value h hs (str ''x-forwarded-proto'') of
             None \<Rightarrow> False
           | Some v \<Rightarrow> eq_ignore_ascii_case v (str ''https'') \<or> eq_ignore_ascii_case v (str ''wss''))
           \<or> (case first_header_value h hs (str ''x-forwarded-ssl'') of
               None \<Rightarrow> False | Some v \<Rightarrow> eq_ignore_ascii_case v (str ''on''));
         scheme = (if secure then str ''wss'' else str ''ws'');
         hst = (case first_header_value h hs (str ''x-forwarded-host'') of
             Some v \<Rightarrow> v
           | None \<Rightarrow> (case get_header h hs (str ''host'') of Some v \<Rightarrow> v | None \<Rightarrow> str ''localhost:4000''))
     in scheme @ str ''://'' @ hst @ endpoint_path (wisp_prefix c))"

definition contains :: "rstring \<Rightarrow> rstring \<Rightarrow> bool" where
  "contains s x \<longleftrightarrow> sublist x s"

definition autoconfigure_target :: "http \<Rightarrow> 'l ServerConfig \<Rightarrow> (rstring \<times> rstring) option" where
  "autoconfigure_target h c = Option.bind (autoconfigure_domain c) (\<lambda>domain.
     let configured = str_trim domain in
     if configured = [] then None
     else let target = (if contains configured (str ''://'') then configured else str ''https://'' @ configured)
          in Option.bind (uri_parse h target) (\<lambda>(scheme, authority).
             Option.bind scheme (\<lambda>scheme.
               if scheme \<noteq> str ''http'' \<and> scheme \<noteq> str ''https'' then None
               else map_option (\<lambda>a. (target, a)) authority)))"

text \<open>The fixed text of the page around its three variable parts.\<close>

record page =
  page_head :: rstring
  page_before_url :: rstring
  page_after_url :: rstring
  page_tail :: rstring

definition autoconfigure_link :: "(rstring \<times> rstring) option \<Rightarrow> rstring" where
  "autoconfigure_link t = (case t of
      None \<Rightarrow> []
    | Some (bridge_url, label) \<Rightarrow>
        str ''<a id=\"autoconfigure\" class=\"autoconfigure\" href=\"'' @ html_escape bridge_url
        @ str ''\"><span class=\"pulse\"></span>Automatically connect to '' @ html_escape label @ str ''</a>'')"

definition autoconfigure_script :: "http \<Rightarrow> (rstring \<times> rstring) option \<Rightarrow> rstring \<Rightarrow> (rstring, http_error) res" where
  "autoconfigure_script h t raw_url = (case t of
      None \<Rightarrow> Ok []
    | Some (bridge_url, _) \<Rightarrow>
        res_bind (ok_or (json_string h bridge_url) JsonError) (\<lambda>bridge.
        res_bind (ok_or (json_string h raw_url) JsonError) (\<lambda>endpoint.
          Ok (str ''<script>'' @ [10] @ str ''  (() => {'' @ [10]
            @ str ''    const bridgeUrl = '' @ bridge @ str '';'' @ [10]
            @ str ''    const endpoint = '' @ endpoint @ str '';'' @ [10]
            @ str ''    const target = new URL(bridgeUrl);'' @ [10]
            @ str ''    target.searchParams.set('endpoint', endpoint);'' @ [10]
            @ str ''    document.getElementById('autoconfigure').href = target.href;'' @ [10]
            @ str ''  })();'' @ [10] @ str ''</script>''))))"

definition index_resp ::
    "http \<Rightarrow> page \<Rightarrow> 'l Config \<Rightarrow> Request \<Rightarrow> (Response, http_error) res" where
  "index_resp h pg cfg r =
    (let raw_url = websocket_url h (wisp cfg) r;
         target = autoconfigure_target h (server cfg)
     in res_bind (autoconfigure_script h target raw_url) (\<lambda>script.
        Ok \<lparr>status = 200, resp_headers = [(str ''content-type'', str ''text/html; charset=utf-8''),
             (str ''cache-control'', str ''no-store'')],
            resp_body = page_head pg @ autoconfigure_link target @ page_before_url pg @ html_escape raw_url
              @ page_after_url pg @ script @ page_tail pg\<rparr>))"

definition non_ws_resp ::
    "http \<Rightarrow> page \<Rightarrow> 'l Config \<Rightarrow> Request \<Rightarrow> (Response, http_error) res" where
  "non_ws_resp h pg cfg r = (if req_path r = str ''/'' then index_resp h pg cfg r
     else Ok \<lparr>status = 200, resp_headers = [(str ''content-type'', str ''text/plain; charset=utf-8'')],
       resp_body = non_ws_response (server cfg)\<rparr>)"

text \<open>The statistics are an argument: the text, or the message of the error.\<close>

definition send_stats :: "(rstring, rstring) res \<Rightarrow> (Response, http_error) res" where
  "send_stats stats = (case stats of
      Ok x \<Rightarrow> Ok \<lparr>status = 200, resp_headers = [], resp_body = x\<rparr>
    | Err x \<Rightarrow> Ok \<lparr>status = 500, resp_headers = [], resp_body = x\<rparr>
    | Panic \<Rightarrow> Panic)"

subsection \<open>Routing\<close>

datatype HttpUpgradeResult = UpWisp bool bool | UpWsProxy rstring bool

text \<open>
  \<open>ws_upgrade\<close>: the response, and what is handed to the callback with the client's own address, if
  anything.
\<close>

definition ws_upgrade ::
    "http \<Rightarrow> page \<Rightarrow> 'l Config \<Rightarrow> rstring option \<Rightarrow> (rstring, rstring) res \<Rightarrow> Request
      \<Rightarrow> (Response \<times> (HttpUpgradeResult \<times> rstring option) option, http_error) res" where
  "ws_upgrade h pg cfg stats_ep stats r =
    (if \<not> is_upgrade_request r then
       (if stats_ep = Some (req_path r) then res_bind (send_stats stats) (\<lambda>x. Ok (x, None))
        else res_bind (non_ws_resp h pg cfg r) (\<lambda>x. Ok (x, None)))
     else res_bind (upgrade h r) (\<lambda>resp.
       let hs = req_headers r;
           ip_header = (if use_real_ip_headers (server cfg)
             then (case get_header h hs (str ''x-real-ip'') of
                 Some x \<Rightarrow> Some x | None \<Rightarrow> get_header h hs (str ''x-forwarded-for''))
             else None);
           ws_protocol = header_get hs (str ''sec-websocket-protocol'');
           query = (case req_query r of Some q \<Rightarrow> q | None \<Rightarrow> [])
       in if ends_with (req_path r) (wisp_prefix (wisp cfg) @ str ''/'') then
            Ok (case ws_protocol of
                  None \<Rightarrow> resp
                | Some p \<Rightarrow> resp\<lparr>resp_headers := resp_headers resp @ [(str ''sec-websocket-protocol'', p)]\<rparr>,
                Some (UpWisp (ws_protocol \<noteq> None) (has_wispnet (wisp cfg) \<and> query = str ''net''), ip_header))
          else if allow_wsproxy (wisp cfg) then
            Ok (resp, Some (UpWsProxy (req_path r) (query = str ''udp''), ip_header))
          else res_bind (non_ws_resp h pg cfg r) (\<lambda>x. Ok (x, None))))"

text \<open>\<open>route\<close>: the handler that a connection ends at, for both transports.\<close>

definition upgrade_route :: "HttpUpgradeResult \<Rightarrow> ServerRouteResult" where
  "upgrade_route u = (case u of
      UpWisp has_ws_protocol is_net \<Rightarrow> if is_net then RouteWispnet else RouteWisp has_ws_protocol
    | UpWsProxy path udp \<Rightarrow> RouteWsProxy path udp)"

definition route ::
    "http \<Rightarrow> page \<Rightarrow> 'l Config \<Rightarrow> rstring option \<Rightarrow> (rstring, rstring) res \<Rightarrow> Request
      \<Rightarrow> (Response option \<times> (ServerRouteResult \<times> rstring option) option, http_error) res" where
  "route h pg cfg stats_ep stats r = (case transport (server cfg) of
      WebSocket \<Rightarrow> res_bind (ws_upgrade h pg cfg stats_ep stats r) (\<lambda>(resp, up).
        Ok (Some resp, map_option (\<lambda>(u, ip). (upgrade_route u, ip)) up))
    | LengthDelimitedLe \<Rightarrow> Ok (None, Some (RouteWisp True, None)))"

text \<open>How \<open>listen_wisp\<close> names a client.\<close>

definition client_name :: "rstring \<Rightarrow> rstring option \<Rightarrow> rstring" where
  "client_name client_id maybe_ip = (case maybe_ip of
      Some ip \<Rightarrow> client_id @ str '' ('' @ ip @ str '')'' | None \<Rightarrow> client_id)"

section \<open>Lemmas\<close>

lemma position_eq: "position P xs = (if list_ex P xs then Some (length (takeWhile (\<lambda>x. \<not> P x) xs)) else None)"
  by (induction xs) auto

lemma trim_start_eq: "trim_start d = dropWhile is_ascii_whitespace d"
proof (cases "list_ex (\<lambda>x. \<not> is_ascii_whitespace x) d")
  case True
  then show ?thesis by (simp add: trim_start_def position_eq dropWhile_eq_drop)
next
  case False
  moreover from this have "dropWhile is_ascii_whitespace d = []" by (simp add: list_ex_iff)
  ultimately show ?thesis by (simp only: trim_start_def position_eq if_False option.case)
qed

lemma trim_end_eq: "trim_end d = rev (dropWhile is_ascii_whitespace (rev d))"
proof (cases "list_ex (\<lambda>x. \<not> is_ascii_whitespace x) (rev d)")
  case True
  let ?n = "length (takeWhile is_ascii_whitespace (rev d))"
  have "dropWhile is_ascii_whitespace (rev d) \<noteq> []" using True by (auto simp: list_ex_iff dropWhile_eq_Nil_conv)
  then have "?n < length d"
    by (metis dropWhile_eq_drop drop_eq_Nil length_rev not_le)
  then have "trim_end d = take (length d - ?n) d"
    using True by (simp add: trim_end_def rposition_def position_eq Suc_diff_Suc)
  also have "\<dots> = rev (dropWhile is_ascii_whitespace (rev d))"
    by (simp add: dropWhile_eq_drop rev_drop)
  finally show ?thesis .
next
  case False
  moreover from this have "dropWhile is_ascii_whitespace (rev d) = []" by (simp add: list_ex_iff)
  ultimately show ?thesis by (simp add: trim_end_def rposition_def position_eq)
qed

lemma trim_padded:
  assumes "\<forall>b \<in> set pre \<union> set post. is_ascii_whitespace b" "x \<noteq> []" "\<not> is_ascii_whitespace (hd x)"
    "\<not> is_ascii_whitespace (last x)"
  shows "trim (pre @ x @ post) = x"
proof -
  have "dropWhile is_ascii_whitespace (pre @ x @ post) = x @ post"
    using assms by (cases x) (simp_all add: dropWhile_append2)
  moreover have "dropWhile is_ascii_whitespace (rev (x @ post)) = rev x"
    using assms(1,2,4) by (cases x rule: rev_cases) (auto simp: dropWhile_append)
  ultimately show ?thesis by (simp only: trim_def trim_start_eq trim_end_eq rev_rev_ident)
qed

lemma str_slash: "str ''/'' = [47]"
  by (simp add: str_def)

section \<open>Escaping\<close>

text \<open>Reading an escaped string back, as an HTML parser does with these five entities.\<close>

fun html_unescape :: "nat \<Rightarrow> rstring \<Rightarrow> rstring" where
  "html_unescape 0 s = s"
| "html_unescape (Suc n) s = (case s of
      [] \<Rightarrow> []
    | c # cs \<Rightarrow>
       (if prefix (str ''&amp;'') s then 38 # html_unescape n (drop 5 s)
        else if prefix (str ''&lt;'') s then 60 # html_unescape n (drop 4 s)
        else if prefix (str ''&gt;'') s then 62 # html_unescape n (drop 4 s)
        else if prefix (str ''&quot;'') s then 34 # html_unescape n (drop 6 s)
        else if prefix (str ''&#39;'') s then 39 # html_unescape n (drop 5 s)
        else c # html_unescape n cs))"

lemma html_escape_Cons:
  "html_escape (c # v) = (if c = 38 then str ''&amp;'' else if c = 60 then str ''&lt;'' else if c = 62 then str ''&gt;''
     else if c = 34 then str ''&quot;'' else if c = 39 then str ''&#39;'' else [c]) @ html_escape v"
  by (simp add: html_escape_def)

lemma html_escape_Nil [simp]: "html_escape [] = []"
  by (simp add: html_escape_def)

lemma html_escape_chars: "set (html_escape v) \<inter> {60, 62, 34, 39} = {}"
  by (induction v) (auto simp: html_escape_Cons str_def)

lemma html_unescape_escape: "length v \<le> n \<Longrightarrow> html_unescape n (html_escape v) = v"
proof (induction v arbitrary: n)
  case Nil
  then show ?case by (cases n) auto
next
  case (Cons c v)
  then obtain m where "n = Suc m" "length v \<le> m" by (cases n) auto
  with Cons.IH show ?case by (auto simp: html_escape_Cons str_def)
qed

text \<open>
  Text that is put into the index page can neither open a tag nor end an attribute: escaping leaves no angle
  bracket and no quote, and it loses nothing, since reading the entities back gives the original.
\<close>

theorem html_escape_safe:
  "set (html_escape v) \<inter> {60, 62, 34, 39} = {} \<and> html_unescape (length v) (html_escape v) = v"
  using html_escape_chars html_unescape_escape by blast

section \<open>Routing\<close>

lemma upgrade_Ok_iff:
  "(\<exists>resp. upgrade h r = Ok resp) \<longleftrightarrow>
     (\<exists>k. header_get (req_headers r) (str ''sec-websocket-key'') = Some k)
   \<and> header_get (req_headers r) (str ''sec-websocket-version'') = Some (str ''13'')"
  by (auto simp: upgrade_def split: option.splits)

definition websocket_handshake :: "Request \<Rightarrow> bool" where
  "websocket_handshake r \<longleftrightarrow> is_upgrade_request r
   \<and> header_get (req_headers r) (str ''sec-websocket-key'') \<noteq> None
   \<and> header_get (req_headers r) (str ''sec-websocket-version'') = Some (str ''13'')"

definition expected_route :: "'l Config \<Rightarrow> Request \<Rightarrow> ServerRouteResult option" where
  "expected_route cfg r =
    (if \<not> websocket_handshake r then None
     else if ends_with (req_path r) (wisp_prefix (wisp cfg) @ str ''/'') then
       (if has_wispnet (wisp cfg) \<and> req_query r = Some (str ''net'') then Some RouteWispnet
        else Some (RouteWisp (header_get (req_headers r) (str ''sec-websocket-protocol'') \<noteq> None)))
     else if allow_wsproxy (wisp cfg) then Some (RouteWsProxy (req_path r) (req_query r = Some (str ''udp'')))
     else None)"

definition routed :: "('a \<times> ('k \<times> 'i) option, 'e) res \<Rightarrow> 'k option" where
  "routed x = (case x of Ok (_, Some (k, _)) \<Rightarrow> Some k | _ \<Rightarrow> None)"


text \<open>
  The address on the index page is one the server answers: the advertised endpoint is routed to the wisp
  handler exactly when the configured prefix obeys its documented rule and has no trailing slash.
\<close>

theorem advertised_endpoint_served:
  "ends_with (endpoint_path pfx) (pfx @ str ''/'') \<longleftrightarrow> (if pfx = [] then True else last pfx \<noteq> 47)"
proof (cases "pfx = [] \<or> last pfx \<noteq> 47")
  case True
  then have "trim_end_slashes pfx = pfx"
    by (cases pfx rule: rev_cases) (auto simp: trim_end_slashes_def)
  with True show ?thesis by (auto simp: endpoint_path_def ends_with_def suffix_def str_def)
next
  case False
  then obtain ys where pfx: "pfx = ys @ [47]" by (cases pfx rule: rev_cases) auto
  have "length (trim_end_slashes pfx) \<le> length ys"
    using length_dropWhile_le [of "\<lambda>c. c = 47" "rev ys"] by (simp add: trim_end_slashes_def pfx)
  then have len: "length (endpoint_path pfx) \<le> length ys + 2"
    by (auto simp: endpoint_path_def str_def Let_def)
  have "\<not> suffix (pfx @ str ''/'') (endpoint_path pfx)"
  proof
    assume suf: "suffix (pfx @ str ''/'') (endpoint_path pfx)"
    then have "length (pfx @ str ''/'') \<le> length (endpoint_path pfx)" by (rule suffix_length_le)
    with len have "pfx @ str ''/'' = endpoint_path pfx"
      using suf by (auto simp: pfx str_def suffix_def)
    moreover have "endpoint_path pfx \<noteq> z @ [47, 47]" for z
    proof -
      have "trim_end_slashes pfx = [] \<or> last (trim_end_slashes pfx) \<noteq> 47"
        using hd_dropWhile [of "\<lambda>c. c = 47" "rev pfx"] by (auto simp: trim_end_slashes_def last_rev)
      then show ?thesis
        by (cases "trim_end_slashes pfx" rule: rev_cases)
          (auto simp: endpoint_path_def Let_def str_def append_eq_append_conv2 Cons_eq_append_conv)
    qed
    ultimately show False by (metis pfx append.assoc append_Cons append_Nil str_slash)
  qed
  with False show ?thesis by (simp add: ends_with_def)
qed

text \<open>
  No client can take the name of another one in the table of clients: an address that a header gives is only
  appended to the address of the connection, so the names of two connections from different peers
  differ whatever their headers say.
\<close>

theorem client_names_distinct:
  assumes "32 \<notin> set a" "32 \<notin> set b" "a \<noteq> b"
  shows "client_name a x \<noteq> client_name b y"
proof -
  have "takeWhile (\<lambda>c. c \<noteq> 32) (client_name d z) = d" if "32 \<notin> set d" for d z
    using that by (auto simp: client_name_def str_def takeWhile_append split: option.splits)
  with assms show ?thesis by metis
qed

lemma untrusted_headers_ignored:
  assumes "\<not> use_real_ip_headers (server cfg)" "route h pg cfg ep stats r = Ok (resp, Some (k, ip))"
  shows "ip = None"
  using assms
  by (auto simp: route_def ws_upgrade_def Let_def res_bind_eq_Ok split: SocketTransport.splits if_splits)

theorem client_names_distinct_witness:
  "client_name (str ''10.0.0.1:80'') (Some (str ''1'')) \<noteq> client_name (str ''10.0.0.2:80'') None"
  by (rule client_names_distinct) (simp_all add: str_def)

text \<open>
  The script of the page is built from JSON literals, which escape no angle brackets: where a bridge
  is configured, a host header that contains a closing script tag appears in the page as it is.
\<close>

lemma index_script_unescaped:
  assumes "autoconfigure_target h (server cfg) = Some t" "index_resp h pg cfg r = Ok resp"
    and "json_string h (websocket_url h (wisp cfg) r) = Some ([34] @ websocket_url h (wisp cfg) r @ [34])"
  shows "sublist (websocket_url h (wisp cfg) r) (resp_body resp)"
proof -
  have inner: "sublist x (a @ b @ c @ d @ e @ x @ f)" for x a b c d e f :: rstring
    using sublist_appendI [of x "a @ b @ c @ d @ e" f] by simp
  obtain script where sc: "autoconfigure_script h (Some t) (websocket_url h (wisp cfg) r) = Ok script"
    "sublist script (resp_body resp)"
    using assms(1,2) inner by (auto simp: index_resp_def Let_def)
  moreover have "sublist (websocket_url h (wisp cfg) r) script"
  proof -
    have "sublist u (p1 @ 10 # p2 @ 10 # p3 @ x @ p4 @ 10 # p5 @ 34 # u @ p6)" for u p1 p2 p3 x p4 p5 p6 :: rstring
      using sublist_appendI [of u "p1 @ 10 # p2 @ 10 # p3 @ x @ p4 @ 10 # p5 @ [34]" p6] by simp
    with sc(1) assms(3) show ?thesis by (cases t) (auto simp: autoconfigure_script_def)
  qed
  ultimately show ?thesis using sublist_order.order_trans by blast
qed

definition demo_http :: http where
  "demo_http = \<lparr>to_str = Some, uri_parse = (\<lambda>_. None), sha1 = (\<lambda>b. b), base64_encode = (\<lambda>b. b), json_string = Some\<rparr>"

definition demo_page :: page where
  "demo_page = \<lparr>page_head = [], page_before_url = [], page_after_url = [], page_tail = []\<rparr>"

definition demo_http_request :: Request where
  "demo_http_request = \<lparr>req_path = str ''/'', req_query = None, req_headers =
     [(str ''connection'', str ''keep-alive, Upgrade''), (str ''upgrade'', str ''WebSocket''),
      (str ''sec-websocket-key'', [1]), (str ''sec-websocket-version'', str ''13'')]\<rparr>"


end
