(* ===== verification/Server_Socket.thy ===== *)
theory Server_Socket
  imports Transports
begin

text \<open>
  The sockets a server accepts, \<open>server/src/listener.rs\<close>: one type for the five kinds of stream
  (\<open>Quintet\<close>), a stream made of a reader and a writer (\<open>Duplex\<close>), and the halves a stream is split into.

  The methods of \<open>AsyncRead\<close>, \<open>AsyncBufRead\<close> and \<open>AsyncWrite\<close> are the fields of a record. Their contracts are the
  locales \<open>async_reader\<close> (the bytes still to come, taken in order) and \<open>async_writer\<close> (the bytes written so
  far); \<open>async_socket\<close> adds that reading and writing do not disturb each other. \<open>Quintet\<close> and \<open>Duplex\<close> keep them.
\<close>

section \<open>Definitions\<close>

record 's async_io =
  io_read :: "'s poll_read"
  io_fill_buf :: "'s fill_buf"
  io_consume :: "nat \<Rightarrow> 's \<Rightarrow> 's"
  io_write :: "bytes \<Rightarrow> 's \<Rightarrow> 's \<times> nat io poll"
  io_is_write_vectored :: "'s \<Rightarrow> bool"
  io_write_vectored :: "bytes list \<Rightarrow> 's \<Rightarrow> 's \<times> nat io poll"
  io_flush :: "'s \<Rightarrow> 's \<times> unit io poll"
  io_shutdown :: "'s \<Rightarrow> 's \<times> unit io poll"

datatype ('a, 'b, 'c, 'd, 'e) Quintet = One 'a | Two 'b | Three 'c | Four 'd | Five 'e

definition Quintet_poll_read ::
    "'a async_io \<Rightarrow> 'b async_io \<Rightarrow> 'c async_io \<Rightarrow> 'd async_io \<Rightarrow> 'e async_io \<Rightarrow> ('a, 'b, 'c, 'd, 'e) Quintet poll_read" where
  "Quintet_poll_read ia ib ic id' ie q n = (case q of
      One x \<Rightarrow> map_prod One id (io_read ia x n)
    | Two x \<Rightarrow> map_prod Two id (io_read ib x n)
    | Three x \<Rightarrow> map_prod Three id (io_read ic x n)
    | Four x \<Rightarrow> map_prod Four id (io_read id' x n)
    | Five x \<Rightarrow> map_prod Five id (io_read ie x n))"

definition Quintet_poll_fill_buf ::
    "'a async_io \<Rightarrow> 'b async_io \<Rightarrow> 'c async_io \<Rightarrow> 'd async_io \<Rightarrow> 'e async_io \<Rightarrow> ('a, 'b, 'c, 'd, 'e) Quintet fill_buf" where
  "Quintet_poll_fill_buf ia ib ic id' ie q = (case q of
      One x \<Rightarrow> map_prod One id (io_fill_buf ia x)
    | Two x \<Rightarrow> map_prod Two id (io_fill_buf ib x)
    | Three x \<Rightarrow> map_prod Three id (io_fill_buf ic x)
    | Four x \<Rightarrow> map_prod Four id (io_fill_buf id' x)
    | Five x \<Rightarrow> map_prod Five id (io_fill_buf ie x))"

definition Quintet_consume ::
    "'a async_io \<Rightarrow> 'b async_io \<Rightarrow> 'c async_io \<Rightarrow> 'd async_io \<Rightarrow> 'e async_io \<Rightarrow> nat
      \<Rightarrow> ('a, 'b, 'c, 'd, 'e) Quintet \<Rightarrow> ('a, 'b, 'c, 'd, 'e) Quintet" where
  "Quintet_consume ia ib ic id' ie k q = (case q of
      One x \<Rightarrow> One (io_consume ia k x)
    | Two x \<Rightarrow> Two (io_consume ib k x)
    | Three x \<Rightarrow> Three (io_consume ic k x)
    | Four x \<Rightarrow> Four (io_consume id' k x)
    | Five x \<Rightarrow> Five (io_consume ie k x))"

definition Quintet_poll_write ::
    "'a async_io \<Rightarrow> 'b async_io \<Rightarrow> 'c async_io \<Rightarrow> 'd async_io \<Rightarrow> 'e async_io \<Rightarrow> bytes
      \<Rightarrow> ('a, 'b, 'c, 'd, 'e) Quintet \<Rightarrow> ('a, 'b, 'c, 'd, 'e) Quintet \<times> nat io poll" where
  "Quintet_poll_write ia ib ic id' ie buf q = (case q of
      One x \<Rightarrow> map_prod One id (io_write ia buf x)
    | Two x \<Rightarrow> map_prod Two id (io_write ib buf x)
    | Three x \<Rightarrow> map_prod Three id (io_write ic buf x)
    | Four x \<Rightarrow> map_prod Four id (io_write id' buf x)
    | Five x \<Rightarrow> map_prod Five id (io_write ie buf x))"

definition Quintet_is_write_vectored ::
    "'a async_io \<Rightarrow> 'b async_io \<Rightarrow> 'c async_io \<Rightarrow> 'd async_io \<Rightarrow> 'e async_io \<Rightarrow> ('a, 'b, 'c, 'd, 'e) Quintet \<Rightarrow> bool" where
  "Quintet_is_write_vectored ia ib ic id' ie q = (case q of
      One x \<Rightarrow> io_is_write_vectored ia x
    | Two x \<Rightarrow> io_is_write_vectored ib x
    | Three x \<Rightarrow> io_is_write_vectored ic x
    | Four x \<Rightarrow> io_is_write_vectored id' x
    | Five x \<Rightarrow> io_is_write_vectored ie x)"

definition Quintet_poll_write_vectored ::
    "'a async_io \<Rightarrow> 'b async_io \<Rightarrow> 'c async_io \<Rightarrow> 'd async_io \<Rightarrow> 'e async_io \<Rightarrow> bytes list
      \<Rightarrow> ('a, 'b, 'c, 'd, 'e) Quintet \<Rightarrow> ('a, 'b, 'c, 'd, 'e) Quintet \<times> nat io poll" where
  "Quintet_poll_write_vectored ia ib ic id' ie bufs q = (case q of
      One x \<Rightarrow> map_prod One id (io_write_vectored ia bufs x)
    | Two x \<Rightarrow> map_prod Two id (io_write_vectored ib bufs x)
    | Three x \<Rightarrow> map_prod Three id (io_write_vectored ic bufs x)
    | Four x \<Rightarrow> map_prod Four id (io_write_vectored id' bufs x)
    | Five x \<Rightarrow> map_prod Five id (io_write_vectored ie bufs x))"

definition Quintet_poll_flush ::
    "'a async_io \<Rightarrow> 'b async_io \<Rightarrow> 'c async_io \<Rightarrow> 'd async_io \<Rightarrow> 'e async_io
      \<Rightarrow> ('a, 'b, 'c, 'd, 'e) Quintet \<Rightarrow> ('a, 'b, 'c, 'd, 'e) Quintet \<times> unit io poll" where
  "Quintet_poll_flush ia ib ic id' ie q = (case q of
      One x \<Rightarrow> map_prod One id (io_flush ia x)
    | Two x \<Rightarrow> map_prod Two id (io_flush ib x)
    | Three x \<Rightarrow> map_prod Three id (io_flush ic x)
    | Four x \<Rightarrow> map_prod Four id (io_flush id' x)
    | Five x \<Rightarrow> map_prod Five id (io_flush ie x))"

definition Quintet_poll_shutdown ::
    "'a async_io \<Rightarrow> 'b async_io \<Rightarrow> 'c async_io \<Rightarrow> 'd async_io \<Rightarrow> 'e async_io
      \<Rightarrow> ('a, 'b, 'c, 'd, 'e) Quintet \<Rightarrow> ('a, 'b, 'c, 'd, 'e) Quintet \<times> unit io poll" where
  "Quintet_poll_shutdown ia ib ic id' ie q = (case q of
      One x \<Rightarrow> map_prod One id (io_shutdown ia x)
    | Two x \<Rightarrow> map_prod Two id (io_shutdown ib x)
    | Three x \<Rightarrow> map_prod Three id (io_shutdown ic x)
    | Four x \<Rightarrow> map_prod Four id (io_shutdown id' x)
    | Five x \<Rightarrow> map_prod Five id (io_shutdown ie x))"

definition Quintet_io ::
    "'a async_io \<Rightarrow> 'b async_io \<Rightarrow> 'c async_io \<Rightarrow> 'd async_io \<Rightarrow> 'e async_io \<Rightarrow> ('a, 'b, 'c, 'd, 'e) Quintet async_io" where
  "Quintet_io ia ib ic id' ie = \<lparr>
     io_read = Quintet_poll_read ia ib ic id' ie, io_fill_buf = Quintet_poll_fill_buf ia ib ic id' ie,
     io_consume = Quintet_consume ia ib ic id' ie, io_write = Quintet_poll_write ia ib ic id' ie,
     io_is_write_vectored = Quintet_is_write_vectored ia ib ic id' ie,
     io_write_vectored = Quintet_poll_write_vectored ia ib ic id' ie,
     io_flush = Quintet_poll_flush ia ib ic id' ie, io_shutdown = Quintet_poll_shutdown ia ib ic id' ie\<rparr>"

lemmas Quintet_defs = Quintet_io_def Quintet_poll_read_def Quintet_poll_fill_buf_def Quintet_consume_def
  Quintet_poll_write_def Quintet_is_write_vectored_def Quintet_poll_write_vectored_def Quintet_poll_flush_def
  Quintet_poll_shutdown_def

text \<open>\<open>Duplex\<close> reads from its first part and writes to its second.\<close>

datatype ('a, 'b) Duplex = Duplex 'a 'b

fun Duplex_into_split :: "('a, 'b) Duplex \<Rightarrow> 'a \<times> 'b" where
  "Duplex_into_split (Duplex x y) = (x, y)"

fun Duplex_poll_read :: "'a async_io \<Rightarrow> ('a, 'b) Duplex poll_read" where
  "Duplex_poll_read ia (Duplex x y) n = map_prod (\<lambda>x. Duplex x y) id (io_read ia x n)"

fun Duplex_poll_fill_buf :: "'a async_io \<Rightarrow> ('a, 'b) Duplex fill_buf" where
  "Duplex_poll_fill_buf ia (Duplex x y) = map_prod (\<lambda>x. Duplex x y) id (io_fill_buf ia x)"

fun Duplex_consume :: "'a async_io \<Rightarrow> nat \<Rightarrow> ('a, 'b) Duplex \<Rightarrow> ('a, 'b) Duplex" where
  "Duplex_consume ia k (Duplex x y) = Duplex (io_consume ia k x) y"

fun Duplex_poll_write :: "'b async_io \<Rightarrow> bytes \<Rightarrow> ('a, 'b) Duplex \<Rightarrow> ('a, 'b) Duplex \<times> nat io poll" where
  "Duplex_poll_write ib buf (Duplex x y) = map_prod (Duplex x) id (io_write ib buf y)"

fun Duplex_is_write_vectored :: "'b async_io \<Rightarrow> ('a, 'b) Duplex \<Rightarrow> bool" where
  "Duplex_is_write_vectored ib (Duplex x y) = io_is_write_vectored ib y"

fun Duplex_poll_write_vectored :: "'b async_io \<Rightarrow> bytes list \<Rightarrow> ('a, 'b) Duplex \<Rightarrow> ('a, 'b) Duplex \<times> nat io poll" where
  "Duplex_poll_write_vectored ib bufs (Duplex x y) = map_prod (Duplex x) id (io_write_vectored ib bufs y)"

fun Duplex_poll_flush :: "'b async_io \<Rightarrow> ('a, 'b) Duplex \<Rightarrow> ('a, 'b) Duplex \<times> unit io poll" where
  "Duplex_poll_flush ib (Duplex x y) = map_prod (Duplex x) id (io_flush ib y)"

fun Duplex_poll_shutdown :: "'b async_io \<Rightarrow> ('a, 'b) Duplex \<Rightarrow> ('a, 'b) Duplex \<times> unit io poll" where
  "Duplex_poll_shutdown ib (Duplex x y) = map_prod (Duplex x) id (io_shutdown ib y)"

definition Duplex_io :: "'a async_io \<Rightarrow> 'b async_io \<Rightarrow> ('a, 'b) Duplex async_io" where
  "Duplex_io ia ib = \<lparr>
     io_read = Duplex_poll_read ia, io_fill_buf = Duplex_poll_fill_buf ia, io_consume = Duplex_consume ia,
     io_write = Duplex_poll_write ib, io_is_write_vectored = Duplex_is_write_vectored ib,
     io_write_vectored = Duplex_poll_write_vectored ib,
     io_flush = Duplex_poll_flush ib, io_shutdown = Duplex_poll_shutdown ib\<rparr>"

text \<open>The streams of a server and their halves; how the sockets of a kind are split is a parameter.\<close>

type_synonym ('tcp, 'tls_tcp, 'unix, 'tls_unix, 'file) ServerStream =
  "('tcp, 'tls_tcp, 'unix, 'tls_unix, ('file, 'file) Duplex) Quintet"

fun ServerStream_split ::
    "('a \<Rightarrow> 'ar \<times> 'aw) \<Rightarrow> ('b \<Rightarrow> 'br \<times> 'bw) \<Rightarrow> ('c \<Rightarrow> 'cr \<times> 'cw) \<Rightarrow> ('d \<Rightarrow> 'dr \<times> 'dw)
      \<Rightarrow> ('a, 'b, 'c, 'd, 'f) ServerStream \<Rightarrow> ('ar, 'br, 'cr, 'dr, 'f) Quintet \<times> ('aw, 'bw, 'cw, 'dw, 'f) Quintet" where
  "ServerStream_split sa sb sc sd (One x) = map_prod One One (sa x)"
| "ServerStream_split sa sb sc sd (Two x) = map_prod Two Two (sb x)"
| "ServerStream_split sa sb sc sd (Three x) = map_prod Three Three (sc x)"
| "ServerStream_split sa sb sc sd (Four x) = map_prod Four Four (sd x)"
| "ServerStream_split sa sb sc sd (Five x) = map_prod Five Five (Duplex_into_split x)"

section \<open>Contracts\<close>

locale async_reader = byte_reader "io_read io" rest for io :: "'s async_io" and rest :: "'s \<Rightarrow> bytes" +
  assumes fill: "io_fill_buf io s = (s', Ready (Done d)) \<Longrightarrow> rest s' = rest s \<and> prefix d (rest s) \<and> (d = [] \<longrightarrow> rest s = [])"
    and fill_waits: "io_fill_buf io s = (s', Pending) \<Longrightarrow> rest s' = rest s"
    and consumes: "io_fill_buf io s = (s', Ready (Done d)) \<Longrightarrow> k \<le> length d \<Longrightarrow> rest (io_consume io k s') = drop k (rest s)"

locale async_writer =
  fixes io :: "'s async_io" and written :: "'s \<Rightarrow> bytes"
  assumes writes: "io_write io d s = (s', Ready (Done n)) \<Longrightarrow> n \<le> length d \<and> written s' = written s @ take n d"
    and write_waits: "io_write io d s = (s', Pending) \<Longrightarrow> written s' = written s"
    and writes_vectored: "io_write_vectored io ds s = (s', Ready (Done n))
      \<Longrightarrow> n \<le> length (concat ds) \<and> written s' = written s @ take n (concat ds)"
    and vectored_waits: "io_write_vectored io ds s = (s', Pending) \<Longrightarrow> written s' = written s"
    and flush_keeps: "io_flush io s = (s', f) \<Longrightarrow> written s' = written s"
    and shutdown_keeps: "io_shutdown io s = (s', f) \<Longrightarrow> written s' = written s"

text \<open>Reading and writing do not disturb each other.\<close>

locale async_socket = async_reader io rest + async_writer io written
  for io :: "'s async_io" and rest :: "'s \<Rightarrow> bytes" and written :: "'s \<Rightarrow> bytes" +
  assumes read_keeps: "io_read io s n = (s', r) \<Longrightarrow> written s' = written s"
    and fill_keeps: "io_fill_buf io s = (s', r) \<Longrightarrow> written s' = written s"
    and consume_keeps: "written (io_consume io k s) = written s"
    and write_keeps: "io_write io d s = (s', w) \<Longrightarrow> rest s' = rest s"
    and vectored_keeps: "io_write_vectored io ds s = (s', w) \<Longrightarrow> rest s' = rest s"
    and flush_rest: "io_flush io s = (s', f) \<Longrightarrow> rest s' = rest s"
    and shutdown_rest: "io_shutdown io s = (s', f) \<Longrightarrow> rest s' = rest s"

text \<open>Operations on a socket: reads, \<open>fill_buf\<close> followed by \<open>consume\<close> of at most \<open>k\<close> bytes of what it showed, and writes.\<close>

datatype io_op = OpRead nat | OpFill nat | OpWrite bytes | OpWriteVectored "bytes list" | OpFlush | OpShutdown

fun op_ok :: "io_op \<Rightarrow> bool" where
  "op_ok (OpRead n) \<longleftrightarrow> 0 < n"
| "op_ok opn \<longleftrightarrow> True"

text \<open>The socket after an operation, what it read and what it accepted; \<open>None\<close> when it failed.\<close>

fun read_result :: "bytes io poll \<Rightarrow> bytes option" where
  "read_result (Ready (Done d)) = Some d"
| "read_result (Ready (Failed m)) = None"
| "read_result Pending = Some []"

fun write_result :: "bytes \<Rightarrow> nat io poll \<Rightarrow> bytes option" where
  "write_result d (Ready (Done n)) = Some (take n d)"
| "write_result d (Ready (Failed m)) = None"
| "write_result d Pending = Some []"

definition io_exec :: "'s async_io \<Rightarrow> io_op \<Rightarrow> 's \<Rightarrow> ('s \<times> bytes \<times> bytes) option" where
  "io_exec io opn s = (case opn of
      OpRead n \<Rightarrow> (case io_read io s n of (s', r) \<Rightarrow> map_option (\<lambda>d. (s', d, [])) (read_result r))
    | OpFill k \<Rightarrow> (case io_fill_buf io s of
          (s', Ready (Done d)) \<Rightarrow> Some (io_consume io (min k (length d)) s', take k d, [])
        | (s', Ready (Failed m)) \<Rightarrow> None
        | (s', Pending) \<Rightarrow> Some (s', [], []))
    | OpWrite d \<Rightarrow> (case io_write io d s of (s', r) \<Rightarrow> map_option (\<lambda>w. (s', [], w)) (write_result d r))
    | OpWriteVectored ds \<Rightarrow>
        (case io_write_vectored io ds s of (s', r) \<Rightarrow> map_option (\<lambda>w. (s', [], w)) (write_result (concat ds) r))
    | OpFlush \<Rightarrow> (case io_flush io s of (s', r) \<Rightarrow> Some (s', [], []))
    | OpShutdown \<Rightarrow> (case io_shutdown io s of (s', r) \<Rightarrow> Some (s', [], [])))"

fun io_run :: "'s async_io \<Rightarrow> io_op list \<Rightarrow> 's \<Rightarrow> 's \<times> bytes \<times> bytes" where
  "io_run io [] s = (s, [], [])"
| "io_run io (opn # ops) s = (case io_exec io opn s of
      None \<Rightarrow> (s, [], [])
    | Some (s', d, w) \<Rightarrow> (case io_run io ops s' of (s'', ds, ws) \<Rightarrow> (s'', d @ ds, w @ ws)))"

context async_socket begin

lemmas laws = gives at_end waits fill fill_waits consumes writes write_waits writes_vectored vectored_waits
  flush_keeps shutdown_keeps read_keeps fill_keeps write_keeps vectored_keeps flush_rest shutdown_rest

lemma exec_exact:
  assumes "op_ok opn" "io_exec io opn s = Some (s', d, w)"
  shows "rest s = d @ rest s' \<and> written s' = written s @ w"
proof (cases opn)
  case (OpRead n)
  with assms obtain r where r: "io_read io s n = (s', r)" "read_result r = Some d" "w = []" "0 < n"
    by (auto simp: io_exec_def split: prod.splits)
  with gives [of n s s' d] waits [of n s s'] read_keeps [of s n s' r] show ?thesis
    by (cases r rule: read_result.cases) auto
next
  case (OpFill k)
  obtain s1 r where f: "io_fill_buf io s = (s1, r)" by force
  show ?thesis
  proof (cases r rule: read_result.cases)
    case (1 x)
    with fill [of s s1 x] consumes [of s s1 x "min k (length x)"] fill_keeps [OF f] consume_keeps f assms OpFill
    show ?thesis by (auto simp: io_exec_def prefix_def min_def)
  qed (use fill_waits [of s s1] fill_keeps [OF f] f assms OpFill in \<open>auto simp: io_exec_def\<close>)
next
  case (OpWrite x)
  with assms obtain r where r: "io_write io x s = (s', r)" "write_result x r = Some w" "d = []"
    by (auto simp: io_exec_def split: prod.splits)
  with writes [of x s s'] write_waits [of x s s'] write_keeps [OF r(1)] show ?thesis
    by (cases "(x, r)" rule: write_result.cases) auto
next
  case (OpWriteVectored xs)
  with assms obtain r where r: "io_write_vectored io xs s = (s', r)" "write_result (concat xs) r = Some w" "d = []"
    by (auto simp: io_exec_def split: prod.splits)
  with writes_vectored [of xs s s'] vectored_waits [of xs s s'] vectored_keeps [OF r(1)] show ?thesis
    by (cases "(concat xs, r)" rule: write_result.cases) auto
qed (use assms flush_keeps [of s s'] flush_rest [of s s'] shutdown_keeps [of s s'] shutdown_rest [of s s']
      in \<open>auto simp: io_exec_def split: prod.splits\<close>)

lemma run_exact:
  "\<forall>opn \<in> set ops. op_ok opn \<Longrightarrow> io_run io ops s = (s', ds, ws)
    \<Longrightarrow> rest s = ds @ rest s' \<and> written s' = written s @ ws"
proof (induction ops arbitrary: s s' ds ws)
  case (Cons opn ops)
  then show ?case
    using exec_exact [of opn s] by (cases "io_exec io opn s") (fastforce split: prod.splits)+
qed simp

end

section \<open>Streams of five kinds, and of two parts\<close>

definition Quintet_get :: "('a \<Rightarrow> 'x) \<Rightarrow> ('b \<Rightarrow> 'x) \<Rightarrow> ('c \<Rightarrow> 'x) \<Rightarrow> ('d \<Rightarrow> 'x) \<Rightarrow> ('e \<Rightarrow> 'x) \<Rightarrow> ('a, 'b, 'c, 'd, 'e) Quintet \<Rightarrow> 'x" where
  "Quintet_get fa fb fc fd fe q = (case q of One x \<Rightarrow> fa x | Two x \<Rightarrow> fb x | Three x \<Rightarrow> fc x | Four x \<Rightarrow> fd x | Five x \<Rightarrow> fe x)"

locale five_sockets =
  a: async_socket ia ra wa + b: async_socket ib rb wb + c: async_socket ic rc wc
    + d: async_socket id' rd wd + e: async_socket ie re we
  for ia :: "'a async_io" and ra wa and ib :: "'b async_io" and rb wb and ic :: "'c async_io" and rc wc
    and id' :: "'d async_io" and rd wd and ie :: "'e async_io" and re we

sublocale five_sockets \<subseteq> quintet: async_socket "Quintet_io ia ib ic id' ie" "Quintet_get ra rb rc rd re" "Quintet_get wa wb wc wd we"
  by unfold_locales (auto simp: Quintet_defs Quintet_get_def map_prod_def split: Quintet.splits prod.splits
      dest: a.laws b.laws c.laws d.laws e.laws simp: a.consume_keeps b.consume_keeps c.consume_keeps d.consume_keeps e.consume_keeps)

context five_sockets begin

lemma is_socket: "async_socket (Quintet_io ia ib ic id' ie) (Quintet_get ra rb rc rd re) (Quintet_get wa wb wc wd we)" ..

end

text \<open>A reader and a writer make a socket.\<close>

fun Duplex_rest :: "('a \<Rightarrow> bytes) \<Rightarrow> ('a, 'b) Duplex \<Rightarrow> bytes" where
  "Duplex_rest ra (Duplex x y) = ra x"

fun Duplex_written :: "('b \<Rightarrow> bytes) \<Rightarrow> ('a, 'b) Duplex \<Rightarrow> bytes" where
  "Duplex_written wb (Duplex x y) = wb y"

locale two_parts = a: async_reader ia ra + b: async_writer ib wb
  for ia :: "'a async_io" and ra and ib :: "'b async_io" and wb

sublocale two_parts \<subseteq> duplex: async_socket "Duplex_io ia ib" "Duplex_rest ra" "Duplex_written wb"
  by (unfold_locales; (case_tac s)?; auto simp: Duplex_io_def map_prod_def split: prod.splits
      dest: a.gives a.at_end a.waits a.fill a.fill_waits a.consumes b.writes b.write_waits b.writes_vectored b.vectored_waits
        b.flush_keeps b.shutdown_keeps)

context two_parts begin

lemma is_socket: "async_socket (Duplex_io ia ib) (Duplex_rest ra) (Duplex_written wb)" ..

end

section \<open>A scripted socket\<close>

text \<open>
  It receives chunks, an empty one for a poll that finds nothing yet, and accepts at each write as much as its
  script says, nothing yet for 0, everything at the end of the script.
\<close>

record script =
  incoming :: "bytes list"
  outgoing :: bytes
  room :: "nat list"

fun script_consume :: "nat \<Rightarrow> bytes list \<Rightarrow> bytes list" where
  "script_consume k [] = []"
| "script_consume k (c # cs) = (if k < length c then drop k c # cs else cs)"

definition script_fill :: "script fill_buf" where
  "script_fill s = (case incoming s of
      [] \<Rightarrow> (s, Ready (Done []))
    | c # cs \<Rightarrow> if c = [] then (s\<lparr>incoming := cs\<rparr>, Pending) else (s, Ready (Done c)))"

definition script_write :: "bytes \<Rightarrow> script \<Rightarrow> script \<times> nat io poll" where
  "script_write d s = (case room s of
      [] \<Rightarrow> (s\<lparr>outgoing := outgoing s @ d\<rparr>, Ready (Done (length d)))
    | k # ks \<Rightarrow> if k = 0 then (s\<lparr>room := ks\<rparr>, Pending)
        else (s\<lparr>outgoing := outgoing s @ take k d, room := ks\<rparr>, Ready (Done (min k (length d)))))"

definition script_io :: "script async_io" where
  "script_io = \<lparr>
     io_read = \<lambda>s n. (case chunks_read (incoming s) n of (cs, r) \<Rightarrow> (s\<lparr>incoming := cs\<rparr>, r)),
     io_fill_buf = script_fill, io_consume = \<lambda>k s. s\<lparr>incoming := script_consume k (incoming s)\<rparr>,
     io_write = script_write, io_is_write_vectored = \<lambda>s. True, io_write_vectored = \<lambda>ds. script_write (concat ds),
     io_flush = \<lambda>s. (s, Ready (Done ())), io_shutdown = \<lambda>s. (s, Ready (Done ()))\<rparr>"

lemma script_fill_Done:
  "script_fill s = (s', Ready (Done d)) \<Longrightarrow> s' = s \<and> (case incoming s of [] \<Rightarrow> d = [] | c # cs \<Rightarrow> d = c \<and> c \<noteq> [])"
  by (auto simp: script_fill_def split: list.splits if_splits)

interpretation script: async_socket script_io "\<lambda>s. concat (incoming s)" outgoing
proof (unfold_locales, goal_cases)
  case (6 s s' d k)
  then show ?case using script_fill_Done [of s s' d] by (auto simp: script_io_def split: list.splits)
qed (auto simp: script_io_def script_fill_def script_write_def min_def split: prod.splits list.splits if_splits
    dest: chunks.gives chunks.at_end chunks.waits)

interpretation script_file: two_parts script_io "\<lambda>s. concat (incoming s)" script_io outgoing ..

interpretation script_stream: five_sockets
  script_io "\<lambda>s. concat (incoming s)" outgoing script_io "\<lambda>s. concat (incoming s)" outgoing
  script_io "\<lambda>s. concat (incoming s)" outgoing script_io "\<lambda>s. concat (incoming s)" outgoing
  "Duplex_io script_io script_io" "Duplex_rest (\<lambda>s. concat (incoming s))" "Duplex_written outgoing" ..

section \<open>Every accepted stream is a socket\<close>

text \<open>
  C30. Whatever kind of socket a client came in by, reading and writing through the common type neither loses, repeats nor
  reorders a byte, and reads and writes do not disturb each other: if the TCP, TLS and Unix sockets
  keep the contract of a socket and files those of a reader and of a writer, then what any sequence of reads,
  buffered reads, writes and vectored writes reads is the beginning of what the stream had to give, the
  rest is still there, and exactly what the writes accepted was added to what was written.
\<close>

theorem server_stream_exact:
  assumes "async_socket tcp rt wt" "async_socket tls rs ws" "async_socket unx ru wu" "async_socket tlsu rv wv"
    and "async_reader file fr" "async_writer file fw"
    and "\<forall>opn \<in> set ops. op_ok opn"
    and "io_run (Quintet_io tcp tls unx tlsu (Duplex_io file file)) ops q = (q', received, accepted)"
  shows "Quintet_get rt rs ru rv (Duplex_rest fr) q = received @ Quintet_get rt rs ru rv (Duplex_rest fr) q'
    \<and> Quintet_get wt ws wu wv (Duplex_written fw) q' = Quintet_get wt ws wu wv (Duplex_written fw) q @ accepted"
proof -
  have "async_socket (Duplex_io file file) (Duplex_rest fr) (Duplex_written fw)"
    using assms(5,6) by (intro two_parts.is_socket two_parts.intro)
  with assms(1-4) have "five_sockets tcp rt wt tls rs ws unx ru wu tlsu rv wv (Duplex_io file file) (Duplex_rest fr) (Duplex_written fw)"
    by (intro five_sockets.intro)
  from async_socket.run_exact [OF five_sockets.is_socket [OF this] assms(7,8)] show ?thesis .
qed


theorem server_stream_exact_witness:
  "\<exists>q'. io_run (Quintet_io script_io script_io script_io script_io (Duplex_io script_io script_io))
       [OpRead 2, OpWrite [7, 8], OpFill 1, OpWriteVectored [[9], [6]], OpRead 9]
       (Two \<lparr>incoming = [[1, 2, 3], [4]], outgoing = [], room = [1]\<rparr>) = (q', [1, 2, 3, 4], [7, 9, 6])
     \<and> Quintet_get (\<lambda>s. concat (incoming s)) (\<lambda>s. concat (incoming s)) (\<lambda>s. concat (incoming s)) (\<lambda>s. concat (incoming s))
         (Duplex_rest (\<lambda>s. concat (incoming s))) q' = []"
proof -
  let ?io = "Quintet_io script_io script_io script_io script_io (Duplex_io script_io script_io)"
  let ?q = "Two \<lparr>incoming = [[1, 2, 3], [4]], outgoing = [], room = [1]\<rparr>"
  have run: "io_run ?io [OpRead 2, OpWrite [7, 8], OpFill 1, OpWriteVectored [[9], [6]], OpRead 9] ?q
      = (Two \<lparr>incoming = [], outgoing = [7, 9, 6], room = []\<rparr>, [1, 2, 3, 4], [7, 9, 6])"
    by (simp add: io_exec_def Quintet_defs script_io_def script_write_def script_fill_def)
  from server_stream_exact [OF script.async_socket_axioms script.async_socket_axioms script.async_socket_axioms
      script.async_socket_axioms script.async_reader_axioms script.async_writer_axioms _ run]
  show ?thesis using run by (simp add: Quintet_get_def)
qed

end
