(* ===== verification/Server_Listener.thy ===== *)
theory Server_Listener
  imports Server_Socket Server_Config
begin

text \<open>
  Listening for clients, \<open>server/src/listener.rs\<close> and the loops of \<open>server/src/main.rs\<close>: binding, accepting, what
  is started for a configuration, and the accept loop.

  Parameters: the network (binding, listening, parsing of socket addresses), opening of files and terminal modes,
  the TLS library and the clients that arrive. Sockets in the file system are part of the state: binding one
  checks for a file at its path, removes it and creates the socket, and the threads of the server do so
  concurrently.
\<close>

section \<open>Binding\<close>

datatype listen_error =
    NoV4Socket | FailedReuseport | BadSocketAddr | FailedTcpBind rstring | FailedListen
  | FailedExists | FailedRemove | FailedUnixBind rstring
  | NoTlsKeypair | FailedReadPublic | FailedParsePublic | FailedReadPrivate | FailedParsePrivate | NoPrivateKey | FailedTlsConfig
  | FailedAccept | FailedNodelay | FailedTlsAccept
  | FailedOpenRead | FailedGetTermios | FailedSetTermios | FailedOpenWrite

record 'addr tcp_net =
  new_v4 :: bool
  set_reuseport :: bool
  parse_socket_addr :: "rstring \<Rightarrow> 'addr option"
  socket_bind :: "'addr \<Rightarrow> bool"
  socket_listen :: bool
  tcp_listener_bind :: "rstring \<Rightarrow> bool"

text \<open>On one thread per core every thread binds a socket of its own, which must be IPv4.\<close>

definition bind_tcp :: "'addr tcp_net \<Rightarrow> RuntimeFlavor \<Rightarrow> rstring \<Rightarrow> (unit, listen_error) res" where
  "bind_tcp net rt addr =
    (if is_thread_per_core rt then
       if \<not> new_v4 net then Err NoV4Socket
       else if \<not> set_reuseport net then Err FailedReuseport
       else (case parse_socket_addr net addr of
           None \<Rightarrow> Err BadSocketAddr
         | Some a \<Rightarrow> if \<not> socket_bind net a then Err (FailedTcpBind addr)
             else if socket_listen net then Ok () else Err FailedListen)
     else if tcp_listener_bind net addr then Ok () else Err (FailedTcpBind addr))"

text \<open>
  A Unix socket is bound in three steps on the file at its path. The first argument says whether the operating
  system allows the step; \<open>i\<close> is the thread.
\<close>

datatype path_entry = OtherFile | SocketOf nat

datatype bind_pc = CheckExists | RemoveFile | BindSocket | Listening | BindFailed listen_error

fun bind_unix_step :: "bool \<Rightarrow> rstring \<Rightarrow> nat \<Rightarrow> bind_pc \<Rightarrow> path_entry option \<Rightarrow> bind_pc \<times> path_entry option" where
  "bind_unix_step ok path i CheckExists f =
    (if \<not> ok then BindFailed FailedExists else if f = None then BindSocket else RemoveFile, f)"
| "bind_unix_step ok path i RemoveFile f =
    (if \<not> ok \<or> f = None then (BindFailed FailedRemove, f) else (BindSocket, None))"
| "bind_unix_step ok path i BindSocket f =
    (if \<not> ok \<or> f \<noteq> None then (BindFailed (FailedUnixBind path), f) else (Listening, Some (SocketOf i)))"
| "bind_unix_step ok path i p f = (p, f)"

text \<open>One thread that is not disturbed.\<close>

definition bind_unix ::
    "bool \<times> bool \<times> bool \<Rightarrow> rstring \<Rightarrow> nat \<Rightarrow> path_entry option \<Rightarrow> (unit, listen_error) res \<times> path_entry option" where
  "bind_unix oks path i f = (case oks of (ok1, ok2, ok3) \<Rightarrow>
     let (p1, f1) = bind_unix_step ok1 path i CheckExists f;
         (p2, f2) = (if p1 = RemoveFile then bind_unix_step ok2 path i RemoveFile f1 else (p1, f1));
         (p3, f3) = (if p2 = BindSocket then bind_unix_step ok3 path i BindSocket f2 else (p2, f2))
     in (case p3 of BindFailed e \<Rightarrow> Err e | _ \<Rightarrow> Ok (), f3))"

text \<open>\<open>create_tls\<close>; the key files, their PEM contents and the server settings made from both.\<close>

record ('cert, 'key, 'acceptor) tls_files =
  tf_read :: "rstring \<Rightarrow> bytes option"
  tf_certs :: "bytes \<Rightarrow> 'cert option list"
  tf_private_key :: "bytes \<Rightarrow> 'key option option"
  tf_single_cert :: "'cert list \<Rightarrow> 'key \<Rightarrow> 'acceptor option"

fun collect_certs :: "'cert option list \<Rightarrow> 'cert list option" where
  "collect_certs [] = Some []"
| "collect_certs (None # cs) = None"
| "collect_certs (Some c # cs) = map_option ((#) c) (collect_certs cs)"

definition create_tls :: "('cert, 'key, 'acceptor) tls_files \<Rightarrow> (rstring \<times> rstring) option \<Rightarrow> ('acceptor, listen_error) res" where
  "create_tls tf keypair = (case keypair of
      None \<Rightarrow> Err NoTlsKeypair
    | Some (public_path, private_path) \<Rightarrow>
        res_bind (ok_or (tf_read tf public_path) FailedReadPublic) (\<lambda>pb.
        res_bind (ok_or (collect_certs (tf_certs tf pb)) FailedParsePublic) (\<lambda>public.
        res_bind (ok_or (tf_read tf private_path) FailedReadPrivate) (\<lambda>sb.
        res_bind (ok_or (tf_private_key tf sb) FailedParsePrivate) (\<lambda>k.
        res_bind (ok_or k NoPrivateKey) (\<lambda>sk.
        ok_or (tf_single_cert tf public sk) FailedTlsConfig))))))"

datatype 'acceptor ServerListener =
  ListenTcp | ListenTlsTcp 'acceptor | ListenUnix | ListenTlsUnix 'acceptor | ListenFile "rstring option"

record ('addr, 'cert, 'key, 'acceptor) listen_env =
  le_net :: "'addr tcp_net"
  le_unix :: "bool \<times> bool \<times> bool"
  le_tls :: "('cert, 'key, 'acceptor) tls_files"

definition ServerListener_new ::
    "('addr, 'cert, 'key, 'acceptor) listen_env \<Rightarrow> 'l ServerConfig \<Rightarrow> BindAddr \<Rightarrow> nat \<Rightarrow> path_entry option
      \<Rightarrow> ('acceptor ServerListener, listen_error) res \<times> path_entry option" where
  "ServerListener_new e cfg addr i f =
    (let tcp = bind_tcp (le_net e) (runtime cfg) (snd addr); unx = bind_unix (le_unix e) (snd addr) i f;
         tls = create_tls (le_tls e) (tls_keypair cfg)
     in case fst addr of
       Tcp_socket \<Rightarrow> (res_bind tcp (\<lambda>_. Ok ListenTcp), f)
     | TlsTcp \<Rightarrow> (res_bind tcp (\<lambda>_. res_bind tls (\<lambda>a. Ok (ListenTlsTcp a))), f)
     | Unix \<Rightarrow> (res_bind (fst unx) (\<lambda>_. Ok ListenUnix), snd unx)
     | TlsUnix \<Rightarrow> (res_bind (fst unx) (\<lambda>_. res_bind tls (\<lambda>a. Ok (ListenTlsUnix a))), snd unx)
     | File \<Rightarrow> (Ok (ListenFile (Some (snd addr))), f))"

section \<open>Accepting\<close>

text \<open>
  What arrives at a listening socket, in order. \<open>a_addr\<close> is the address of a TCP client, \<open>a_path\<close> the path of the
  socket of a Unix client when it has one in UTF-8, \<open>a_uuid\<close> the identifier drawn for it otherwise.
\<close>

record 'c arrival =
  a_stream :: 'c
  a_addr :: rstring
  a_path :: "rstring option"
  a_uuid :: rstring
  a_nodelay :: bool

type_synonym 'c arrivals = "'c arrival option list"

text \<open>A handshake may wait for a client for ever.\<close>

datatype 't tls_outcome = TlsDone 't | TlsError | TlsStalled

text \<open>
  \<open>accept\<close> gives the rest of the arrivals and its result, or \<open>None\<close> when it waits for ever: nothing arrives any more
  or the handshake stalls.
\<close>

definition accept_tcp :: "bool \<Rightarrow> 'c arrivals \<Rightarrow> ('c arrivals \<times> ('c \<times> rstring, listen_error) res) option" where
  "accept_tcp nodelay as = (case as of
      [] \<Rightarrow> None
    | None # as' \<Rightarrow> Some (as', Err FailedAccept)
    | Some a # as' \<Rightarrow> Some (as', if nodelay \<and> \<not> a_nodelay a then Err FailedNodelay else Ok (a_stream a, a_addr a)))"

definition accept_unix :: "'c arrivals \<Rightarrow> ('c arrivals \<times> ('c \<times> rstring, listen_error) res) option" where
  "accept_unix as = (case as of
      [] \<Rightarrow> None
    | None # as' \<Rightarrow> Some (as', Err FailedAccept)
    | Some a # as' \<Rightarrow> Some (as', Ok (a_stream a, case a_path a of Some p \<Rightarrow> p | None \<Rightarrow> a_uuid a @ str ''-unix_socket'')))"

definition accept_tls ::
    "('acceptor \<Rightarrow> 'c \<Rightarrow> 't tls_outcome) \<Rightarrow> 'acceptor \<Rightarrow> ('c arrivals \<times> ('c \<times> rstring, listen_error) res) option
      \<Rightarrow> ('c arrivals \<times> ('t \<times> rstring, listen_error) res) option" where
  "accept_tls handshake acceptor r = (case r of
      None \<Rightarrow> None
    | Some (as, Ok (x, y)) \<Rightarrow> (case handshake acceptor x of
          TlsDone t \<Rightarrow> Some (as, Ok (t, y)) | TlsError \<Rightarrow> Some (as, Err FailedTlsAccept) | TlsStalled \<Rightarrow> None)
    | Some (as, Err e) \<Rightarrow> Some (as, Err e)
    | Some (as, Panic) \<Rightarrow> Some (as, Panic))"

text \<open>
  A file is opened twice, for reading and for writing; in raw mode each descriptor is switched. It is accepted
  once, whether or not that succeeds.
\<close>

record 'f file_env =
  fe_open_read :: "rstring \<Rightarrow> 'f option"
  fe_open_write :: "rstring \<Rightarrow> 'f option"
  fe_tcgetattr :: "'f \<Rightarrow> bool"
  fe_set_raw :: "'f \<Rightarrow> 'f option"

definition set_raw_mode :: "'f file_env \<Rightarrow> bool \<Rightarrow> 'f \<Rightarrow> ('f, listen_error) res" where
  "set_raw_mode fe raw f =
    (if \<not> raw then Ok f
     else if \<not> fe_tcgetattr fe f then Err FailedGetTermios
     else ok_or (fe_set_raw fe f) FailedSetTermios)"

definition open_file :: "'f file_env \<Rightarrow> bool \<Rightarrow> rstring \<Rightarrow> (('f, 'f) Duplex \<times> rstring, listen_error) res" where
  "open_file fe raw path =
    res_bind (ok_or (fe_open_read fe path) FailedOpenRead) (\<lambda>rx.
    res_bind (set_raw_mode fe raw rx) (\<lambda>rx.
    res_bind (ok_or (fe_open_write fe path) FailedOpenWrite) (\<lambda>tx.
    res_bind (set_raw_mode fe raw tx) (\<lambda>tx. Ok (Duplex rx tx, path)))))"

record ('tcp, 'unx, 'tls_tcp, 'tls_unx, 'file, 'acceptor) accept_env =
  ae_tls_tcp :: "'acceptor \<Rightarrow> 'tcp \<Rightarrow> 'tls_tcp tls_outcome"
  ae_tls_unix :: "'acceptor \<Rightarrow> 'unx \<Rightarrow> 'tls_unx tls_outcome"
  ae_files :: "'file file_env"

text \<open>What arrives at the socket of the listener, TCP or Unix.\<close>

type_synonym ('tcp, 'unx) arriving = "'tcp arrivals \<times> 'unx arrivals"

fun with_stream :: "('x \<Rightarrow> 's) \<Rightarrow> ('x \<times> rstring, listen_error) res \<Rightarrow> ('s \<times> rstring, listen_error) res" where
  "with_stream wrap (Ok (x, y)) = Ok (wrap x, y)"
| "with_stream wrap (Err e) = Err e"
| "with_stream wrap Panic = Panic"

definition ServerListener_accept ::
    "('tcp, 'unx, 'tls_tcp, 'tls_unx, 'file, 'acceptor) accept_env \<Rightarrow> 'l ServerConfig
      \<Rightarrow> 'acceptor ServerListener \<Rightarrow> ('tcp, 'unx) arriving
      \<Rightarrow> ('acceptor ServerListener \<times> ('tcp, 'unx) arriving
          \<times> (('tcp, 'tls_tcp, 'unx, 'tls_unx, 'file) ServerStream \<times> rstring, listen_error) res) option" where
  "ServerListener_accept e cfg l w =
    (let tcp = accept_tcp (server_tcp_nodelay cfg) (fst w); unx = accept_unix (snd w) in case l of
      ListenTcp \<Rightarrow> map_option (\<lambda>(as, r). (l, (as, snd w), with_stream One r)) tcp
    | ListenTlsTcp a \<Rightarrow> map_option (\<lambda>(as, r). (l, (as, snd w), with_stream Two r)) (accept_tls (ae_tls_tcp e) a tcp)
    | ListenUnix \<Rightarrow> map_option (\<lambda>(as, r). (l, (fst w, as), with_stream Three r)) unx
    | ListenTlsUnix a \<Rightarrow> map_option (\<lambda>(as, r). (l, (fst w, as), with_stream Four r)) (accept_tls (ae_tls_unix e) a unx)
    | ListenFile (Some path) \<Rightarrow> Some (ListenFile None, w, with_stream Five (open_file (ae_files e) (file_raw_mode cfg) path))
    | ListenFile None \<Rightarrow> None)"

text \<open>
  The accept loop of \<open>listen_wisp\<close> and \<open>listen_stats\<close>: an error is logged and the loop goes on. The result lists
  the clients a task was started for in the first \<open>n\<close> rounds.
\<close>

fun listen_loop ::
    "('tcp, 'unx, 'tls_tcp, 'tls_unx, 'file, 'acceptor) accept_env \<Rightarrow> 'l ServerConfig \<Rightarrow> nat
      \<Rightarrow> 'acceptor ServerListener \<Rightarrow> ('tcp, 'unx) arriving
      \<Rightarrow> (('tcp, 'tls_tcp, 'unx, 'tls_unx, 'file) ServerStream \<times> rstring) list" where
  "listen_loop e cfg 0 l w = []"
| "listen_loop e cfg (Suc n) l w = (case ServerListener_accept e cfg l w of
      None \<Rightarrow> []
    | Some (l', w', Ok client) \<Rightarrow> client # listen_loop e cfg n l' w'
    | Some (l', w', Err _) \<Rightarrow> listen_loop e cfg n l' w'
    | Some (l', w', Panic) \<Rightarrow> [])"

text \<open>\<open>listen_stats\<close>, and \<open>listen_wisp\<close> for the thread \<open>i\<close>.\<close>

definition listen_stats ::
    "('addr, 'cert, 'key, 'acceptor) listen_env \<Rightarrow> ('tcp, 'unx, 'tls_tcp, 'tls_unx, 'file, 'acceptor) accept_env
      \<Rightarrow> 'l ServerConfig \<Rightarrow> BindAddr \<Rightarrow> nat \<Rightarrow> path_entry option \<Rightarrow> nat \<Rightarrow> ('tcp, 'unx) arriving
      \<Rightarrow> ((('tcp, 'tls_tcp, 'unx, 'tls_unx, 'file) ServerStream \<times> rstring) list, listen_error) res" where
  "listen_stats le e cfg addr i f n w =
    res_bind (fst (ServerListener_new le cfg addr i f)) (\<lambda>l. Ok (listen_loop e cfg n l w))"

definition listen_wisp ::
    "('addr, 'cert, 'key, 'acceptor) listen_env \<Rightarrow> ('tcp, 'unx, 'tls_tcp, 'tls_unx, 'file, 'acceptor) accept_env
      \<Rightarrow> 'l ServerConfig \<Rightarrow> nat \<Rightarrow> path_entry option \<Rightarrow> nat \<Rightarrow> ('tcp, 'unx) arriving
      \<Rightarrow> ((('tcp, 'tls_tcp, 'unx, 'tls_unx, 'file) ServerStream \<times> rstring) list, listen_error) res" where
  "listen_wisp le e cfg i f n w =
    res_bind (fst (ServerListener_new le cfg (bind cfg) i f)) (\<lambda>l. Ok (listen_loop e cfg n l w))"

section \<open>What is started\<close>

text \<open>
  The tasks of \<open>async_main\<close> and \<open>threadpercore_main\<close>: a thread of its own for each core but one, and the
  first listener to end gives the result of the program. The results of the statistics tasks are not looked at.
\<close>

datatype server_task = ListenStatsCli | ListenStats BindAddr | ListenWisp nat

definition stats_tasks :: "'l ServerConfig \<Rightarrow> server_task list" where
  "stats_tasks cfg = ListenStatsCli # (case Option.bind (stats_endpoint cfg) get_bindaddr of
      None \<Rightarrow> [] | Some b \<Rightarrow> [ListenStats b])"

definition async_main :: "'l ServerConfig \<Rightarrow> server_task list" where
  "async_main cfg = stats_tasks cfg @ [ListenWisp 0]"

definition threadpercore_main :: "'l ServerConfig \<Rightarrow> nat \<Rightarrow> server_task list" where
  "threadpercore_main cfg cores = map ListenWisp [1..<cores] @ stats_tasks cfg @ [ListenWisp 0]"

definition main_tasks :: "bool \<Rightarrow> 'l ServerConfig \<Rightarrow> nat \<Rightarrow> server_task list" where
  "main_tasks default_config cfg cores =
    (if default_config then []
     else if is_thread_per_core (runtime cfg) then threadpercore_main cfg cores else async_main cfg)"

text \<open>\<open>ends\<close> lists the tasks that ended with what they returned, in that order.\<close>

fun main_result :: "(server_task \<times> (unit, listen_error) res) list \<Rightarrow> (unit, listen_error) res option" where
  "main_result [] = None"
| "main_result ((ListenWisp i, r) # ends) = Some r"
| "main_result ((_, r) # ends) = main_result ends"

text \<open>The configuration: the file named on the command line, or the defaults, with the environment over it.\<close>

definition load_config ::
    "(rstring \<Rightarrow> rstring option) \<Rightarrow> (rstring \<Rightarrow> 'l Config option) \<Rightarrow> 'l Config \<Rightarrow> rstring option \<Rightarrow> 'l EnvironmentConfig
      \<Rightarrow> ('l Config, listen_error) res" where
  "load_config read_file de dflt config_path environment =
    res_bind (case config_path of
        None \<Rightarrow> Ok dflt
      | Some path \<Rightarrow> (case Option.bind (read_file path) de of None \<Rightarrow> Panic | Some c \<Rightarrow> Ok c))
      (\<lambda>c. Ok (apply_to environment c))"

section \<open>Name resolution\<close>

text \<open>\<open>'h\<close> is a resolver of \<open>hickory\<close> with its settings.\<close>

datatype 'h Resolver = Hickory 'h | System

definition select_resolver :: "'h option \<Rightarrow> (IpAddr list \<Rightarrow> 'h) \<Rightarrow> IpAddr list \<Rightarrow> 'h Resolver" where
  "select_resolver system_conf from_servers servers =
    (if servers = [] then (case system_conf of Some h \<Rightarrow> Hickory h | None \<Rightarrow> System)
     else Hickory (from_servers servers))"

definition Resolver_resolve ::
    "('h \<Rightarrow> rstring \<Rightarrow> 'h \<times> IpAddr list option) \<Rightarrow> (rstring \<Rightarrow> (IpAddr \<times> u16) list option) \<Rightarrow> rstring \<Rightarrow> 'h Resolver
      \<Rightarrow> 'h Resolver \<times> IpAddr list option" where
  "Resolver_resolve lookup_ip lookup_host name r = (case r of
      Hickory h \<Rightarrow> map_prod Hickory id (lookup_ip h name)
    | System \<Rightarrow> (System, map_option (map fst) (lookup_host (name @ str '':0''))))"

definition clear_cache :: "('h \<Rightarrow> 'h) \<Rightarrow> 'h Resolver \<Rightarrow> 'h Resolver" where
  "clear_cache clear r = (case r of Hickory h \<Rightarrow> Hickory (clear h) | System \<Rightarrow> System)"

section \<open>Every client is accepted once\<close>

text \<open>What becomes of an arrival.\<close>

datatype 's outcome = Served 's rstring | Refused | Stalled

fun served :: "'s outcome list \<Rightarrow> ('s \<times> rstring) list" where
  "served [] = []"
| "served (Served x y # os) = (x, y) # served os"
| "served (Refused # os) = served os"
| "served (Stalled # os) = []"

definition tcp_outcome :: "bool \<Rightarrow> 'c arrival option \<Rightarrow> 'c outcome" where
  "tcp_outcome nodelay a = (case a of
      None \<Rightarrow> Refused
    | Some a \<Rightarrow> if nodelay \<and> \<not> a_nodelay a then Refused else Served (a_stream a) (a_addr a))"

definition unix_outcome :: "'c arrival option \<Rightarrow> 'c outcome" where
  "unix_outcome a = (case a of
      None \<Rightarrow> Refused
    | Some a \<Rightarrow> Served (a_stream a) (case a_path a of Some p \<Rightarrow> p | None \<Rightarrow> a_uuid a @ str ''-unix_socket''))"

fun then_tls :: "('c \<Rightarrow> 't tls_outcome) \<Rightarrow> 'c outcome \<Rightarrow> 't outcome" where
  "then_tls h (Served x y) = (case h x of TlsDone t \<Rightarrow> Served t y | TlsError \<Rightarrow> Refused | TlsStalled \<Rightarrow> Stalled)"
| "then_tls h Refused = Refused"
| "then_tls h Stalled = Stalled"

text \<open>The outcomes for all that arrives at a listener.\<close>

definition outcomes ::
    "('tcp, 'unx, 'tls_tcp, 'tls_unx, 'file, 'acceptor) accept_env \<Rightarrow> 'l ServerConfig \<Rightarrow> 'acceptor ServerListener
      \<Rightarrow> ('tcp, 'unx) arriving \<Rightarrow> ('tcp, 'tls_tcp, 'unx, 'tls_unx, 'file) ServerStream outcome list" where
  "outcomes e cfg l w =
    (let tcp = map (tcp_outcome (server_tcp_nodelay cfg)) (fst w); unx = map unix_outcome (snd w) in case l of
      ListenTcp \<Rightarrow> map (map_outcome One) tcp
    | ListenTlsTcp a \<Rightarrow> map (map_outcome Two \<circ> then_tls (ae_tls_tcp e a)) tcp
    | ListenUnix \<Rightarrow> map (map_outcome Three) unx
    | ListenTlsUnix a \<Rightarrow> map (map_outcome Four \<circ> then_tls (ae_tls_unix e a)) unx
    | ListenFile (Some path) \<Rightarrow> [case open_file (ae_files e) (file_raw_mode cfg) path of
          Ok (f, y) \<Rightarrow> Served (Five f) y | _ \<Rightarrow> Refused]
    | ListenFile None \<Rightarrow> [])"

text \<open>One accept takes the first outcome.\<close>

definition takes_first ::
    "('l \<times> 'w \<times> ('s \<times> rstring, listen_error) res) option \<Rightarrow> ('l \<Rightarrow> 'w \<Rightarrow> 's outcome list) \<Rightarrow> 's outcome list \<Rightarrow> bool" where
  "takes_first r rest os \<longleftrightarrow> (case os of
      [] \<Rightarrow> r = None
    | Stalled # os' \<Rightarrow> r = None
    | Refused # os' \<Rightarrow> (\<exists>l w err. r = Some (l, w, Err err) \<and> rest l w = os')
    | Served x y # os' \<Rightarrow> (\<exists>l w. r = Some (l, w, Ok (x, y)) \<and> rest l w = os'))"

lemma open_file_no_panic: "open_file fe raw path \<noteq> Panic"
  by (auto simp: open_file_def set_raw_mode_def ok_or_def split: option.splits)

lemma accept_takes_first:
  "takes_first (ServerListener_accept e cfg l w) (outcomes e cfg) (outcomes e cfg l w)"
proof (cases l)
  case ListenTcp
  then show ?thesis
    by (auto simp: takes_first_def ServerListener_accept_def outcomes_def accept_tcp_def tcp_outcome_def Let_def
        split: list.split option.split)
next
  case (ListenTlsTcp a)
  then show ?thesis
    by (auto simp: takes_first_def ServerListener_accept_def outcomes_def accept_tcp_def accept_tls_def tcp_outcome_def Let_def
        split: list.split option.split tls_outcome.split)
next
  case ListenUnix
  then show ?thesis
    by (auto simp: takes_first_def ServerListener_accept_def outcomes_def accept_unix_def unix_outcome_def Let_def
        split: list.split option.split)
next
  case (ListenTlsUnix a)
  then show ?thesis
    by (auto simp: takes_first_def ServerListener_accept_def outcomes_def accept_unix_def accept_tls_def unix_outcome_def Let_def
        split: list.split option.split tls_outcome.split)
next
  case (ListenFile p)
  then show ?thesis using open_file_no_panic [of "ae_files e" "file_raw_mode cfg"]
    by (cases p) (auto simp: takes_first_def ServerListener_accept_def outcomes_def Let_def split: res.split)
qed

lemma listen_loop_served: "listen_loop e cfg n l w = served (take n (outcomes e cfg l w))"
proof (induction n arbitrary: l w)
  case (Suc n)
  show ?case
  proof (cases "outcomes e cfg l w")
    case Nil
    with accept_takes_first [of e cfg l w] show ?thesis by (simp add: takes_first_def)
  next
    case (Cons o1 os)
    with accept_takes_first [of e cfg l w] Suc show ?thesis
      by (cases o1) (auto simp: takes_first_def)
  qed
qed simp

text \<open>
  C28. Every arrival is dealt with exactly once and in order, until a TLS handshake stalls: the first rounds of the loop serve the clients of the first arrivals; a client is served under its
  address when it was accepted and its handshake succeeded, any failure costs only the client it
  happened to, and the first handshake that stalls ends the service for everybody after it.
\<close>

theorem accept_loop_exact: "listen_loop e cfg n l w = served (take n (outcomes e cfg l w))"
  by (rule listen_loop_served)

definition demo_arrival :: "nat \<Rightarrow> rstring \<Rightarrow> nat arrival option" where
  "demo_arrival c a = Some \<lparr>a_stream = c, a_addr = a, a_path = None, a_uuid = str ''u'', a_nodelay = True\<rparr>"

text \<open>A client that fails the handshake when its number is 0 and stalls when it is 1.\<close>

definition demo_handshake :: "unit \<Rightarrow> nat \<Rightarrow> nat tls_outcome" where
  "demo_handshake a c = (if c = 0 then TlsError else if c = 1 then TlsStalled else TlsDone c)"

definition demo_accept :: "(nat, nat, nat, nat, unit, unit) accept_env" where
  "demo_accept = \<lparr>ae_tls_tcp = demo_handshake, ae_tls_unix = demo_handshake,
     ae_files = \<lparr>fe_open_read = \<lambda>_. Some (), fe_open_write = \<lambda>_. Some (), fe_tcgetattr = \<lambda>_. True, fe_set_raw = Some\<rparr>\<rparr>"

definition demo_arriving :: "(nat, nat) arriving" where
  "demo_arriving = ([demo_arrival 5 (str ''a''), None, demo_arrival 0 (str ''b''), demo_arrival 7 (str ''c''),
     demo_arrival 1 (str ''d''), demo_arrival 8 (str ''e'')], [])"

lemma demo_outcomes:
  "outcomes demo_accept cfg (ListenTlsTcp ()) demo_arriving =
    [Served (Two 5) (str ''a''), Refused, Refused, Served (Two 7) (str ''c''), Stalled, Served (Two 8) (str ''e'')]"
  by (simp add: outcomes_def Let_def tcp_outcome_def demo_arriving_def demo_arrival_def demo_accept_def demo_handshake_def)

text \<open>One client that does not finish its handshake keeps everybody else waiting.\<close>

lemma stalled_handshake_blocks:
  assumes "ae_tls_tcp e a (a_stream x) = TlsStalled" "a_nodelay x"
  shows "listen_loop e cfg n (ListenTlsTcp a) (Some x # as, us) = []"
  by (cases n) (use assms in \<open>simp_all add: ServerListener_accept_def accept_tcp_def accept_tls_def\<close>)

text \<open>A file that cannot be opened is not tried again: the server goes on without ever serving anybody.\<close>

lemma file_failure_is_final:
  assumes "fe_open_read (ae_files e) path = None"
  shows "listen_loop e cfg n (ListenFile (Some path)) w = []"
  by (cases n) (use assms in \<open>simp_all add: listen_loop_served outcomes_def open_file_def ok_or_def\<close>)

section \<open>What is accepted has the configured kind\<close>

fun stream_kind :: "('tcp, 'tls_tcp, 'unx, 'tls_unx, 'file) ServerStream \<Rightarrow> SocketType" where
  "stream_kind (One x) = Tcp_socket"
| "stream_kind (Two x) = TlsTcp"
| "stream_kind (Three x) = Unix"
| "stream_kind (Four x) = TlsUnix"
| "stream_kind (Five x) = File"

fun listener_kind :: "'acceptor ServerListener \<Rightarrow> SocketType" where
  "listener_kind ListenTcp = Tcp_socket"
| "listener_kind (ListenTlsTcp a) = TlsTcp"
| "listener_kind ListenUnix = Unix"
| "listener_kind (ListenTlsUnix a) = TlsUnix"
| "listener_kind (ListenFile p) = File"

lemma served_set: "(x, y) \<in> set (served os) \<Longrightarrow> Served x y \<in> set os"
  by (induction os rule: served.induct) auto

text \<open>The secured form of an arrival.\<close>

fun tls_done :: "('tcp, 'unx, 'tls_tcp, 'tls_unx, 'file, 'acceptor) accept_env \<Rightarrow> 'acceptor ServerListener
      \<Rightarrow> ('tcp, 'unx) arriving \<Rightarrow> ('tcp, 'tls_tcp, 'unx, 'tls_unx, 'file) ServerStream \<Rightarrow> bool" where
  "tls_done e (ListenTlsTcp a) w q \<longleftrightarrow> (\<exists>x t. Some x \<in> set (fst w) \<and> ae_tls_tcp e a (a_stream x) = TlsDone t \<and> q = Two t)"
| "tls_done e (ListenTlsUnix a) w q \<longleftrightarrow> (\<exists>x t. Some x \<in> set (snd w) \<and> ae_tls_unix e a (a_stream x) = TlsDone t \<and> q = Four t)"
| "tls_done e l w q \<longleftrightarrow> True"

lemma outcome_kind:
  assumes "Served q y \<in> set (outcomes e cfg l w)"
  shows "stream_kind q = listener_kind l \<and> tls_done e l w q"
proof (cases l)
  case (ListenTlsTcp a)
  with assms show ?thesis
    by (auto simp: outcomes_def Let_def tcp_outcome_def split: option.splits if_splits tls_outcome.splits)
next
  case (ListenTlsUnix a)
  with assms show ?thesis
    by (auto simp: outcomes_def Let_def unix_outcome_def split: option.splits tls_outcome.splits)
next
  case ListenTcp
  with assms show ?thesis by (auto simp: outcomes_def Let_def tcp_outcome_def split: option.splits if_splits)
next
  case ListenUnix
  with assms show ?thesis by (auto simp: outcomes_def Let_def unix_outcome_def split: option.splits)
next
  case (ListenFile p)
  with assms show ?thesis by (cases p) (auto simp: outcomes_def Let_def split: res.splits)
qed

lemma res_bind_Ok: "res_bind r g = Ok y \<longleftrightarrow> (\<exists>x. r = Ok x \<and> g x = Ok y)"
  by (cases r) auto

lemma new_kind:
  assumes "fst (ServerListener_new le cfg addr i f) = Ok l"
  shows "listener_kind l = fst addr" and "l = ListenTlsTcp a \<or> l = ListenTlsUnix a \<Longrightarrow> create_tls (le_tls le) (tls_keypair cfg) = Ok a"
  using assms by (auto simp: ServerListener_new_def Let_def res_bind_Ok split: SocketType.splits)

text \<open>
  C27. Every client that is served comes in by a stream of the configured kind. On a TLS socket it completed the
  handshake with the acceptor made of the configured key pair: no client is served in the clear there, and
  without a usable key pair nobody is served at all.
\<close>

theorem accepted_streams_typed:
  assumes "listen_wisp le e cfg i f n w = Ok clients" and "(q, y) \<in> set clients"
  shows "stream_kind q = fst (bind cfg)
    \<and> (fst (bind cfg) = TlsTcp \<longrightarrow> (\<exists>a x t. create_tls (le_tls le) (tls_keypair cfg) = Ok a \<and> Some x \<in> set (fst w)
         \<and> ae_tls_tcp e a (a_stream x) = TlsDone t \<and> q = Two t))
    \<and> (fst (bind cfg) = TlsUnix \<longrightarrow> (\<exists>a x t. create_tls (le_tls le) (tls_keypair cfg) = Ok a \<and> Some x \<in> set (snd w)
         \<and> ae_tls_unix e a (a_stream x) = TlsDone t \<and> q = Four t))"
proof -
  from assms obtain l where l: "fst (ServerListener_new le cfg (bind cfg) i f) = Ok l"
    and "(q, y) \<in> set (served (take n (outcomes e cfg l w)))"
    by (auto simp: listen_wisp_def res_bind_Ok listen_loop_served)
  then have "Served q y \<in> set (outcomes e cfg l w)" by (auto dest: served_set in_set_takeD)
  from outcome_kind [OF this] new_kind [OF l] show ?thesis by (cases l) auto
qed

definition demo_listen :: "(unit, unit, unit, unit) listen_env" where
  "demo_listen = \<lparr>le_net = \<lparr>new_v4 = True, set_reuseport = True, parse_socket_addr = \<lambda>_. Some (), socket_bind = \<lambda>_. True,
      socket_listen = True, tcp_listener_bind = \<lambda>_. True\<rparr>, le_unix = (True, True, True),
    le_tls = \<lparr>tf_read = Some, tf_certs = \<lambda>_. [Some ()], tf_private_key = \<lambda>_. Some (Some ()), tf_single_cert = \<lambda>_ _. Some ()\<rparr>\<rparr>"

definition demo_server :: "unit ServerConfig" where
  "demo_server = (ServerConfig_default ())\<lparr>bind := (TlsTcp, str ''0.0.0.0:443''), tls_keypair := Some (str ''pub'', str ''key'')\<rparr>"

theorem accepted_streams_typed_witness:
  "listen_wisp demo_listen demo_accept demo_server 0 None 5 demo_arriving = Ok [(Two 5, str ''a''), (Two 7, str ''c'')]
   \<and> stream_kind (Two 7 :: (nat, nat, nat, nat, unit) ServerStream) = TlsTcp"
proof -
  have run: "listen_wisp demo_listen demo_accept demo_server 0 None 5 demo_arriving = Ok [(Two 5, str ''a''), (Two 7, str ''c'')]"
    by (simp add: listen_wisp_def ServerListener_new_def demo_listen_def demo_server_def ServerConfig_default_def bind_tcp_def
        is_thread_per_core_def create_tls_def ok_or_def listen_loop_served demo_outcomes eval_nat_numeral)
  from accepted_streams_typed [OF run, of "Two 7" "str ''c''"] run show ?thesis by (simp add: demo_server_def)
qed

section \<open>Threads that share a Unix socket\<close>

text \<open>A run of the threads: who makes a step, and whether the operating system allows it.\<close>

fun bind_run :: "rstring \<Rightarrow> (nat \<times> bool) list \<Rightarrow> bind_pc list \<times> path_entry option \<Rightarrow> bind_pc list \<times> path_entry option" where
  "bind_run path [] s = s"
| "bind_run path ((i, ok) # as) (ps, f) =
    (if i < length ps then case bind_unix_step ok path i (ps ! i) f of (p, f') \<Rightarrow> bind_run path as (ps[i := p], f')
     else bind_run path as (ps, f))"

text \<open>
  A socket at the path is that of a thread that listens; a file of somebody else is there only before any thread has
  removed it; and when a thread listens while nothing is there, another one has just removed its socket.
\<close>

definition bind_inv :: "bind_pc list \<Rightarrow> path_entry option \<Rightarrow> bool" where
  "bind_inv ps f \<longleftrightarrow> (case f of
      Some (SocketOf j) \<Rightarrow> j < length ps \<and> ps ! j = Listening
    | Some OtherFile \<Rightarrow> Listening \<notin> set ps \<and> BindSocket \<notin> set ps
    | None \<Rightarrow> Listening \<in> set ps \<longrightarrow> BindSocket \<in> set ps)"

lemma set_update_iff:
  "i < length ps \<Longrightarrow> x \<in> set (ps[i := p]) \<longleftrightarrow> x = p \<or> (\<exists>j < length ps. j \<noteq> i \<and> ps ! j = x)"
  by (auto simp: in_set_conv_nth nth_list_update)

lemma bind_inv_step:
  assumes "bind_inv ps f" "i < length ps" "bind_unix_step True path i (ps ! i) f = (p, f')"
  shows "bind_inv (ps[i := p]) f'"
proof -
  have "x \<in> set ps \<longleftrightarrow> x = ps ! i \<or> (\<exists>j < length ps. j \<noteq> i \<and> ps ! j = x)" for x
    using set_update_iff [OF assms(2), of x "ps ! i"] by simp
  with assms set_update_iff [OF assms(2), of _ p] show ?thesis
    by (cases "ps ! i") (auto simp: bind_inv_def nth_list_update split: option.splits path_entry.splits if_splits)
qed

lemma bind_inv_run:
  "bind_inv ps f \<Longrightarrow> \<forall>a \<in> set as. snd a \<Longrightarrow> bind_run path as (ps, f) = (ps', f') \<Longrightarrow> bind_inv ps' f' \<and> length ps' = length ps"
proof (induction path as "(ps, f)" arbitrary: ps f rule: bind_run.induct)
  case (2 path i ok as ps f)
  then show ?case using bind_inv_step [of ps f i path] by (auto split: if_splits prod.splits)
qed simp

text \<open>
  C29. Of the threads that listen on a Unix socket only one can be reached. In every interleaving of \<open>n\<close> threads whose
  steps the operating system allows, once all have bound their socket or failed and at least one listens, the path leads to exactly one of the listening threads;
  each other one waits at a socket that was removed.
\<close>

theorem unix_one_thread_reachable:
  assumes "bind_run path as (replicate n CheckExists, f) = (ps, f')" "f \<in> {None, Some OtherFile}" "\<forall>a \<in> set as. snd a"
    and "\<forall>p \<in> set ps. p = Listening \<or> (\<exists>err. p = BindFailed err)" "Listening \<in> set ps"
  shows "\<exists>i < n. ps ! i = Listening \<and> (\<forall>j. f' = Some (SocketOf j) \<longleftrightarrow> j = i)"
proof -
  have "bind_inv (replicate n CheckExists) f" using assms(2) by (auto simp: bind_inv_def)
  from bind_inv_run [OF this assms(3,1)] assms(4,5) show ?thesis
    by (auto simp: bind_inv_def split: option.splits path_entry.splits)
qed

text \<open>Two threads bind one after the other: both succeed and the first cannot be reached.\<close>

theorem unix_one_thread_reachable_witness:
  "\<exists>ps f. bind_run (str ''s'') [(0, True), (0, True), (1, True), (1, True), (1, True)] (replicate 2 CheckExists, None) = (ps, f)
     \<and> ps = [Listening, Listening] \<and> (\<exists>i < 2. ps ! i = Listening \<and> (\<forall>j. f = Some (SocketOf j) \<longleftrightarrow> j = i))"
proof -
  have run: "bind_run (str ''s'') [(0, True), (0, True), (1, True), (1, True), (1, True)] (replicate 2 CheckExists, None)
      = ([Listening, Listening], Some (SocketOf 1))"
    by (simp add: eval_nat_numeral)
  from unix_one_thread_reachable [OF run] run show ?thesis by simp
qed

text \<open>Two threads that both see an old socket: the second to remove it fails, and with it the server ends.\<close>

lemma unix_threads_race:
  "bind_run path [(0, True), (1, True), (0, True), (1, True)] (replicate 2 CheckExists, Some OtherFile)
    = ([BindSocket, BindFailed FailedRemove], None)"
  "main_result [(ListenWisp 1, Err FailedRemove)] = Some (Err FailedRemove)"
  by (simp_all add: eval_nat_numeral)

text \<open>A single thread always replaces what is at the path.\<close>

lemma bind_unix_alone: "bind_unix (True, True, True) path i f = (Ok (), Some (SocketOf i))"
  by (cases f) (simp_all add: bind_unix_def)

text \<open>One listener for each core.\<close>

lemma threadpercore_listeners:
  "0 < cores \<Longrightarrow> length (filter (\<lambda>t. \<exists>i. t = ListenWisp i) (threadpercore_main cfg cores)) = cores"
  by (simp add: threadpercore_main_def stats_tasks_def filter_map comp_def split: option.split)

end
