(* ===== verification/Transports_Split.thy ===== *)
theory Transports_Split
  imports Transports
begin

text \<open>
  The transport over \<open>tokio_tungstenite\<close> (\<open>wisp/src/ws/tokio_tungstenite.rs\<close>), and the two halves of a transport that
  share it through a mutex (\<open>wisp/src/ws/split.rs\<close>). The mutex of the standard library is poisoned when
  a poll panics while it is held; every later poll of either half then panics.
\<close>

section \<open>tokio_tungstenite\<close>

definition tungstenite_map_err :: "ws_error \<Rightarrow> WispError" where
  "tungstenite_map_err x = (case x of AlreadyClosed \<Rightarrow> WsImplSocketClosed | OtherError m \<Rightarrow> WsImplError m)"

definition is_binary :: "Message \<Rightarrow> bool" where
  "is_binary m = (case m of Binary d \<Rightarrow> True | _ \<Rightarrow> False)"

fun into_data :: "Message \<Rightarrow> bytes" where
  "into_data (Binary d) = d"
| "into_data (Text d) = d"
| "into_data (Ping d) = d"
| "into_data (Pong d) = d"
| "into_data CloseMessage = []"

fun tungstenite_poll_next :: "ws_item list \<Rightarrow> ws_item list \<times> bytes wres option poll" where
  "tungstenite_poll_next [] = ([], Pending)"
| "tungstenite_poll_next (WsPending # s) = (s, Pending)"
| "tungstenite_poll_next (WsEnd # s) = (s, Ready None)"
| "tungstenite_poll_next (WsError e # s) = (s, Ready (Some (Err (tungstenite_map_err e))))"
| "tungstenite_poll_next (WsMessage m # s) =
    (if is_binary m then (s, Ready (Some (Ok (into_data m))))
     else if m = CloseMessage then (s, Ready None)
     else tungstenite_poll_next s)"

definition tungstenite_poll_ready :: "'s ws_sink \<Rightarrow> 's \<Rightarrow> 's \<times> unit wres poll" where
  "tungstenite_poll_ready k s = map_prod id (poll_map (map_err tungstenite_map_err)) (sink_poll_ready k s)"

definition tungstenite_start_send :: "'s ws_sink \<Rightarrow> bytes \<Rightarrow> 's \<Rightarrow> 's \<times> unit wres" where
  "tungstenite_start_send k item s = map_prod id (map_err tungstenite_map_err) (sink_start_send k (Binary item) s)"

definition tungstenite_poll_flush :: "'s ws_sink \<Rightarrow> 's \<Rightarrow> 's \<times> unit wres poll" where
  "tungstenite_poll_flush k s = map_prod id (poll_map (map_err tungstenite_map_err)) (sink_poll_flush k s)"

section \<open>split\<close>

record 's mutex =
  guarded :: 's
  poisoned :: bool

text \<open>\<open>lock\<close> and one poll under the guard; \<open>None\<close> is a panic.\<close>

definition with_lock :: "('s \<Rightarrow> 's \<times> 'a option) \<Rightarrow> 's mutex \<Rightarrow> 's mutex \<times> 'a option" where
  "with_lock f m = (if poisoned m then (m, None) else case f (guarded m) of
      (s, None) \<Rightarrow> (\<lparr>guarded = s, poisoned = True\<rparr>, None)
    | (s, Some x) \<Rightarrow> (\<lparr>guarded = s, poisoned = False\<rparr>, Some x))"

text \<open>A transport: a stream of messages and a sink.\<close>

record 's transport_ops =
  tr_poll_next :: "'s \<Rightarrow> 's \<times> bytes wres option poll option"
  tr_poll_ready :: "'s \<Rightarrow> 's \<times> unit wres poll option"
  tr_start_send :: "bytes \<Rightarrow> 's \<Rightarrow> 's \<times> unit wres option"
  tr_poll_flush :: "'s \<Rightarrow> 's \<times> unit wres poll option"
  tr_poll_close :: "'s \<Rightarrow> 's \<times> unit wres poll option"

definition split_transport :: "'s \<Rightarrow> 's mutex" where
  "split_transport s = \<lparr>guarded = s, poisoned = False\<rparr>"

definition split_poll_next :: "'s transport_ops \<Rightarrow> 's mutex \<Rightarrow> 's mutex \<times> bytes wres option poll option" where
  "split_poll_next t = with_lock (tr_poll_next t)"

definition split_poll_ready :: "'s transport_ops \<Rightarrow> 's mutex \<Rightarrow> 's mutex \<times> unit wres poll option" where
  "split_poll_ready t = with_lock (tr_poll_ready t)"

definition split_start_send :: "'s transport_ops \<Rightarrow> bytes \<Rightarrow> 's mutex \<Rightarrow> 's mutex \<times> unit wres option" where
  "split_start_send t item = with_lock (tr_start_send t item)"

definition split_poll_flush :: "'s transport_ops \<Rightarrow> 's mutex \<Rightarrow> 's mutex \<times> unit wres poll option" where
  "split_poll_flush t = with_lock (tr_poll_flush t)"

definition split_poll_close :: "'s transport_ops \<Rightarrow> 's mutex \<Rightarrow> 's mutex \<times> unit wres poll option" where
  "split_poll_close t = with_lock (tr_poll_close t)"

definition split_ops :: "'s transport_ops \<Rightarrow> 's mutex transport_ops" where
  "split_ops t = \<lparr>tr_poll_next = split_poll_next t, tr_poll_ready = split_poll_ready t,
     tr_start_send = split_start_send t, tr_poll_flush = split_poll_flush t, tr_poll_close = split_poll_close t\<rparr>"

section \<open>Properties\<close>

text \<open>Both websocket libraries are read alike.\<close>

lemma tungstenite_reads_alike: "tungstenite_poll_next s = ws_poll_next s"
proof (induction s rule: tungstenite_poll_next.induct)
  case (5 m s)
  then show ?case by (cases m) (simp_all add: is_binary_def)
qed (simp_all add: tungstenite_map_err_def ws_map_err_def)

lemma tungstenite_map_err_eq: "tungstenite_map_err = ws_map_err"
  by (simp add: fun_eq_iff tungstenite_map_err_def ws_map_err_def)

lemma tungstenite_sends_alike:
  "tungstenite_poll_ready = ws_poll_ready" "tungstenite_start_send = ws_start_send" "tungstenite_poll_flush = ws_poll_flush"
  by (simp_all add: fun_eq_iff tungstenite_poll_ready_def ws_poll_ready_def tungstenite_start_send_def ws_start_send_def
      tungstenite_poll_flush_def ws_poll_flush_def tungstenite_map_err_eq)

text \<open>Operations of the two halves in any order.\<close>

datatype tr_op = TrNext | TrReady | TrSend bytes | TrFlush | TrClose

datatype tr_answer = AnNext "bytes wres option poll" | AnPoll "unit wres poll" | AnSent "unit wres" | AnPanic

definition tr_exec :: "'s transport_ops \<Rightarrow> tr_op \<Rightarrow> 's \<Rightarrow> 's \<times> tr_answer" where
  "tr_exec t opn s = (case opn of
      TrNext \<Rightarrow> map_prod id (case_option AnPanic AnNext) (tr_poll_next t s)
    | TrReady \<Rightarrow> map_prod id (case_option AnPanic AnPoll) (tr_poll_ready t s)
    | TrSend item \<Rightarrow> map_prod id (case_option AnPanic AnSent) (tr_start_send t item s)
    | TrFlush \<Rightarrow> map_prod id (case_option AnPanic AnPoll) (tr_poll_flush t s)
    | TrClose \<Rightarrow> map_prod id (case_option AnPanic AnPoll) (tr_poll_close t s))"

fun tr_run :: "'s transport_ops \<Rightarrow> tr_op list \<Rightarrow> 's \<Rightarrow> 's \<times> tr_answer list" where
  "tr_run t [] s = (s, [])"
| "tr_run t (opn # ops) s = (case tr_exec t opn s of (s', a) \<Rightarrow> map_prod id ((#) a) (tr_run t ops s'))"

lemma with_lock_free: "with_lock f \<lparr>guarded = s, poisoned = False\<rparr> =
    (case f s of (s', x) \<Rightarrow> (\<lparr>guarded = s', poisoned = (x = None)\<rparr>, x))"
  by (auto simp: with_lock_def split: prod.split option.split)

lemma split_exec:
  "tr_exec (split_ops t) opn (split_transport s) =
    (case tr_exec t opn s of (s', a) \<Rightarrow> (\<lparr>guarded = s', poisoned = (a = AnPanic)\<rparr>, a))"
  by (cases opn) (auto simp: tr_exec_def split_ops_def split_transport_def split_poll_next_def split_poll_ready_def
      split_start_send_def split_poll_flush_def split_poll_close_def with_lock_free split: prod.split option.split)

lemma poisoned_panics:
  "poisoned m \<Longrightarrow> tr_run (split_ops t) ops m = (m, replicate (length ops) AnPanic)"
proof (induction ops)
  case (Cons opn ops)
  have "tr_exec (split_ops t) opn m = (m, AnPanic)"
    using Cons.prems by (cases opn) (simp_all add: tr_exec_def split_ops_def split_poll_next_def split_poll_ready_def
        split_start_send_def split_poll_flush_def split_poll_close_def with_lock_def)
  with Cons show ?case by simp
qed simp

text \<open>What a transport answers up to its first panic, and panics from then on.\<close>

fun until_panic :: "tr_answer list \<Rightarrow> tr_answer list" where
  "until_panic [] = []"
| "until_panic (a # as) = (if a = AnPanic then replicate (Suc (length as)) AnPanic else a # until_panic as)"

lemma tr_run_length: "length (snd (tr_run t ops s)) = length ops"
  by (induction ops arbitrary: s) (auto split: prod.split)

text \<open>
  Splitting a transport changes nothing: whatever the order in which the two halves are polled, they get the answers that the
  whole transport would give, until a poll panics; from then on both halves panic.
\<close>

theorem split_is_transparent:
  "snd (tr_run (split_ops t) ops (split_transport s)) = until_panic (snd (tr_run t ops s))"
proof (induction ops arbitrary: s)
  case (Cons opn ops)
  obtain s' a where e: "tr_exec t opn s = (s', a)" by force
  show ?case
  proof (cases "a = AnPanic")
    case True
    then show ?thesis
      by (simp add: split_exec e poisoned_panics tr_run_length snd_map_prod)
  next
    case False
    then show ?thesis
      using Cons [of s'] by (simp add: split_exec e snd_map_prod) (simp add: split_transport_def)
  qed
qed simp

end
