(* ===== verification/Mux_Adaptors.thy ===== *)
theory Mux_Adaptors
  imports Flow_Control Handshake Server_Socket
begin

text \<open>
  Multiplexed streams as readers and writers of bytes, \<open>wisp/src/stream/compat.rs\<close>, and the operations on a
  connection that are left in \<open>wisp/src/mux/mod.rs\<close>: closing it and taking its sink.

  Parameters: \<open>IntoAsyncRead\<close>, which makes a reader of a stream of chunks, with the contract \<open>async_reader\<close> of theory
  \<open>Server_Socket\<close>, and the text of an error. \<open>io::Error::other\<close> keeps the error; a panic ends the task and counts as a
  failure here.
\<close>

section \<open>The reading half\<close>

definition to_io :: "(WispError \<Rightarrow> rstring) \<Rightarrow> 'a wres \<Rightarrow> 'a io" where
  "to_io err_text r = (case r of Ok x \<Rightarrow> Done x | Err e \<Rightarrow> Failed (err_text e) | Panic \<Rightarrow> Failed [])"

definition MapToIo_poll :: "(WispError \<Rightarrow> rstring) \<Rightarrow> bytes wres option poll \<Rightarrow> bytes io option poll" where
  "MapToIo_poll err_text p = poll_map (map_option (to_io err_text)) p"

section \<open>The writing half\<close>

text \<open>
  The half with what it shares and what the other components answer to its next polls; the events it sent to
  the task.
\<close>

record aw_stream =
  aw_envs :: "poll_env list"
  aw_half :: MuxStreamAsyncWrite
  aw_info :: StreamInfo
  aw_ws :: ws_write
  aw_events :: "(u32 \<times> ClosePacket) list"

definition with_env :: "(poll_env \<Rightarrow> aw_stream \<Rightarrow> aw_stream \<times> 'a io poll) \<Rightarrow> aw_stream \<Rightarrow> aw_stream \<times> 'a io poll" where
  "with_env f s = (case aw_envs s of [] \<Rightarrow> (s, Pending) | e # es \<Rightarrow> f e (s\<lparr>aw_envs := es\<rparr>))"

definition aw_poll_write :: "(WispError \<Rightarrow> rstring) \<Rightarrow> bytes \<Rightarrow> aw_stream \<Rightarrow> aw_stream \<times> nat io poll" where
  "aw_poll_write t buf = with_env (\<lambda>e s. case async_poll_write e buf (aw_half s) (aw_info s) (aw_ws s) of
      (h, w, r) \<Rightarrow> (s\<lparr>aw_half := h, aw_ws := w\<rparr>, poll_map (to_io t) r))"

text \<open>The method \<open>poll_write_vectored\<close> that \<open>AsyncWrite\<close> provides: the first buffer that is not empty.\<close>

definition aw_poll_write_vectored :: "(WispError \<Rightarrow> rstring) \<Rightarrow> bytes list \<Rightarrow> aw_stream \<Rightarrow> aw_stream \<times> nat io poll" where
  "aw_poll_write_vectored t bufs =
    (case filter (\<lambda>b. b \<noteq> []) bufs of [] \<Rightarrow> aw_poll_write t [] | b # bs \<Rightarrow> aw_poll_write t b)"

definition aw_poll_flush :: "(WispError \<Rightarrow> rstring) \<Rightarrow> aw_stream \<Rightarrow> aw_stream \<times> unit io poll" where
  "aw_poll_flush t = with_env (\<lambda>e s. case async_poll_flush e (aw_half s) of
      (h, r) \<Rightarrow> (s\<lparr>aw_half := h\<rparr>, poll_map (to_io t) r))"

definition aw_poll_close :: "(WispError \<Rightarrow> rstring) \<Rightarrow> aw_stream \<Rightarrow> aw_stream \<times> unit io poll" where
  "aw_poll_close t = with_env (\<lambda>e s. case async_poll_close e (aw_half s) (aw_info s) of
      (h, ev, r) \<Rightarrow> (s\<lparr>aw_half := h, aw_events := aw_events s @ (case ev of None \<Rightarrow> [] | Some x \<Rightarrow> [x])\<rparr>, poll_map (to_io t) r))"

definition aw_get_close_reason :: "bool \<Rightarrow> StreamInfo \<Rightarrow> CloseReason option" where
  "aw_get_close_reason mux_gone i = (if mux_gone then Some (get_reason i) else None)"

section \<open>Both halves\<close>

text \<open>The methods of \<open>MuxStreamAsyncRW\<close>; \<open>rio\<close> are those of the reading half.\<close>

record 'r MuxStreamAsyncRW =
  rw_read :: 'r
  rw_write :: aw_stream

definition rw_into_split :: "'r MuxStreamAsyncRW \<Rightarrow> 'r \<times> aw_stream" where
  "rw_into_split s = (rw_read s, rw_write s)"

definition rw_poll_read :: "'r async_io \<Rightarrow> 'r MuxStreamAsyncRW poll_read" where
  "rw_poll_read rio s n = (case io_read rio (rw_read s) n of (r, x) \<Rightarrow> (s\<lparr>rw_read := r\<rparr>, x))"

definition rw_poll_fill_buf :: "'r async_io \<Rightarrow> 'r MuxStreamAsyncRW fill_buf" where
  "rw_poll_fill_buf rio s = (case io_fill_buf rio (rw_read s) of (r, x) \<Rightarrow> (s\<lparr>rw_read := r\<rparr>, x))"

definition rw_consume :: "'r async_io \<Rightarrow> nat \<Rightarrow> 'r MuxStreamAsyncRW \<Rightarrow> 'r MuxStreamAsyncRW" where
  "rw_consume rio k s = s\<lparr>rw_read := io_consume rio k (rw_read s)\<rparr>"

definition rw_poll_write :: "(WispError \<Rightarrow> rstring) \<Rightarrow> bytes \<Rightarrow> 'r MuxStreamAsyncRW \<Rightarrow> 'r MuxStreamAsyncRW \<times> nat io poll" where
  "rw_poll_write t buf s = (case aw_poll_write t buf (rw_write s) of (w, x) \<Rightarrow> (s\<lparr>rw_write := w\<rparr>, x))"

definition rw_poll_write_vectored :: "(WispError \<Rightarrow> rstring) \<Rightarrow> bytes list \<Rightarrow> 'r MuxStreamAsyncRW \<Rightarrow> 'r MuxStreamAsyncRW \<times> nat io poll" where
  "rw_poll_write_vectored t bufs s = (case aw_poll_write_vectored t bufs (rw_write s) of (w, x) \<Rightarrow> (s\<lparr>rw_write := w\<rparr>, x))"

definition rw_poll_flush :: "(WispError \<Rightarrow> rstring) \<Rightarrow> 'r MuxStreamAsyncRW \<Rightarrow> 'r MuxStreamAsyncRW \<times> unit io poll" where
  "rw_poll_flush t s = (case aw_poll_flush t (rw_write s) of (w, x) \<Rightarrow> (s\<lparr>rw_write := w\<rparr>, x))"

definition rw_poll_close :: "(WispError \<Rightarrow> rstring) \<Rightarrow> 'r MuxStreamAsyncRW \<Rightarrow> 'r MuxStreamAsyncRW \<times> unit io poll" where
  "rw_poll_close t s = (case aw_poll_close t (rw_write s) of (w, x) \<Rightarrow> (s\<lparr>rw_write := w\<rparr>, x))"

definition MuxStreamAsyncRW_io :: "'r async_io \<Rightarrow> (WispError \<Rightarrow> rstring) \<Rightarrow> 'r MuxStreamAsyncRW async_io" where
  "MuxStreamAsyncRW_io rio t = \<lparr>
     io_read = rw_poll_read rio, io_fill_buf = rw_poll_fill_buf rio, io_consume = rw_consume rio,
     io_write = rw_poll_write t, io_is_write_vectored = \<lambda>s. False, io_write_vectored = rw_poll_write_vectored t,
     io_flush = rw_poll_flush t, io_shutdown = rw_poll_close t\<rparr>"

section \<open>Operations on a connection\<close>

text \<open>
  \<open>close_internal\<close> sends an event to the task and fails when the task is gone.
\<close>

definition close_internal :: "bool \<Rightarrow> CloseReason option \<Rightarrow> WsEvent wres" where
  "close_internal mux_gone r = (if mux_gone then Err MuxMessageFailedToSend else Ok (EvEndFut r))"

definition mux_close :: "bool \<Rightarrow> WsEvent wres" where
  "mux_close mux_gone = close_internal mux_gone None"

definition close_with_reason :: "bool \<Rightarrow> CloseReason \<Rightarrow> WsEvent wres" where
  "close_with_reason mux_gone r = close_internal mux_gone (Some r)"

text \<open>The first poll of \<open>lock_ws\<close>: a handle of its own on the lock, whose ownership moves into the guard.\<close>

definition lock_ws ::
    "bool \<Rightarrow> nat \<Rightarrow> nat \<Rightarrow> SinkState \<Rightarrow> LockedSink \<Rightarrow> (SinkState \<times> LockedSink wres poll, 'e) res" where
  "lock_ws mux_gone vacant cx st l =
    (if mux_gone then Ok (st, Ready (Err WsImplSocketClosed))
     else res_bind (poll_lock vacant cx st (LockedSink_clone l)) (\<lambda>(st, l, p). Ok (st, poll_map (\<lambda>_. Ok (get_handle l)) p)))"

section \<open>What the writing half sends\<close>

text \<open>The bytes of the DATA packets for a stream among the messages sent.\<close>

definition data_of :: "u32 \<Rightarrow> bytes \<Rightarrow> bytes" where
  "data_of i msg = (case Packet_decode msg of
      Ok p \<Rightarrow> if stream_id p = i then (case packet_type p of Data d \<Rightarrow> into_owned d | _ \<Rightarrow> []) else []
    | _ \<Rightarrow> [])"

definition sent_data :: "u32 \<Rightarrow> bytes list \<Rightarrow> bytes" where
  "sent_data i msgs = concat (map (data_of i) msgs)"

lemma data_of_new_data: "data_of i (Packet_encode (new_data i (Borrowed d))) = d"
  using packet_decode_encode_trail [of "new_data i (Borrowed d)" "[]"]
  by (simp add: data_of_def new_data_def Packet_ok_def Packet_own_def PacketType_ok_def PacketType_own_def)

definition aw_written :: "aw_stream \<Rightarrow> bytes" where
  "aw_written s = sent_data (info_id (aw_info s)) (ws_sent (aw_ws s))"

lemma async_poll_write_sends:
  assumes "async_poll_write e buf s i w = (s', w', r)"
  shows "(r = Ready (Ok (length buf)) \<and> ws_sent w' = ws_sent w @ [Packet_encode (new_data (info_id i) (Borrowed buf))])
    \<or> (w' = w \<and> (\<forall>n. r \<noteq> Ready (Ok n)))"
  using assms by (auto simp: async_poll_write_def ws_send_def Let_def split: if_splits poll.splits res.splits option.splits)

lemma aw_poll_write_sends:
  assumes "aw_poll_write t d s = (s', r)"
  shows "aw_info s' = aw_info s \<and> ((r = Ready (Done (length d)) \<and> aw_written s' = aw_written s @ d)
     \<or> (aw_written s' = aw_written s \<and> (\<forall>n. r \<noteq> Ready (Done n))))"
proof (cases "aw_envs s")
  case Nil
  with assms show ?thesis by (auto simp: aw_poll_write_def with_env_def)
next
  case (Cons e es)
  obtain h w x where p: "async_poll_write e d (aw_half s) (aw_info s) (aw_ws s) = (h, w, x)" by (rule prod_cases3)
  with assms Cons have s': "s' = s\<lparr>aw_envs := es, aw_half := h, aw_ws := w\<rparr>" "r = poll_map (to_io t) x"
    by (auto simp: aw_poll_write_def with_env_def)
  from async_poll_write_sends [OF p] show ?thesis
    by (cases x) (auto simp: s' aw_written_def sent_data_def data_of_new_data to_io_def split: res.split)
qed

lemma filter_head: "filter (\<lambda>b. b \<noteq> []) ds = b # bs \<Longrightarrow> \<exists>rest. concat ds = b @ rest"
proof (induction ds)
  case (Cons x ds)
  then show ?case by (cases "x = []") auto
qed simp

lemma filter_empty: "filter (\<lambda>b. b \<noteq> []) ds = [] \<Longrightarrow> concat ds = []"
  by (auto simp: filter_empty_conv)

definition aw_io :: "(WispError \<Rightarrow> rstring) \<Rightarrow> aw_stream async_io" where
  "aw_io t = \<lparr>
     io_read = \<lambda>s n. (s, Pending), io_fill_buf = \<lambda>s. (s, Pending), io_consume = \<lambda>k s. s,
     io_write = aw_poll_write t, io_is_write_vectored = \<lambda>s. False, io_write_vectored = aw_poll_write_vectored t,
     io_flush = aw_poll_flush t, io_shutdown = aw_poll_close t\<rparr>"

interpretation aw: async_writer "aw_io t" aw_written for t
proof (unfold_locales, goal_cases)
  case (1 d s s' n)
  with aw_poll_write_sends [of t d s s'] show ?case by (auto simp: aw_io_def)
next
  case (2 d s s')
  with aw_poll_write_sends [of t d s s'] show ?case by (auto simp: aw_io_def)
next
  case (3 ds s s' n)
  then show ?case
    using aw_poll_write_sends [of t _ s s'] filter_head [of ds]
    by (fastforce simp: aw_io_def aw_poll_write_vectored_def split: list.splits)
next
  case (4 ds s s')
  then show ?case
    using aw_poll_write_sends [of t _ s s'] by (fastforce simp: aw_io_def aw_poll_write_vectored_def split: list.splits)
next
  case (5 s s' f)
  then show ?case
    by (auto simp: aw_io_def aw_poll_flush_def with_env_def aw_written_def split: prod.splits list.splits)
next
  case (6 s s' f)
  then show ?case
    by (auto simp: aw_io_def aw_poll_close_def with_env_def aw_written_def split: prod.splits list.splits)
qed

section \<open>A stream is a socket of bytes\<close>

locale rw_stream = r: async_reader rio rest
  for rio :: "'r async_io" and rest :: "'r \<Rightarrow> bytes" and t :: "WispError \<Rightarrow> rstring"

sublocale rw_stream \<subseteq> rw: async_socket "MuxStreamAsyncRW_io rio t" "\<lambda>s. rest (rw_read s)" "\<lambda>s. aw_written (rw_write s)"
  by (unfold_locales; auto simp: MuxStreamAsyncRW_io_def rw_poll_read_def rw_poll_fill_buf_def rw_consume_def rw_poll_write_def
      rw_poll_write_vectored_def rw_poll_flush_def rw_poll_close_def split: prod.splits
      dest: r.gives r.at_end r.waits r.fill r.fill_waits r.consumes aw.writes [of t, unfolded aw_io_def, simplified]
        aw.write_waits [of t, unfolded aw_io_def, simplified] aw.writes_vectored [of t, unfolded aw_io_def, simplified]
        aw.vectored_waits [of t, unfolded aw_io_def, simplified] aw.flush_keeps [of t, unfolded aw_io_def, simplified]
        aw.shutdown_keeps [of t, unfolded aw_io_def, simplified])

context rw_stream begin

lemma is_socket: "async_socket (MuxStreamAsyncRW_io rio t) (\<lambda>s. rest (rw_read s)) (\<lambda>s. aw_written (rw_write s))" ..

end

interpretation script_rw: rw_stream script_io "\<lambda>s. concat (incoming s)" t for t ..

text \<open>
  A multiplexed stream used as a reader and a writer of bytes loses, repeats and reorders nothing, whatever the lock, the
  transport and the task answer to its polls: the DATA packets that leave for it carry exactly the bytes that its
  writes accepted, in order, and reading takes the bytes of the reading half in order.
\<close>

theorem async_rw_exact:
  assumes "async_reader rio rest" and "\<forall>opn \<in> set ops. op_ok opn"
    and "io_run (MuxStreamAsyncRW_io rio t) ops s = (s', received, accepted)"
  shows "rest (rw_read s) = received @ rest (rw_read s')
    \<and> sent_data (info_id (aw_info (rw_write s'))) (ws_sent (aw_ws (rw_write s')))
      = sent_data (info_id (aw_info (rw_write s))) (ws_sent (aw_ws (rw_write s))) @ accepted"
  using async_socket.run_exact [OF rw_stream.is_socket [OF rw_stream.intro [OF assms(1)]] assms(2,3)]
  by (simp add: aw_written_def)

definition demo_rw :: "script MuxStreamAsyncRW" where
  "demo_rw = \<lparr>rw_read = \<lparr>incoming = [[1, 2]], outgoing = [], room = []\<rparr>,
     rw_write = \<lparr>aw_envs = [ready_env\<lparr>e_poll_lock := Pending\<rparr>, ready_env, ready_env],
       aw_half = MuxStreamAsyncWrite_new MuxStreamWrite_new, aw_info = StreamInfo_new 3 EnabledTrackAmount 0,
       aw_ws = \<lparr>ws_sent = [], ws_accepts = \<lambda>_ _. None\<rparr>, aw_events = []\<rparr>\<rparr>"

theorem async_rw_exact_witness:
  "\<exists>s'. io_run (MuxStreamAsyncRW_io script_io (\<lambda>_. [])) [OpWrite [7], OpWrite [8, 9], OpRead 4, OpWriteVectored [[], [6]]] demo_rw
       = (s', [1, 2], [8, 9, 6])
     \<and> sent_data 3 (ws_sent (aw_ws (rw_write s'))) = [8, 9, 6]"
proof -
  let ?ops = "[OpWrite [7], OpWrite [8, 9], OpRead 4, OpWriteVectored [[], [6]]]"
  obtain s' ds ws where run: "io_run (MuxStreamAsyncRW_io script_io (\<lambda>_. [])) ?ops demo_rw = (s', ds, ws)" by (rule prod_cases3)
  then have out: "ds = [1, 2]" "ws = [8, 9, 6]" "info_id (aw_info (rw_write s')) = 3"
    by (auto simp: io_exec_def MuxStreamAsyncRW_io_def rw_poll_write_def rw_poll_write_vectored_def rw_poll_read_def
        aw_poll_write_def aw_poll_write_vectored_def with_env_def async_poll_write_def ws_send_def to_io_def
        demo_rw_def ready_env_def MuxStreamAsyncWrite_new_def MuxStreamWrite_new_def StreamInfo_new_def script_io_def)
  have "\<forall>opn \<in> set ?ops. op_ok opn" by simp
  from async_rw_exact [OF script.async_reader_axioms this run] out run show ?thesis
    by (auto simp: sent_data_def demo_rw_def)
qed

section \<open>What the writing half does not do\<close>

text \<open>It does not look at the credit of the stream.\<close>

lemma async_write_ignores_credit:
  assumes "e_poll_lock e = Ready ()" "e_poll_ready e = Ready (Ok ())"
    and "ws_accepts w (ws_sent w) (Packet_encode (new_data (info_id i) (Borrowed buf))) = None"
  shows "snd (snd (async_poll_write e buf s i w)) = Ready (Ok (length buf))"
  using assms by (simp add: async_poll_write_def ws_send_def)

text \<open>It keeps the sink when the transport fails, so that nobody else can send.\<close>

lemma async_write_failure_keeps_lock:
  assumes "e_poll_lock e = Ready ()" "e_poll_ready e = Ready (Err x)"
  shows "async_poll_write e buf s i w = (s\<lparr>aw_locked := True\<rparr>, w, Ready (Err x))"
  using assms by (simp add: async_poll_write_def Let_def)

section \<open>What a CLOSE does to a reader\<close>

text \<open>
  A CLOSE ends the reader of its stream at once: the payloads that arrived before it and are still queued stay in
  the queue, and no later poll gives them.
\<close>

theorem close_discards_unread:
  assumes "flume_laws fl" "i \<noteq> 0" "map_of (streams m) i = Some r" "handle_close_packet fl i close m = (m', b)"
  shows "fl_queue fl (c_chan (cells (hp m') r)) = fl_queue fl (c_chan (cells (hp m) r))
    \<and> read_poll_next fl e (c_chan (cells (hp m') r)) rd (c_info (cells (hp m') r)) w
      = (c_chan (cells (hp m') r), rd, c_info (cells (hp m') r), w, Ready None)"
proof -
  from assms(2-4) have "c_chan (cells (hp m') r) = fl_drop_tx fl (c_chan (cells (hp m) r))"
    by (auto simp: handle_close_packet_def)
  then show ?thesis by (simp add: read_poll_next_def flume_drop_tx [OF assms(1)])
qed


theorem close_discards_unread_witness:
  "\<exists>m' b. handle_close_packet list_flume 1 \<lparr>reason = Voluntary\<rparr> (demo_mux\<lparr>streams := [(1, 0)],
      hp := (demo_heap\<lparr>cells := \<lambda>_. \<lparr>c_info = StreamInfo_new 1 EnabledSendMessages 4,
        c_chan = \<lparr>lc_queue = [[7, 8]], lc_cap = Some 4, lc_disc = False, lc_alive = True\<rparr>\<rparr>\<rparr>)\<rparr>) = (m', b)
    \<and> fl_queue list_flume (c_chan (cells (hp m') 0)) = [[7, 8]]
    \<and> snd (snd (snd (snd (read_poll_next list_flume ready_env (c_chan (cells (hp m') 0)) MuxStreamRead_new
         (c_info (cells (hp m') 0)) demo_ws)))) = Ready None"
proof -
  let ?m = "demo_mux\<lparr>streams := [(1, 0)], hp := (demo_heap\<lparr>cells := \<lambda>_. \<lparr>c_info = StreamInfo_new 1 EnabledSendMessages 4,
        c_chan = \<lparr>lc_queue = [[7, 8]], lc_cap = Some 4, lc_disc = False, lc_alive = True\<rparr>\<rparr>\<rparr>)\<rparr>"
  obtain m' b where m': "handle_close_packet list_flume 1 \<lparr>reason = Voluntary\<rparr> ?m = (m', b)" by force
  have "map_of (streams ?m) 1 = Some 0" by simp
  from close_discards_unread [OF list_flume_laws _ this m', of ready_env MuxStreamRead_new demo_ws] m'
  show ?thesis by (auto simp: list_flume_def)
qed

end
