(* ===== verification/Bench_Client.thy ===== *)
theory Bench_Client
  imports Mux_Adaptors Server_Wisp
begin

text \<open>
  The command line client that measures a server, \<open>simple-wisp-client/src/main.rs\<close>: its options, the connection it
  makes for them, the streams it opens and what it reports.

  Parameters: the websocket connection, the key files, and what the multiplexor task receives. The moving average is
  only printed.
\<close>

section \<open>Options\<close>

record Cli =
  cli_wisp :: rstring
  cli_tcp :: "rstring \<times> u16"
  cli_streams :: nat
  cli_packet_size :: nat
  cli_udp :: bool
  cli_auth :: "rstring option"
  cli_certauth :: "rstring option"
  cli_motd :: bool
  cli_wisp_v2 :: bool

text \<open>\<open>join\<close> with a one-byte separator.\<close>

fun join_on :: "u8 \<Rightarrow> rstring list \<Rightarrow> rstring" where
  "join_on c [] = []"
| "join_on c [x] = x"
| "join_on c (x # y # ys) = x @ c # join_on c (y # ys)"

definition parse_auth :: "rstring \<Rightarrow> rstring \<times> rstring" where
  "parse_auth s = (let pieces = split_on 58 s in (hd pieces, join_on 58 (tl pieces)))"

text \<open>\<open>get_cert\<close>: the signer of a key file and the hash of its public key.\<close>

record key_store =
  ks_read :: "rstring \<Rightarrow> rstring option"
  ks_from_pem :: "rstring \<Rightarrow> ((bytes \<Rightarrow> bytes option) \<times> bytes) option"
  ks_sha256 :: "bytes \<Rightarrow> bytes"

definition get_cert :: "key_store \<Rightarrow> rstring \<Rightarrow> SigningKey option" where
  "get_cert ks path = Option.bind (ks_read ks path) (\<lambda>pem. Option.bind (ks_from_pem ks pem) (\<lambda>(sign, public).
     Some (SigningKey_new_ed25519 sign (ks_sha256 ks public))))"

section \<open>Connecting\<close>

datatype bench_error = NoConnection | NoCertificate | BenchMux WispError

text \<open>The extensions that are offered, and the ids of those that are required.\<close>

definition bench_extensions :: "key_store \<Rightarrow> Cli \<Rightarrow> (AnyProtocolExtensionBuilder list \<times> u8 list, bench_error) res" where
  "bench_extensions ks opts =
    (let udp = (if cli_udp opts then ([UdpBuilder], [Udp_ID]) else ([], []));
         motds = (if cli_motd opts then [MotdBuilder MotdClient] else []);
         auth = (case cli_auth opts of
             None \<Rightarrow> ([], [])
           | Some a \<Rightarrow> ([PasswordBuilder (PwbClientBeforeServerInfo (Some (parse_auth a)))], [PASSWORD_PROTOCOL_EXTENSION_ID]))
     in case cli_certauth opts of
          None \<Rightarrow> Ok (fst udp @ motds @ fst auth, snd udp @ snd auth)
        | Some path \<Rightarrow> (case get_cert ks path of
              None \<Rightarrow> Err NoCertificate
            | Some k \<Rightarrow> Ok (fst udp @ motds @ fst auth @ [CertAuthBuilder (ClientBeforeChallenge (Some k))],
                snd udp @ snd auth @ [CertAuth_ID])))"

text \<open>\<open>None\<close> while the task of a connection that is given up still waits; \<open>inps\<close> is what it receives.\<close>

definition bench_create_mux ::
    "crypto \<Rightarrow> key_store \<Rightarrow> 'c flume \<Rightarrow> (rstring \<Rightarrow> (bytes wres list \<times> ws_write) option) \<Rightarrow> input list
      \<Rightarrow> 'c heap \<Rightarrow> ext_env \<Rightarrow> Cli \<Rightarrow> (('c, unit) Multiplexor, bench_error) res option" where
  "bench_create_mux cr ks fl connect_ws inps h en opts = (case connect_ws (cli_wisp opts) of
      None \<Rightarrow> Some (Err NoConnection)
    | Some (rx, w) \<Rightarrow> (case bench_extensions ks opts of
        Err e \<Rightarrow> Some (Err e)
      | Panic \<Rightarrow> Some Panic
      | Ok (bs, ids) \<Rightarrow>
          (if cli_wisp_v2 opts then
             (case client_create cr rx w (Some (WispV2Handshake_new bs)) h en of
                (w, Ok mx) \<Rightarrow> (case with_required_extensions fl (ClientActor fl) ids inps mx of
                    (mx, None) \<Rightarrow> None
                  | (mx, Some r) \<Rightarrow> Some (map_err BenchMux (res_bind r (\<lambda>_. Ok mx))))
              | (w, Err e) \<Rightarrow> Some (Err (BenchMux e))
              | (w, Panic) \<Rightarrow> Some Panic)
           else Some (map_err BenchMux (snd (client_create cr rx w None h en))))))"

section \<open>Measuring\<close>

text \<open>The streams are opened one after the other; the first that fails ends the program.\<close>

fun open_streams :: "bool \<Rightarrow> AnyProtocolExtension list \<Rightarrow> rstring \<times> u16 \<Rightarrow> nat \<Rightarrow> nat \<Rightarrow> (WsEvent list, WispError) res" where
  "open_streams mux_gone exts addr 0 ch = Ok []"
| "open_streams mux_gone exts addr (Suc n) ch =
    res_bind (new_stream mux_gone exts Tcp (fst addr) (snd addr) ch) (\<lambda>ev.
    res_bind (open_streams mux_gone exts addr n (Suc ch)) (\<lambda>evs. Ok (ev # evs)))"

text \<open>Every 100 ms: the number of packets so far; \<open>top\<close> is the largest difference. Times are in seconds.\<close>

record bench_stats =
  last_time :: nat
  top :: nat

definition bench_tick :: "nat \<Rightarrow> bench_stats \<Rightarrow> bench_stats" where
  "bench_tick now s = (let d = now - last_time s in
     \<lparr>last_time = now, top = (if top s < d then d else top s)\<rparr>)"

definition bench_rate :: "nat \<Rightarrow> nat \<Rightarrow> nat \<Rightarrow> nat option" where
  "bench_rate cnt packet_size secs = (if secs = 0 then None else Some (cnt * packet_size div secs))"

text \<open>
  The first task to end decides: its error is returned at once, otherwise the others are stopped, the connection is closed
  and the results are printed.
\<close>

definition bench_finish :: "unit wres \<Rightarrow> bool \<Rightarrow> nat \<Rightarrow> nat \<Rightarrow> nat \<Rightarrow> (WsEvent \<times> nat option, WispError) res" where
  "bench_finish out mux_gone cnt packet_size secs =
    res_bind out (\<lambda>_. res_bind (mux_close mux_gone) (\<lambda>ev. Ok (ev, bench_rate cnt packet_size secs)))"

section \<open>Properties\<close>

lemma split_on_not_Nil: "split_on c s \<noteq> []"
  by (induction c s rule: split_on.induct) (auto split: list.split)

lemma join_split: "join_on c (split_on c s) = s"
proof (induction c s rule: split_on.induct)
  case (2 c x xs)
  then show ?case
    using split_on_not_Nil [of c xs] by (cases "(c, split_on c xs)" rule: join_on.cases) auto
qed simp

lemma parse_auth_split_once:
  "parse_auth s = (case split_once 58 s of Some up \<Rightarrow> up | None \<Rightarrow> (s, []))"
proof (induction s)
  case (Cons x xs)
  show ?case
  proof (cases "x = 58")
    case True
    then show ?thesis by (simp add: parse_auth_def join_split)
  next
    case False
    obtain y ys where s: "split_on 58 xs = y # ys" using split_on_not_Nil [of 58 xs] by (cases "split_on 58 xs") auto
    with False Cons show ?thesis by (auto simp: parse_auth_def Let_def split: option.splits)
  qed
qed (simp add: parse_auth_def)

text \<open>
  The credentials of \<open>--auth\<close> are cut at the first colon: a password keeps its colons, and the two parts joined are
  what was given; without a colon the password is empty.
\<close>

lemma parse_auth_exact:
  "58 \<notin> set u \<Longrightarrow> parse_auth (u @ 58 # p) = (u, p)"
  "58 \<notin> set u \<Longrightarrow> parse_auth u = (u, [])"
proof -
  have "58 \<notin> set u \<Longrightarrow> split_once 58 (u @ 58 # p) = Some (u, p)" by (induction u) auto
  moreover have "58 \<notin> set u \<Longrightarrow> split_once 58 u = None" by (induction u) auto
  ultimately show "58 \<notin> set u \<Longrightarrow> parse_auth (u @ 58 # p) = (u, p)" "58 \<notin> set u \<Longrightarrow> parse_auth u = (u, [])"
    by (simp_all add: parse_auth_split_once)
qed

lemma with_required_Ok:
  assumes "with_required_extensions fl ops required inps mx = (mx', Some (Ok u))"
  shows "mx' = mx \<and> set required \<subseteq> set (get_extension_ids mx)"
proof (cases "missing_extensions required (supported_extensions mx) = []")
  case True
  with assms show ?thesis
    by (force simp: with_required_extensions_def missing_extensions_def filter_empty_conv list_ex_iff get_extension_ids_def)
next
  case False
  obtain m r where run: "into_future fl ops (inps @ [FromActor (EvEndFut (Some ExtensionsIncompatible))]) (mx_inner mx) = (m, r)"
    by force
  from False assms run show ?thesis
    by (cases r; cases "the r") (simp_all add: with_required_extensions_def Let_def)
qed

text \<open>
  With version 2 the client measures only over a connection that has everything it was told to use: the call always
  returns, and a connection that it returns supports UDP when \<open>--udp\<close> is given, the password extension
  when \<open>--auth\<close> is given and certificates when \<open>--certauth\<close> is given.
\<close>

theorem bench_requires_options:
  assumes "cli_wisp_v2 opts"
  shows "bench_create_mux cr ks fl connect_ws inps h en opts \<noteq> None
    \<and> (\<forall>mx. bench_create_mux cr ks fl connect_ws inps h en opts = Some (Ok mx) \<longrightarrow>
        (cli_udp opts \<longrightarrow> Udp_ID \<in> set (get_extension_ids mx))
      \<and> (cli_auth opts \<noteq> None \<longrightarrow> PASSWORD_PROTOCOL_EXTENSION_ID \<in> set (get_extension_ids mx))
      \<and> (cli_certauth opts \<noteq> None \<longrightarrow> CertAuth_ID \<in> set (get_extension_ids mx)))"
proof (cases "connect_ws (cli_wisp opts)")
  case None
  then show ?thesis by (simp add: bench_create_mux_def)
next
  case (Some c)
  obtain rx w where c: "c = (rx, w)" by force
  show ?thesis
  proof (cases "bench_extensions ks opts")
    case (Ok b)
    obtain bs ids where b: "b = (bs, ids)" by force
    have ids: "(cli_udp opts \<longrightarrow> Udp_ID \<in> set ids) \<and> (cli_auth opts \<noteq> None \<longrightarrow> PASSWORD_PROTOCOL_EXTENSION_ID \<in> set ids)
      \<and> (cli_certauth opts \<noteq> None \<longrightarrow> CertAuth_ID \<in> set ids)"
      using Ok b by (auto simp: bench_extensions_def Let_def split: option.splits if_splits)
    obtain w' r where made: "client_create cr rx w (Some (WispV2Handshake_new bs)) h en = (w', r)" by force
    show ?thesis
    proof (cases r)
      case made_ok: (Ok mx)
      obtain mx' q where req: "with_required_extensions fl (ClientActor fl) ids inps mx = (mx', q)" by force
      have "q \<noteq> None"
        using req into_future_ends [of fl "ClientActor fl" inps "Some ExtensionsIncompatible" "mx_inner mx"]
        by (auto simp: with_required_extensions_def Let_def split: if_splits prod.splits option.splits)
      then obtain ret where q: "q = Some ret" by blast
      have "mx' = mx \<and> set ids \<subseteq> set (get_extension_ids mx)" if "ret = Ok ()"
        using with_required_Ok [of fl "ClientActor fl" ids inps mx mx' "()"] req q that by simp
      with ids show ?thesis
        using assms by (cases ret) (auto simp: bench_create_mux_def Some c Ok b made made_ok req q)
    qed (use assms in \<open>simp_all add: bench_create_mux_def Some c Ok b made\<close>)
  qed (simp_all add: bench_create_mux_def Some c)
qed

definition demo_cli :: Cli where
  "demo_cli = \<lparr>cli_wisp = str ''ws://localhost'', cli_tcp = (str ''127.0.0.1'', 80), cli_streams = 1, cli_packet_size = 1,
     cli_udp = True, cli_auth = None, cli_certauth = None, cli_motd = True, cli_wisp_v2 = True\<rparr>"

definition demo_keys :: key_store where
  "demo_keys = \<lparr>ks_read = \<lambda>_. None, ks_from_pem = \<lambda>_. None, ks_sha256 = \<lambda>b. b\<rparr>"

definition demo_connect_ws :: "rstring \<Rightarrow> (bytes wres list \<times> ws_write) option" where
  "demo_connect_ws uri = Some ([Ok demo_server_info, Ok (Packet_encode (new_continue 0 32))], demo_ws)"

lemma demo_bench_handshake:
  "client_handshake demo_crypto [Ok demo_server_info, Ok (Packet_encode (new_continue 0 32))] demo_ws
     (Some (WispV2Handshake_new [UdpBuilder, MotdBuilder MotdClient])) =
   (demo_ws\<lparr>ws_sent := [5 # put_u32_le 0 @ [2, 0, 1] @ put_u32_le 0 @ 4 # put_u32_le 0]\<rparr>,
    Ok (\<lparr>kind = V2 [UdpExtension, MotdExtension \<lparr>motd_role = Client, motd = [104, 105]\<rparr>],
         downgraded = False, hs_buffer_size = 32\<rparr>, []))"
  by (simp add: handshake_eval info_decode_eval demo_server_info_def get_supported_extensions_def read_buffer_size_Ok)

theorem bench_requires_options_witness:
  "\<exists>mx. bench_create_mux demo_crypto demo_keys list_flume demo_connect_ws [] demo_heap demo_env demo_cli = Some (Ok mx)
     \<and> Udp_ID \<in> set (get_extension_ids mx)"
proof -
  have v2: "cli_wisp_v2 demo_cli" by (simp add: demo_cli_def)
  obtain mx where "bench_create_mux demo_crypto demo_keys list_flume demo_connect_ws [] demo_heap demo_env demo_cli = Some (Ok mx)"
    by (simp add: bench_create_mux_def demo_connect_ws_def bench_extensions_def demo_cli_def client_create_def
        demo_bench_handshake create_mux_def with_required_extensions_def missing_extensions_def extension_get_id_def)
  with bench_requires_options [OF v2, of demo_crypto demo_keys list_flume demo_connect_ws "[]" demo_heap demo_env] show ?thesis
    by (auto simp: demo_cli_def)
qed

text \<open>Without version 2 the credentials are not used: the connection is made as if they were not given.\<close>

lemma auth_needs_v2:
  assumes "\<not> cli_wisp_v2 opts" "cli_certauth opts = None"
  shows "bench_create_mux cr ks fl connect_ws inps h en opts
    = bench_create_mux cr ks fl connect_ws inps h en (opts\<lparr>cli_auth := None\<rparr>)"
  using assms by (auto simp: bench_create_mux_def bench_extensions_def Let_def split: option.splits)

text \<open>When the server ends the connection first, closing it fails and no results are printed.\<close>

lemma results_lost: "bench_finish (Ok ()) True cnt packet_size secs = Err MuxMessageFailedToSend"
  by (simp add: bench_finish_def mux_close_def close_internal_def)

text \<open>The best interval is the largest difference between two counts.\<close>

lemma bench_top:
  "top (fold bench_tick nows s) = foldr max (map (\<lambda>(a, b). b - a) (zip (last_time s # nows) nows)) (top s)"
proof (induction nows arbitrary: s)
  case (Cons now nows)
  have swap: "foldr max xs (max a b) = max b (foldr max xs a)" for xs and a b :: nat
    by (induction xs) auto
  have "top (bench_tick now s) = max (top s) (now - last_time s)" "last_time (bench_tick now s) = now"
    by (simp_all add: bench_tick_def Let_def max_def)
  with Cons [of "bench_tick now s"] show ?case by (simp add: swap)
qed simp

end
