(* ===== verification/End_To_End.thy ===== *)
theory End_To_End
  imports Mux_Adaptors
begin

text \<open>
  From the application that writes to a stream of the client to the reader of that stream on the server: the
  AsyncWrite adaptor of \<open>stream/compat.rs\<close>, the packets on the wire, the server's handler of DATA packets and the
  reader of \<open>stream/mod.rs\<close>, with arrivals and reads in any order.
\<close>

section \<open>What a run of a server stream delivers\<close>

type_synonym 'c arrive = "bytes \<Rightarrow> 'c sstream \<Rightarrow> 'c sstream"

text \<open>A run of arrivals and polls: the payloads it delivers, and whether every event was allowed.\<close>

fun srun :: "'c arrive \<Rightarrow> 'c flume \<Rightarrow> sevent list \<Rightarrow> 'c sstream \<Rightarrow> 'c sstream \<times> bytes list" where
  "srun arr fl [] s = (s, [])"
| "srun arr fl (Arrive d # evs) s = srun arr fl evs (arr d s)"
| "srun arr fl (PollRead e # evs) s = (case poll_read fl e s of
      (s', Ready (Some (Ok d))) \<Rightarrow> map_prod id ((#) d) (srun arr fl evs s')
    | (s', out) \<Rightarrow> srun arr fl evs s')"

fun ok_run :: "'c arrive \<Rightarrow> (sevent \<Rightarrow> 'c sstream \<Rightarrow> bool) \<Rightarrow> 'c flume \<Rightarrow> sevent list \<Rightarrow> 'c sstream \<Rightarrow> bool" where
  "ok_run arr ok fl [] s \<longleftrightarrow> True"
| "ok_run arr ok fl (ev # evs) s \<longleftrightarrow> ok ev s \<and> ok_run arr ok fl evs
     (case ev of Arrive d \<Rightarrow> arr d s | PollRead e \<Rightarrow> fst (poll_read fl e s))"

fun arrivals :: "sevent list \<Rightarrow> bytes list" where
  "arrivals [] = []"
| "arrivals (Arrive d # evs) = d # arrivals evs"
| "arrivals (PollRead e # evs) = arrivals evs"

text \<open>Payloads that arrived and were not delivered yet: the one in hand, then the queue.\<close>

definition held :: "'c flume \<Rightarrow> 'c sstream \<Rightarrow> bytes list" where
  "held fl s = (case r_chunk (ss_read s) of None \<Rightarrow> [] | Some c \<Rightarrow> [c]) @ fl_queue fl (c_chan (ss_cell s))"

text \<open>
  A stream that keeps everything in order: an allowed arrival goes behind what is held, an allowed poll gives the
  first payload that is held or nothing yet.
\<close>

locale fifo_stream =
  fixes fl :: "'c flume" and arr :: "'c arrive" and good :: "'c sstream \<Rightarrow> bool" and ok :: "sevent \<Rightarrow> 'c sstream \<Rightarrow> bool"
  assumes arrives: "good s \<Longrightarrow> ok (Arrive d) s \<Longrightarrow> good (arr d s) \<and> held fl (arr d s) = held fl s @ [d]"
    and polls: "good s \<Longrightarrow> ok (PollRead e) s \<Longrightarrow> poll_read fl e s = (s', out) \<Longrightarrow> good s' \<and>
      (out = Pending \<and> held fl s' = held fl s \<or> (\<exists>d. out = Ready (Some (Ok d)) \<and> held fl s = d # held fl s'))"
begin

lemma run_fifo:
  "good s \<Longrightarrow> ok_run arr ok fl evs s \<Longrightarrow> srun arr fl evs s = (s', ds)
    \<Longrightarrow> good s' \<and> held fl s @ arrivals evs = ds @ held fl s'"
proof (induction evs arbitrary: s ds)
  case (Cons ev evs)
  show ?case
  proof (cases ev)
    case (Arrive d)
    with Cons.prems Cons.IH [of "arr d s" ds] arrives [of s d] show ?thesis by simp
  next
    case (PollRead e)
    obtain s1 out where p: "poll_read fl e s = (s1, out)" by force
    from Cons.prems p PollRead have rest: "ok_run arr ok fl evs s1" and "ok (PollRead e) s" by simp_all
    with polls [OF Cons.prems(1) _ p] have "good s1" and
      "out = Pending \<and> held fl s1 = held fl s \<or> (\<exists>d. out = Ready (Some (Ok d)) \<and> held fl s = d # held fl s1)"
      by blast+
    with Cons.IH [of s1] Cons.prems p rest PollRead show ?thesis
      by (auto simp: map_prod_def split: prod.splits)
  qed
qed simp

end

section \<open>Streams of the server\<close>

definition live :: "'c flume \<Rightarrow> u32 \<Rightarrow> 'c sstream \<Rightarrow> bool" where
  "live fl b s \<longleftrightarrow> ledger fl b s \<and> \<not> fl_is_disconnected fl (c_chan (ss_cell s))"

lemma live_arrive:
  assumes "flume_laws fl" "live fl b s" "credit_ok fl (Arrive d) s"
  shows "live fl b (sstep fl (Arrive d) s)" "held fl (sstep fl (Arrive d) s) = held fl s @ [d]"
proof -
  from assms have l: "ledger fl b s" and c: "flow_control (c_info (ss_cell s)) \<noteq> 0"
    and disc: "\<not> fl_is_disconnected fl (c_chan (ss_cell s))"
    by (simp_all add: live_def credit_ok_def)
  obtain ch where ch: "fl_try_send fl d (c_chan (ss_cell s)) = Some ch" "fl_queue fl ch = fl_queue fl (c_chan (ss_cell s)) @ [d]"
    by (rule arrive_accepted [OF assms(1) l c])
  have cap: "fl_capacity fl (c_chan (ss_cell s)) \<noteq> Some 0" using l ledger_room [OF l c] by (auto simp: ledger_def)
  with assms(1) ch(1) have "fl_obs fl ch = (fl_queue fl (c_chan (ss_cell s)) @ [d], fl_capacity fl (c_chan (ss_cell s)),
      fl_is_disconnected fl (c_chan (ss_cell s)), True)"
    by (auto simp: flume_laws_def fl_send_law_def split: option.splits)
  with disc have "\<not> fl_is_disconnected fl ch" by (simp add: fl_obs_def)
  with ledger_arrive [OF assms(1) l c, of d] ch
  show "live fl b (sstep fl (Arrive d) s)" "held fl (sstep fl (Arrive d) s) = held fl s @ [d]"
    by (simp_all add: live_def held_def sstep_def arrive_eq)
qed

lemma read_deliver_out:
  assumes "read_deliver e r i w chunk wr = (r', i', w', out)" "\<not> poll_failed out" "r_chunk r = None"
  shows "(out = Ready (Some (Ok chunk)) \<and> r_chunk r' = None) \<or> (out = Pending \<and> r_chunk r' = Some chunk)"
  using assms
  by (auto simp: read_deliver_def read_grant_def Let_def poll_failed_def split: if_splits poll.splits res.splits prod.splits)

lemma live_poll:
  assumes "flume_laws fl" "live fl b s" "poll_read fl e s = (s', out)" "\<not> poll_failed out"
  shows "live fl b s' \<and> (case out of
      Ready (Some (Ok d)) \<Rightarrow> held fl s = d # held fl s' | Ready None \<Rightarrow> False | _ \<Rightarrow> held fl s' = held fl s)"
proof -
  let ?c = "c_chan (ss_cell s)" and ?r = "ss_read s" and ?i = "c_info (ss_cell s)" and ?w = "ss_ws s"
  from assms(2) have l: "ledger fl b s" and disc: "\<not> fl_is_disconnected fl ?c" by (simp_all add: live_def)
  obtain c1 r1 i1 w1 where p: "read_poll_next fl e ?c ?r ?i ?w = (c1, r1, i1, w1, out)"
    and s': "s' = \<lparr>ss_cell = \<lparr>c_info = i1, c_chan = c1\<rparr>, ss_read = r1, ss_ws = w1\<rparr>"
    using assms(3) by (auto simp: poll_read_def split: prod.splits)
  have l': "ledger fl b s'" using poll_read_ledger [OF assms(1) l assms(3,4)] by blast
  show ?thesis
  proof (cases "r_chunk ?r")
    case (Some chunk)
    with p disc have "c1 = ?c" "read_deliver e (?r\<lparr>r_chunk := None\<rparr>) ?i ?w chunk True = (r1, i1, w1, out)"
      by (auto simp: read_poll_next_def)
    with read_deliver_out [OF this(2) assms(4)] l' disc Some show ?thesis
      by (auto simp: live_def held_def s')
  next
    case None
    obtain c2 x where n: "fl_poll_next fl ?c = (c2, x)" by force
    from assms(1) have law: "fl_recv_law fl ?c" by (simp add: flume_laws_def)
    with n disc have obs: "x = (case fl_queue fl ?c of [] \<Rightarrow> Pending | y # q \<Rightarrow> Ready (Some y))"
      "fl_queue fl c2 = tl (fl_queue fl ?c)" "\<not> fl_is_disconnected fl c2"
      by (auto simp: fl_recv_law_def fl_obs_def split: list.splits)
    show ?thesis
    proof (cases "fl_queue fl ?c")
      case Nil
      with p disc None n obs l' show ?thesis by (auto simp: read_poll_next_def live_def held_def s')
    next
      case (Cons chunk q)
      with p disc None n obs have "c1 = c2" "read_deliver e ?r ?i ?w chunk False = (r1, i1, w1, out)"
        by (auto simp: read_poll_next_def)
      with read_deliver_out [OF this(2) assms(4) None] l' None Cons obs show ?thesis
        by (auto simp: live_def held_def s')
    qed
  qed
qed

definition server_arrive :: "'c flume \<Rightarrow> 'c arrive" where
  "server_arrive fl d s = sstep fl (Arrive d) s"

lemma server_fifo:
  assumes "flume_laws fl"
  shows "fifo_stream fl (server_arrive fl) (live fl b) (credit_ok fl)"
proof
  fix s s' :: "'a sstream" and d e out
  show "live fl b s \<Longrightarrow> credit_ok fl (Arrive d) s \<Longrightarrow>
      live fl b (server_arrive fl d s) \<and> held fl (server_arrive fl d s) = held fl s @ [d]"
    using live_arrive [OF assms] by (simp add: server_arrive_def)
  assume s: "live fl b s" "credit_ok fl (PollRead e) s" "poll_read fl e s = (s', out)"
  then have "\<not> poll_failed out"
    by (auto simp: credit_ok_def poll_failed_def split: poll.splits option.splits res.splits)
  with live_poll [OF assms s(1,3) this] show "live fl b s' \<and>
      (out = Pending \<and> held fl s' = held fl s \<or> (\<exists>d. out = Ready (Some (Ok d)) \<and> held fl s = d # held fl s'))"
    by (auto simp: poll_failed_def split: poll.splits option.splits res.splits)
qed

interpretation server_stream: fifo_stream list_flume "server_arrive list_flume" "live list_flume b" "credit_ok list_flume" for b
  by (rule server_fifo [OF list_flume_laws])

section \<open>Streams of the client\<close>

text \<open>
  The client's handler of DATA packets, applied to a heap that holds just this cell. The channel of a client's stream has
  no bound, and its reader grants no credit.
\<close>

definition client_arrive :: "'c flume \<Rightarrow> 'c arrive" where
  "client_arrive fl d s = s\<lparr>ss_cell :=
     cells (fst (default_handle_data_packet fl 0 d [(0, 0)] \<lparr>cells = (\<lambda>_. ss_cell s), next_ref = 1, woken = []\<rparr>)) 0\<rparr>"

definition cstream_new :: "'c flume \<Rightarrow> u32 \<Rightarrow> StreamType \<Rightarrow> u8 list \<Rightarrow> u32 \<Rightarrow> ws_write \<Rightarrow> 'c sstream" where
  "cstream_new fl i ty tys b w =
    \<lparr>ss_cell = \<lparr>c_info = StreamInfo_new i (client_get_flow_control ty tys) b, c_chan = fl_unbounded fl\<rparr>,
     ss_read = MuxStreamRead_new, ss_ws = w\<rparr>"

definition client_live :: "'c flume \<Rightarrow> 'c sstream \<Rightarrow> bool" where
  "client_live fl s \<longleftrightarrow> flow_status (c_info (ss_cell s)) \<noteq> EnabledSendMessages
     \<and> fl_capacity fl (c_chan (ss_cell s)) = None \<and> fl_rx_alive fl (c_chan (ss_cell s))
     \<and> \<not> fl_is_disconnected fl (c_chan (ss_cell s)) \<and> r_chunk (ss_read s) = None"

lemma client_fifo:
  assumes "flume_laws fl"
  shows "fifo_stream fl (client_arrive fl) (client_live fl) (\<lambda>_ _. True)"
proof
  fix s s' :: "'a sstream" and d e out
  let ?c = "c_chan (ss_cell s)"
  assume good: "client_live fl s"
  have send: "fl_send_law fl d ?c" and law: "fl_recv_law fl ?c"
    using assms good by (simp_all add: flume_laws_def client_live_def)
  with good obtain ch where ch: "fl_try_send fl d ?c = Some ch" "fl_obs fl ch = (fl_queue fl ?c @ [d], None, False, True)"
    by (auto simp: fl_send_law_def fl_full_def client_live_def split: option.splits)
  then have "client_arrive fl d s = s\<lparr>ss_cell := (ss_cell s)\<lparr>c_chan := ch\<rparr>\<rparr>"
    by (simp add: client_arrive_def default_handle_data_packet_def set_chan_def)
  with good ch show "client_live fl (client_arrive fl d s) \<and> held fl (client_arrive fl d s) = held fl s @ [d]"
    by (simp add: client_live_def held_def fl_obs_def)
  obtain c2 x where n: "fl_poll_next fl ?c = (c2, x)" by force
  with law good have obs: "x = (case fl_queue fl ?c of [] \<Rightarrow> Pending | y # q \<Rightarrow> Ready (Some y))"
      "fl_queue fl c2 = tl (fl_queue fl ?c)" "\<not> fl_is_disconnected fl c2" "fl_capacity fl c2 = None" "fl_rx_alive fl c2"
    by (auto simp: fl_recv_law_def fl_obs_def client_live_def split: list.splits)
  assume "poll_read fl e s = (s', out)"
  with good n obs show "client_live fl s' \<and>
      (out = Pending \<and> held fl s' = held fl s \<or> (\<exists>d. out = Ready (Some (Ok d)) \<and> held fl s = d # held fl s'))"
    by (auto simp: poll_read_def read_poll_next_def read_deliver_def client_live_def held_def split: list.splits)
qed

interpretation client_stream: fifo_stream list_flume "client_arrive list_flume" "client_live list_flume" "\<lambda>_ _. True"
  by (rule client_fifo [OF list_flume_laws])

lemma client_new:
  assumes "flume_laws fl"
  shows "client_live fl (cstream_new fl i ty tys b w)" "held fl (cstream_new fl i ty tys b w) = []"
proof -
  have "fl_obs fl (fl_unbounded fl) = ([], None, False, True)" using assms by (simp add: flume_laws_def)
  then show "client_live fl (cstream_new fl i ty tys b w)" "held fl (cstream_new fl i ty tys b w) = []"
    by (simp_all add: client_live_def held_def cstream_new_def MuxStreamRead_new_def StreamInfo_new_def
        client_get_flow_control_def fl_obs_def)
qed

text \<open>The stream after a CLOSE, and what its reader gives then.\<close>

definition closed :: "'c flume \<Rightarrow> ClosePacket \<Rightarrow> 'c sstream \<Rightarrow> 'c sstream" where
  "closed fl close s = s\<lparr>ss_cell :=
     cells (close_stream fl 0 close \<lparr>cells = (\<lambda>_. ss_cell s), next_ref = 1, woken = []\<rparr>) 0\<rparr>"

lemma polls_after_close:
  assumes "flume_laws fl"
  shows "srun arr fl (map PollRead es) (closed fl close s) = (closed fl close s, [])"
proof (induction es)
  case (Cons e es)
  have "fl_is_disconnected fl (c_chan (ss_cell (closed fl close s)))"
    using flume_drop_tx [OF assms] by (simp add: closed_def)
  then have "poll_read fl e (closed fl close s) = (closed fl close s, Ready None)"
    by (simp add: poll_read_def read_poll_next_def)
  with Cons show ?case by simp
qed simp

section \<open>From the writer to the reader\<close>

text \<open>What the server sees of a stream: messages from the wire and polls of the reader.\<close>

datatype wire_event = Wire bytes | Poll poll_env

fun wire_messages :: "wire_event list \<Rightarrow> bytes list" where
  "wire_messages [] = []"
| "wire_messages (Wire msg # evs) = msg # wire_messages evs"
| "wire_messages (Poll e # evs) = wire_messages evs"

definition message_event :: "u32 \<Rightarrow> bytes \<Rightarrow> sevent list" where
  "message_event i msg = (case Packet_decode msg of
      Ok p \<Rightarrow> if stream_id p = i then (case packet_type p of Data d \<Rightarrow> [Arrive (into_owned d)] | _ \<Rightarrow> []) else []
    | _ \<Rightarrow> [])"

fun stream_events :: "u32 \<Rightarrow> wire_event list \<Rightarrow> sevent list" where
  "stream_events i [] = []"
| "stream_events i (Wire msg # evs) = message_event i msg @ stream_events i evs"
| "stream_events i (Poll e # evs) = PollRead e # stream_events i evs"

lemma arrivals_append [simp]: "arrivals (xs @ ys) = arrivals xs @ arrivals ys"
  by (induction xs rule: arrivals.induct) simp_all

lemma message_event_data: "concat (arrivals (message_event i msg)) = data_of i msg"
  by (simp add: message_event_def data_of_def split: res.split PacketType.split)

lemma arrivals_sent_data: "concat (arrivals (stream_events i evs)) = sent_data i (wire_messages evs)"
  by (induction i evs rule: stream_events.induct) (simp_all add: sent_data_def message_event_data)

lemma sent_data_prefix: "prefix ms ms' \<Longrightarrow> prefix (sent_data i ms) (sent_data i ms')"
  by (auto simp: prefix_def sent_data_def)

lemma live_new:
  assumes "flume_laws fl"
  shows "live fl b (sstream_new fl i b w)" "held fl (sstream_new fl i b w) = []"
proof -
  have "fl_obs fl (fl_bounded fl (unat b)) = ([], Some (unat b), False, True)"
    using assms by (simp add: flume_laws_def)
  then show "live fl b (sstream_new fl i b w)" "held fl (sstream_new fl i b w) = []"
    using ledger_new [OF assms, of b i w]
    by (simp_all add: live_def held_def sstream_new_def MuxStreamRead_new_def fl_obs_def)
qed

lemma exec_keeps_info:
  "io_exec (MuxStreamAsyncRW_io rio t) opn s = Some (s', d, w) \<Longrightarrow> aw_info (rw_write s') = aw_info (rw_write s)"
  by (cases opn) (auto simp: io_exec_def MuxStreamAsyncRW_io_def rw_poll_read_def rw_poll_fill_buf_def rw_consume_def
      rw_poll_write_def rw_poll_write_vectored_def rw_poll_flush_def rw_poll_close_def aw_poll_write_vectored_def
      aw_poll_flush_def aw_poll_close_def with_env_def dest: aw_poll_write_sends
      split: prod.splits poll.splits io.splits list.splits)

lemma run_keeps_info:
  "io_run (MuxStreamAsyncRW_io rio t) ops s = (s', ds, ws) \<Longrightarrow> aw_info (rw_write s') = aw_info (rw_write s)"
  by (induction ops arbitrary: s s' ds ws) (fastforce dest: exec_keeps_info split: option.splits prod.splits)+

lemma writer_sends:
  assumes "async_reader rio rest" "\<forall>opn \<in> set ops. op_ok opn" "io_run (MuxStreamAsyncRW_io rio t) ops s = (s', received, accepted)"
    and "ws_sent (aw_ws (rw_write s)) = []"
  shows "sent_data (info_id (aw_info (rw_write s))) (ws_sent (aw_ws (rw_write s'))) = accepted"
  using async_socket.run_exact [OF rw_stream.is_socket [OF rw_stream.intro [OF assms(1)]] assms(2,3)] assms(4)
    run_keeps_info [OF assms(3)]
  by (simp add: aw_written_def sent_data_def)

text \<open>What a reader that keeps the order has delivered and holds is what arrived for its stream.\<close>

lemma reader_receives:
  assumes "fifo_stream fl arr good ok" "good s" "held fl s = []" "ok_run arr ok fl (stream_events i evs) s"
    and "srun arr fl (stream_events i evs) s = (st, delivered)"
  shows "sent_data i (wire_messages evs) = concat delivered @ concat (held fl st)"
  using fifo_stream.run_fifo [OF assms(1,2,4,5)] assms(3) arrivals_sent_data [of i evs]
  by (metis append_Nil concat_append)

text \<open>
  C4. Bytes written on the client are the bytes read on the server. An application writes to its stream in any way; the
  transport has brought some of the messages that left, in order; and the server's handler and reader
  take them in any order of arrivals and polls, the client staying within its credit. Then what the reader has
  delivered is, without loss, repetition or reordering, the beginning of the bytes that the writes accepted; and once
  all messages arrived, the payloads that the server still holds are exactly the rest.
\<close>

theorem upload_end_to_end:
  assumes "flume_laws fl" "async_reader rio rest" "\<forall>opn \<in> set ops. op_ok opn"
    and "io_run (MuxStreamAsyncRW_io rio t) ops s = (s', received, accepted)"
    and "ws_sent (aw_ws (rw_write s)) = []" "info_id (aw_info (rw_write s)) = i"
    and "prefix (wire_messages evs) (ws_sent (aw_ws (rw_write s')))"
    and "ok_run (server_arrive fl) (credit_ok fl) fl (stream_events i evs) (sstream_new fl i b w)"
    and "srun (server_arrive fl) fl (stream_events i evs) (sstream_new fl i b w) = (st, delivered)"
  shows "prefix (concat delivered) accepted
    \<and> (wire_messages evs = ws_sent (aw_ws (rw_write s')) \<longrightarrow> accepted = concat delivered @ concat (held fl st))"
proof -
  note client = writer_sends [OF assms(2-5), unfolded assms(6)]
  note server = reader_receives [OF server_fifo [OF assms(1)] live_new [OF assms(1)] assms(8,9)]
  obtain zs where "accepted = (concat delivered @ concat (held fl st)) @ zs"
    using sent_data_prefix [OF assms(7), of i] by (auto simp: client server prefix_def)
  with client server show ?thesis by auto
qed

lemma message_event_new_data: "message_event i (Packet_encode (new_data i (Borrowed d))) = [Arrive d]"
  using packet_decode_encode_trail [of "new_data i (Borrowed d)" "[]"]
  by (simp add: message_event_def new_data_def Packet_ok_def Packet_own_def PacketType_ok_def PacketType_own_def)

theorem upload_end_to_end_witness:
  "\<exists>s' st. io_run (MuxStreamAsyncRW_io script_io (\<lambda>_. [])) [OpWrite [7], OpWrite [8, 9]] demo_rw = (s', [], [8, 9])
     \<and> srun (server_arrive list_flume) list_flume (stream_events 3 (map Wire (ws_sent (aw_ws (rw_write s'))) @ [Poll ready_env]))
         (sstream_new list_flume 3 4 demo_ws) = (st, [[8, 9]])
     \<and> concat (held list_flume st) = []"
proof -
  let ?ops = "[OpWrite [7], OpWrite [8, 9]]" and ?s0 = "sstream_new list_flume 3 4 demo_ws"
  let ?msg = "Packet_encode (new_data 3 (Borrowed [8, 9]))"
  obtain s' ds ws where run: "io_run (MuxStreamAsyncRW_io script_io (\<lambda>_. [])) ?ops demo_rw = (s', ds, ws)" by (rule prod_cases3)
  then have out: "ds = []" "ws = [8, 9]" "ws_sent (aw_ws (rw_write s')) = [?msg]"
    by (auto simp: io_exec_def MuxStreamAsyncRW_io_def rw_poll_write_def aw_poll_write_def with_env_def
        async_poll_write_def ws_send_def to_io_def demo_rw_def ready_env_def MuxStreamAsyncWrite_new_def
        MuxStreamWrite_new_def StreamInfo_new_def)
  let ?evs = "[Wire ?msg, Poll ready_env]"
  have evs: "stream_events 3 ?evs = [Arrive [8, 9], PollRead ready_env]" by (simp add: message_event_new_data)
  obtain st dl where srun: "srun (server_arrive list_flume) list_flume (stream_events 3 ?evs) ?s0 = (st, dl)" by force
  have dl: "dl = [[8, 9]]" "ok_run (server_arrive list_flume) (credit_ok list_flume) list_flume (stream_events 3 ?evs) ?s0"
    using srun unfolding evs
    by (auto simp: server_arrive_def sstep_def arrive_eq poll_read_def read_poll_next_def read_deliver_def sstream_new_def MuxStreamRead_new_def
        StreamInfo_new_def list_flume_def credit_ok_def flow_dec_def flow_sub_def Let_def)
  have "\<forall>opn \<in> set ?ops. op_ok opn" by simp
  note whole = upload_end_to_end [OF list_flume_laws script.async_reader_axioms this run _ _ _ dl(2) srun]
  have "ws = concat dl @ concat (held list_flume st)"
    using whole out by (simp add: demo_rw_def StreamInfo_new_def)
  with run srun out dl show ?thesis by auto
qed

text \<open>The run is allowed whatever happens on a client, which has no credit to keep.\<close>

lemma ok_run_True: "ok_run arr (\<lambda>_ _. True) fl evs s"
  by (induction evs arbitrary: s) simp_all

text \<open>
  C5. Downloads, and what a CLOSE costs. The server writes to a stream and closes it; all messages arrive, in order, at a client
  that polls its reader in between. The reader has delivered a beginning of the bytes written, in order, and the client
  holds exactly the rest; after the CLOSE every poll ends the stream, so the download is complete exactly when the reader
  had taken everything before the CLOSE arrived, and otherwise loses exactly what was held.
\<close>

theorem download_end_to_end:
  assumes "flume_laws fl" "async_reader rio rest" "\<forall>opn \<in> set ops. op_ok opn"
    and "io_run (MuxStreamAsyncRW_io rio t) ops s = (s', received, accepted)"
    and "ws_sent (aw_ws (rw_write s)) = []" "info_id (aw_info (rw_write s)) = i"
    and "wire_messages evs = ws_sent (aw_ws (rw_write s'))"
    and "srun (client_arrive fl) fl (stream_events i evs) (cstream_new fl i ty tys b w) = (st, before_close)"
    and "srun (client_arrive fl) fl (map PollRead es) (closed fl close st) = (st', after_close)"
  shows "accepted = concat before_close @ concat (held fl st) \<and> after_close = []
    \<and> (concat (before_close @ after_close) = accepted \<longleftrightarrow> concat (held fl st) = [])"
proof -
  note server = writer_sends [OF assms(2-5), unfolded assms(6)]
  note client = reader_receives [OF client_fifo [OF assms(1)] client_new [OF assms(1)] ok_run_True assms(8)]
  have "after_close = []" using polls_after_close [OF assms(1), of "client_arrive fl" es close st] assms(9) by simp
  with server client assms(7) show ?thesis by auto
qed

theorem download_end_to_end_witness:
  "\<exists>s' st st'. io_run (MuxStreamAsyncRW_io script_io (\<lambda>_. [])) [OpWrite [7], OpWrite [8, 9], OpWrite [6]] demo_rw = (s', [], [8, 9, 6])
     \<and> srun (client_arrive list_flume) list_flume
         (stream_events 3 (map Wire (ws_sent (aw_ws (rw_write s'))) @ [Poll ready_env]))
         (cstream_new list_flume 3 Tcp [1] 4 demo_ws) = (st, [[8, 9]])
     \<and> srun (client_arrive list_flume) list_flume (map PollRead [ready_env, ready_env])
         (closed list_flume \<lparr>reason = Voluntary\<rparr> st) = (st', []) \<and> concat (held list_flume st) = [6]"
proof -
  let ?ops = "[OpWrite [7], OpWrite [8, 9], OpWrite [6]]" and ?s0 = "cstream_new list_flume 3 Tcp [1] 4 demo_ws"
  let ?m1 = "Packet_encode (new_data 3 (Borrowed [8, 9]))" and ?m2 = "Packet_encode (new_data 3 (Borrowed [6]))"
  obtain s' ds ws where run: "io_run (MuxStreamAsyncRW_io script_io (\<lambda>_. [])) ?ops demo_rw = (s', ds, ws)" by (rule prod_cases3)
  then have out: "ds = []" "ws = [8, 9, 6]" "ws_sent (aw_ws (rw_write s')) = [?m1, ?m2]"
    by (auto simp: io_exec_def MuxStreamAsyncRW_io_def rw_poll_write_def aw_poll_write_def with_env_def
        async_poll_write_def ws_send_def to_io_def demo_rw_def ready_env_def MuxStreamAsyncWrite_new_def
        MuxStreamWrite_new_def StreamInfo_new_def)
  let ?evs = "[Wire ?m1, Wire ?m2, Poll ready_env]"
  have evs: "stream_events 3 ?evs = [Arrive [8, 9], Arrive [6], PollRead ready_env]" by (simp add: message_event_new_data)
  obtain st dl where srun: "srun (client_arrive list_flume) list_flume (stream_events 3 ?evs) ?s0 = (st, dl)" by force
  have dl: "dl = [[8, 9]]"
    using srun unfolding evs
    by (auto simp: client_arrive_def default_handle_data_packet_def poll_read_def read_poll_next_def read_deliver_def
        cstream_new_def MuxStreamRead_new_def StreamInfo_new_def list_flume_def client_get_flow_control_def StreamType_into_def set_chan_def)
  obtain st' after where fin: "srun (client_arrive list_flume) list_flume (map PollRead [ready_env, ready_env])
      (closed list_flume \<lparr>reason = Voluntary\<rparr> st) = (st', after)" by force
  have "\<forall>opn \<in> set ?ops. op_ok opn" by simp
  note whole = download_end_to_end [OF list_flume_laws script.async_reader_axioms this run _ _ _ srun fin]
  have "ws = concat dl @ concat (held list_flume st) \<and> after = []"
    using whole out by (simp add: demo_rw_def StreamInfo_new_def)
  with run srun fin out dl show ?thesis by auto
qed

end
