(* ===== verification/Client_Types.thy ===== *)
theory Client_Types
  imports Packet
begin

text \<open>
  The types of the browser client that its parts share, \<open>client/src/lib.rs\<close>: \<open>EpoxyError\<close> and
  \<open>EpoxyClientOptions\<close>, with the parts of a URL.

  Errors of other crates and JavaScript values are carried as the text they are printed as. A URL
  is the record of the parts the \<open>http\<close> crate splits it into; parsing a string into the parts and
  putting the parts together again is done by that crate, and is a parameter where it is used.
  \<open>full\<close> stands for the build feature of that name.
\<close>

section \<open>Errors\<close>

datatype EpoxyError =
    InvalidDnsName rstring
  | WispFailed WispError
  | WispCloseReason CloseReason rstring
  | IoFailed rstring
  | HttpFailed rstring
  | HyperClient rstring
  | Hyper rstring
  | ToStr rstring
  | Rustls rstring
  | Pemfile rstring
  | Webpki rstring
  | WebSocketConnectFailed rstring
  | WispTransport rstring
  | InvalidWispTransport rstring
  | InvalidWispTransportPacket rstring
  | WispTransportClosed
  | FastWebSockets rstring
  | WsInvalidStatusCode nat nat
  | WsInvalidUpgradeHeader rstring
  | WsInvalidConnectionHeader rstring
  | WsInvalidPayload rstring
  | InvalidUrl rstring
  | InvalidUrlScheme "rstring option"
  | NoUrlHost
  | NoUrlPort
  | InvalidRequestBody
  | InvalidRequest
  | InvalidPayload
  | ResponseHeadersFromEntriesFailed
  | ResponseNewFailed
  | StreamingBodyConvertFailed rstring
  | StreamingBodyTeeFailed rstring
  | StreamingBodyCollectFailed rstring

type_synonym 'a eres = "('a, EpoxyError) res"

section \<open>Options\<close>

record EpoxyClientOptions =
  opt_wisp_v2 :: bool
  opt_udp_extension_required :: bool
  opt_title_case_headers :: bool
  opt_ws_title_case_headers :: bool
  opt_websocket_protocols :: "rstring list"
  opt_redirect_limit :: nat
  opt_header_limit :: nat
  opt_user_agent :: rstring
  opt_pem_files :: "rstring list"
  opt_disable_certificate_validation :: bool
  opt_buffer_size :: nat

definition EpoxyClientOptions_default :: EpoxyClientOptions where
  "EpoxyClientOptions_default = \<lparr>
     opt_wisp_v2 = False, opt_udp_extension_required = False, opt_title_case_headers = False,
     opt_ws_title_case_headers = True, opt_websocket_protocols = [], opt_redirect_limit = 10,
     opt_header_limit = 200,
     opt_user_agent = ascii (''Mozilla/5.0 (X11; Linux x86_64) AppleWebKit/537.36 (KHTML, like Gecko) ''
       @ ''Chrome/127.0.0.0 Safari/537.36''),
     opt_pem_files = [], opt_disable_certificate_validation = False, opt_buffer_size = 16384\<rparr>"

section \<open>URLs\<close>

record Uri =
  uri_scheme :: "rstring option"
  uri_authority :: "rstring option"
  uri_path :: "rstring option"
  uri_host :: "rstring option"
  uri_port :: "u16 option"

text \<open>A value that JavaScript passes as a URL, transport, payload or body.\<close>

datatype js_value =
    JsString rstring
  | JsUrl rstring
  | JsArrayBuffer bytes
  | JsFunction
  | JsOther rstring

text \<open>\<open>impl TryFrom<EpoxyUrlInput> for Uri\<close>.\<close>

definition Uri_try_from :: "(rstring \<Rightarrow> Uri option) \<Rightarrow> js_value \<Rightarrow> Uri eres" where
  "Uri_try_from parse v = (case v of
      JsUrl href \<Rightarrow> ok_or (parse href) (HttpFailed href)
    | JsString s \<Rightarrow> ok_or (parse s) (HttpFailed s)
    | JsArrayBuffer d \<Rightarrow> Err (InvalidUrl d)
    | JsFunction \<Rightarrow> Err (InvalidUrl [])
    | JsOther shown \<Rightarrow> Err (InvalidUrl shown))"

end
