(* ===== verification/Client_Fetch.thy ===== *)
theory Client_Fetch
  imports Client_Types Http_Headers "HOL-Library.AList"
begin

text \<open>
  \<open>fetch\<close> of the browser client, \<open>client/src/lib.rs\<close> with \<open>client/src/utils/\<close>: the headers of the request, the
  redirects that are followed, and the response as JavaScript sees it.

  The record \<open>fetch_env\<close> holds what the crate \<open>http\<close> computes: checking and converting header names and
  values, methods and URLs. The HTTP client is the function \<open>answer\<close> from the exchanges so far and a
  request to a response or an error; the exchanges are kept as a log. The names of a header map are in
  lower case, as the crate stores them.
\<close>

section \<open>Requests and responses\<close>

record fetch_env =
  method_from_str :: "rstring \<Rightarrow> rstring option"
  header_name_from_str :: "rstring \<Rightarrow> rstring option"
  header_value_from_str :: "rstring \<Rightarrow> bytes option"
  header_value_to_str :: "bytes \<Rightarrow> rstring option"
  parse_uri :: "rstring \<Rightarrow> Uri option"
  uri_from_parts :: "rstring option \<Rightarrow> rstring option \<Rightarrow> rstring option \<Rightarrow> Uri option"
  uri_to_string :: "Uri \<Rightarrow> rstring"
  canonical_reason :: "u16 \<Rightarrow> rstring option"

text \<open>
  A streaming body reads one branch of a split JavaScript stream and keeps the other one for the next
  clone, which splits it again: that works once. \<open>from_teed\<close> makes a body whose spare branch is unused.
\<close>

datatype StreamingBody = TeedStream bytes bool | FullBody bytes

definition from_teed :: "bytes \<Rightarrow> StreamingBody" where
  "from_teed content = TeedStream content False"

fun body_clone :: "StreamingBody \<Rightarrow> (StreamingBody \<times> StreamingBody) eres" where
  "body_clone (FullBody d) = Ok (FullBody d, FullBody d)"
| "body_clone (TeedStream c used) = (if used then Panic else Ok (TeedStream c True, from_teed c))"

datatype MaybeStreamingBody = Streaming bytes bool | Static bytes

fun into_httpbody :: "MaybeStreamingBody \<Rightarrow> StreamingBody eres" where
  "into_httpbody (Streaming c locked) = (if locked then Err (StreamingBodyTeeFailed []) else Ok (from_teed c))"
| "into_httpbody (Static d) = Ok (FullBody d)"

record http_request =
  rq_method :: rstring
  rq_uri :: Uri
  rq_headers :: HeaderMap
  rq_body :: StreamingBody

record http_response =
  rs_status :: u16
  rs_headers :: HeaderMap
  rs_body :: bytes

type_synonym exchange = "http_request \<times> (http_response, rstring) res"

type_synonym http_client = "exchange list \<Rightarrow> http_request \<Rightarrow> (http_response, rstring) res"

section \<open>Redirects\<close>

definition is_redirect :: "u16 \<Rightarrow> bool" where
  "is_redirect code \<longleftrightarrow> code \<in> set [301, 302, 303, 307, 308]"

definition is_null_body :: "u16 \<Rightarrow> bool" where
  "is_null_body code \<longleftrightarrow> code \<in> set [101, 204, 205, 304]"

definition or_option :: "'a option \<Rightarrow> 'a option \<Rightarrow> 'a option" where
  "or_option x y = (case x of None \<Rightarrow> y | Some _ \<Rightarrow> x)"

definition get_redirect :: "fetch_env \<Rightarrow> Uri \<Rightarrow> bytes \<Rightarrow> Uri eres" where
  "get_redirect env u location =
    res_bind (ok_or (header_value_to_str env location) (ToStr location)) (\<lambda>s.
    res_bind (ok_or (parse_uri env s) (HttpFailed s)) (\<lambda>new.
      ok_or (uri_from_parts env (or_option (uri_scheme new) (uri_scheme u))
          (or_option (uri_authority new) (uri_authority u)) (uri_path new)) (HttpFailed s)))"

datatype EpoxyResponse = Success http_response | Redirect http_response http_request

definition send_req_inner ::
    "fetch_env \<Rightarrow> http_client \<Rightarrow> bool \<Rightarrow> http_request \<Rightarrow> exchange list \<Rightarrow> exchange list \<times> EpoxyResponse eres" where
  "send_req_inner env answer should_redirect req log =
    (case (if should_redirect
           then res_bind (body_clone (rq_body req)) (\<lambda>(b, b'). Ok (req\<lparr>rq_body := b\<rparr>, Some (req\<lparr>rq_body := b'\<rparr>)))
           else Ok (req, None)) of
       Panic \<Rightarrow> (log, Panic)
     | Err e \<Rightarrow> (log, Err e)
     | Ok (req, new_req) \<Rightarrow>
        (let r = answer log req; log = log @ [(req, r)]
         in case r of
              Err e \<Rightarrow> (log, Err (HyperClient e))
            | Panic \<Rightarrow> (log, Panic)
            | Ok resp \<Rightarrow> (log, Ok
                (case new_req of
                   Some n \<Rightarrow>
                     (if is_redirect (rs_status resp) then
                        (case header_get (rs_headers resp) (ascii ''location'') of
                           Some location \<Rightarrow>
                             (case get_redirect env (rq_uri n) location of
                                Ok url \<Rightarrow> Redirect resp (n\<lparr>rq_uri := url\<rparr>)
                              | _ \<Rightarrow> Success resp)
                         | None \<Rightarrow> Success resp)
                      else Success resp)
                 | None \<Rightarrow> Success resp))))"

text \<open>The loop of \<open>send_req\<close>, at most \<open>limit\<close> times; it returns with the last response.\<close>

fun redirect_loop ::
    "fetch_env \<Rightarrow> http_client \<Rightarrow> bool \<Rightarrow> nat \<Rightarrow> EpoxyResponse \<Rightarrow> Uri \<Rightarrow> bool \<Rightarrow> exchange list
      \<Rightarrow> exchange list \<times> (http_response \<times> Uri \<times> bool) eres" where
  "redirect_loop env answer should limit (Success resp) url redirected log = (log, Ok (resp, url, redirected))"
| "redirect_loop env answer should 0 (Redirect resp req) url redirected log = (log, Ok (resp, url, redirected))"
| "redirect_loop env answer should (Suc n) (Redirect resp req) url redirected log =
    (case send_req_inner env answer should req log of
       (log, Ok r) \<Rightarrow> redirect_loop env answer should n r (rq_uri req) True log
     | (log, Err e) \<Rightarrow> (log, Err e)
     | (log, Panic) \<Rightarrow> (log, Panic))"

definition send_req ::
    "fetch_env \<Rightarrow> http_client \<Rightarrow> nat \<Rightarrow> bool \<Rightarrow> http_request \<Rightarrow> exchange list \<times> (http_response \<times> Uri \<times> bool) eres" where
  "send_req env answer redirect_limit should req =
    (case send_req_inner env answer should req [] of
       (log, Ok r) \<Rightarrow> redirect_loop env answer should redirect_limit r (rq_uri req) False log
     | (log, Err e) \<Rightarrow> (log, Err e)
     | (log, Panic) \<Rightarrow> (log, Panic))"

section \<open>Properties of redirects\<close>

text \<open>Where an exchange redirects to, if anywhere.\<close>

definition redirect_of :: "fetch_env \<Rightarrow> bool \<Rightarrow> exchange \<Rightarrow> Uri option" where
  "redirect_of env should x = (case x of
      (req, Ok resp) \<Rightarrow>
        (if should \<and> is_redirect (rs_status resp) then
           Option.bind (header_get (rs_headers resp) (ascii ''location'')) (\<lambda>location.
             case get_redirect env (rq_uri req) location of Ok u \<Rightarrow> Some u | _ \<Rightarrow> None)
         else None)
    | _ \<Rightarrow> None)"

text \<open>The next exchange repeats the request at the URL the one before redirects to.\<close>

definition follows :: "fetch_env \<Rightarrow> bool \<Rightarrow> exchange \<Rightarrow> exchange \<Rightarrow> bool" where
  "follows env should x y \<longleftrightarrow> (\<exists>u. redirect_of env should x = Some u \<and> fst y = (fst x)\<lparr>rq_uri := u\<rparr>)"

text \<open>A request as it is sent: a streaming body has been split if redirects are followed.\<close>

fun sent_body :: "bool \<Rightarrow> StreamingBody \<Rightarrow> StreamingBody" where
  "sent_body should (TeedStream c used) = TeedStream c (used \<or> should)"
| "sent_body should (FullBody d) = FullBody d"

definition as_sent :: "bool \<Rightarrow> http_request \<Rightarrow> http_request" where
  "as_sent should req = req\<lparr>rq_body := sent_body should (rq_body req)\<rparr>"

fun fresh_body :: "StreamingBody \<Rightarrow> bool" where
  "fresh_body (TeedStream c used) \<longleftrightarrow> \<not> used"
| "fresh_body (FullBody d) \<longleftrightarrow> True"

lemma body_clone_fresh:
  "fresh_body b \<Longrightarrow> body_clone b = Ok (sent_body True b, b)"
  by (cases b) (auto simp: from_teed_def)

lemma sent_body_False [simp]: "sent_body False b = b"
  by (cases b) auto

lemma as_sent_uri: "as_sent should (req\<lparr>rq_uri := u\<rparr>) = (as_sent should req)\<lparr>rq_uri := u\<rparr>"
  by (simp add: as_sent_def)

text \<open>One request of the loop, for a body that was not split yet.\<close>

lemma send_req_inner_eq:
  assumes "fresh_body (rq_body req)"
  shows "send_req_inner env answer should req log =
    (let x = (as_sent should req, answer log (as_sent should req))
     in (log @ [x], case snd x of
           Err e \<Rightarrow> Err (HyperClient e) | Panic \<Rightarrow> Panic
         | Ok resp \<Rightarrow> Ok (case redirect_of env should x of
             Some u \<Rightarrow> Redirect resp (req\<lparr>rq_uri := u\<rparr>) | None \<Rightarrow> Success resp)))"
proof (cases should)
  case True
  with body_clone_fresh [OF assms] show ?thesis
    by (auto simp: send_req_inner_def Let_def as_sent_def redirect_of_def bind_eq_None_conv
        split: res.splits option.splits)
next
  case False
  then show ?thesis
    by (auto simp: send_req_inner_def Let_def as_sent_def redirect_of_def split: res.splits)
qed

text \<open>
  A chain of exchanges: each is answered by the client after the ones before it, and each but the
  first follows the redirect of the one before it.
\<close>

definition redirect_chain :: "fetch_env \<Rightarrow> http_client \<Rightarrow> bool \<Rightarrow> exchange list \<Rightarrow> bool" where
  "redirect_chain env answer should log \<longleftrightarrow> log \<noteq> []
     \<and> (\<forall>i < length log. snd (log ! i) = answer (take i log) (fst (log ! i)))
     \<and> successively (follows env should) log"

text \<open>What the last exchange of a chain means for the caller.\<close>

definition chain_result :: "exchange list \<Rightarrow> (http_response \<times> Uri \<times> bool) eres" where
  "chain_result log = (case snd (last log) of
      Ok resp \<Rightarrow> Ok (resp, rq_uri (fst (last log)), 1 < length log)
    | Err e \<Rightarrow> Err (HyperClient e)
    | Panic \<Rightarrow> Panic)"

lemma redirect_chain_single:
  "redirect_chain env answer should [(req, answer [] req)]"
  by (simp add: redirect_chain_def)

lemma redirect_chain_append:
  assumes "redirect_chain env answer should log" "redirect_of env should (last log) = Some u"
    and "q = (fst (last log))\<lparr>rq_uri := u\<rparr>"
  shows "redirect_chain env answer should (log @ [(q, answer log q)])"
proof -
  have "successively (follows env should) (log @ [(q, answer log q)])"
    using assms by (auto simp: redirect_chain_def successively_append_iff follows_def)
  moreover have "snd ((log @ [(q, answer log q)]) ! i) =
      answer (take i (log @ [(q, answer log q)])) (fst ((log @ [(q, answer log q)]) ! i))"
    if "i < Suc (length log)" for i
    using that assms(1) by (cases "i < length log") (auto simp: redirect_chain_def nth_append less_Suc_eq)
  ultimately show ?thesis by (simp add: redirect_chain_def)
qed

text \<open>The response the loop holds, for the last exchange of the log.\<close>

definition held_response :: "fetch_env \<Rightarrow> bool \<Rightarrow> exchange list \<Rightarrow> http_request \<Rightarrow> http_response \<Rightarrow> EpoxyResponse" where
  "held_response env should log q resp = (case redirect_of env should (last log) of
      Some u \<Rightarrow> Redirect resp (q\<lparr>rq_uri := u\<rparr>) | None \<Rightarrow> Success resp)"

lemma redirect_loop_chain:
  assumes "redirect_chain env answer should log" "last log = (as_sent should q, Ok resp)" "fresh_body (rq_body q)"
    and "redirect_loop env answer should limit (held_response env should log q resp) (rq_uri q) (1 < length log) log = (log', r)"
  shows "redirect_chain env answer should log' \<and> hd log' = hd log \<and> r = chain_result log'
    \<and> length log' \<le> length log + limit
    \<and> (redirect_of env should (last log') = None \<or> length log' = length log + limit)"
  using assms
proof (induction limit arbitrary: log q resp)
  case 0
  then show ?case
    by (auto simp: held_response_def chain_result_def as_sent_def split: option.splits)
next
  case (Suc n)
  show ?case
  proof (cases "redirect_of env should (last log)")
    case None
    with Suc.prems show ?thesis
      by (auto simp: held_response_def chain_result_def as_sent_def)
  next
    case (Some u)
    let ?q = "q\<lparr>rq_uri := u\<rparr>"
    let ?x = "(as_sent should ?q, answer log (as_sent should ?q))"
    have chain: "redirect_chain env answer should (log @ [?x])"
      using redirect_chain_append [OF Suc.prems(1) Some] Suc.prems(2) by (simp add: as_sent_uri)
    have ne: "log \<noteq> []" using Suc.prems(1) by (simp add: redirect_chain_def)
    have inner: "send_req_inner env answer should ?q log = (log @ [?x], case snd ?x of
           Err e \<Rightarrow> Err (HyperClient e) | Panic \<Rightarrow> Panic
         | Ok resp \<Rightarrow> Ok (case redirect_of env should ?x of
             Some u \<Rightarrow> Redirect resp (?q\<lparr>rq_uri := u\<rparr>) | None \<Rightarrow> Success resp))"
      using send_req_inner_eq [of ?q env answer should log] Suc.prems(3) by (simp add: Let_def)
    show ?thesis
    proof (cases "snd ?x")
      case (Ok resp')
      have "redirect_loop env answer should n (held_response env should (log @ [?x]) ?q resp') (rq_uri ?q)
          (1 < length (log @ [?x])) (log @ [?x]) = (log', r)"
        using Suc.prems(4) Some inner Ok ne by (simp add: held_response_def)
      from Suc.IH [OF chain _ _ this] Ok Suc.prems(3) ne show ?thesis by auto
    next
      case (Err e)
      with Suc.prems(4) Some inner chain ne show ?thesis
        by (auto simp: held_response_def chain_result_def redirect_of_def)
    next
      case Panic
      with Suc.prems(4) Some inner chain ne show ?thesis
        by (auto simp: held_response_def chain_result_def redirect_of_def)
    qed
  qed
qed

lemma send_req_chain:
  assumes "send_req env answer limit should req = (log, r)" "fresh_body (rq_body req)"
  shows "redirect_chain env answer should log \<and> fst (hd log) = as_sent should req \<and> r = chain_result log
    \<and> length log \<le> Suc limit
    \<and> (redirect_of env should (last log) = None \<or> length log = Suc limit)"
proof -
  let ?x = "(as_sent should req, answer [] (as_sent should req))"
  have chain: "redirect_chain env answer should [?x]" by (rule redirect_chain_single)
  have inner: "send_req_inner env answer should req [] = ([?x], case snd ?x of
           Err e \<Rightarrow> Err (HyperClient e) | Panic \<Rightarrow> Panic
         | Ok resp \<Rightarrow> Ok (case redirect_of env should ?x of
             Some u \<Rightarrow> Redirect resp (req\<lparr>rq_uri := u\<rparr>) | None \<Rightarrow> Success resp))"
    using send_req_inner_eq [OF assms(2), of env answer should "[]"] by (simp add: Let_def)
  show ?thesis
  proof (cases "snd ?x")
    case (Ok resp)
    have "redirect_loop env answer should limit (held_response env should [?x] req resp) (rq_uri req)
        (1 < length [?x]) [?x] = (log, r)"
      using assms(1) inner Ok by (simp add: send_req_def held_response_def)
    from redirect_loop_chain [OF chain _ assms(2) this] Ok show ?thesis by auto
  next
    case (Err e)
    with assms(1) inner chain show ?thesis by (auto simp: send_req_def chain_result_def redirect_of_def)
  next
    case Panic
    with assms(1) inner chain show ?thesis by (auto simp: send_req_def chain_result_def redirect_of_def)
  qed
qed


text \<open>A site that redirects to itself: the request is sent three times with a limit of two.\<close>

definition demo_fetch_env :: fetch_env where
  "demo_fetch_env = \<lparr>method_from_str = Some, header_name_from_str = (\<lambda>s. Some (map to_ascii_lowercase s)),
     header_value_from_str = Some, header_value_to_str = (\<lambda>v. if \<forall>b \<in> set v. b < 127 then Some v else None),
     parse_uri = (\<lambda>s. Some \<lparr>uri_scheme = None, uri_authority = None, uri_path = Some s, uri_host = None, uri_port = None\<rparr>),
     uri_from_parts = (\<lambda>s a p. Some \<lparr>uri_scheme = s, uri_authority = a, uri_path = p, uri_host = a, uri_port = None\<rparr>),
     uri_to_string = (\<lambda>u. case uri_path u of Some p \<Rightarrow> p | None \<Rightarrow> []), canonical_reason = (\<lambda>_. None)\<rparr>"

definition demo_uri :: "string \<Rightarrow> Uri" where
  "demo_uri path = \<lparr>uri_scheme = Some (ascii ''https''), uri_authority = Some (ascii ''a''),
     uri_path = Some (ascii path), uri_host = Some (ascii ''a''), uri_port = None\<rparr>"

definition demo_fetch :: http_request where
  "demo_fetch = \<lparr>rq_method = ascii ''POST'', rq_uri = demo_uri ''/'', rq_headers = [], rq_body = TeedStream [1] False\<rparr>"

definition demo_moved :: http_client where
  "demo_moved log req = Ok \<lparr>rs_status = 303, rs_headers = [(ascii ''location'', ascii ''/next'')], rs_body = []\<rparr>"


section \<open>Values of JavaScript\<close>

text \<open>
  \<open>from_entries\<close> of \<open>utils/js.rs\<close> walks over the indices below \<open>entries.length\<close>. An array of pairs has a
  length; a \<open>Headers\<close> object has none, so the loop does not run. A property named \<open>__proto__\<close> is not stored.
\<close>

datatype js_entries = JsArrayOf "(rstring \<times> rstring) list" | JsHeaders "(rstring \<times> rstring) list"

definition js_length :: "js_entries \<Rightarrow> nat" where
  "js_length e = (case e of JsArrayOf ps \<Rightarrow> length ps | JsHeaders ps \<Rightarrow> 0)"

fun js_index :: "js_entries \<Rightarrow> nat \<Rightarrow> rstring \<times> rstring" where
  "js_index (JsArrayOf ps) i = ps ! i"
| "js_index (JsHeaders ps) i = ([], [])"

definition js_set_text :: "(rstring \<times> rstring) list \<Rightarrow> rstring \<times> rstring \<Rightarrow> (rstring \<times> rstring) list" where
  "js_set_text obj p = (if fst p = ascii ''__proto__'' then obj else AList.update (fst p) (snd p) obj)"

definition from_entries :: "js_entries \<Rightarrow> (rstring \<times> rstring) list" where
  "from_entries e = foldl js_set_text [] (map (js_index e) [0..<js_length e])"

text \<open>The \<open>headers\<close> a caller passes; a plain object is the list of its entries.\<close>

datatype js_headers = HeadersInstance "(rstring \<times> rstring) list" | PlainObject "(rstring \<times> rstring) list"

definition header_entries :: "js_headers \<Rightarrow> (rstring \<times> rstring) list" where
  "header_entries h = (case h of HeadersInstance ps \<Rightarrow> from_entries (JsHeaders ps) | PlainObject ps \<Rightarrow> ps)"

text \<open>
  The object the raw headers are collected in: a property is a string or an array, and a plain object
  inherits \<open>constructor\<close> and \<open>__proto__\<close>, the only inherited properties whose names are header names. Setting
  \<open>__proto__\<close> would change what is inherited; that is left out.
\<close>

datatype js_prop = JsText rstring | JsList "js_prop list" | JsInherited | JsUndefined

type_synonym js_object = "(rstring \<times> js_prop) list"

definition inherited_names :: "rstring list" where
  "inherited_names = [ascii ''constructor'', ascii ''__proto__'']"

definition object_get :: "js_object \<Rightarrow> rstring \<Rightarrow> js_prop" where
  "object_get obj k = (case map_of obj k of
      Some v \<Rightarrow> v | None \<Rightarrow> if k \<in> set inherited_names then JsInherited else JsUndefined)"

definition object_set :: "js_object \<Rightarrow> rstring \<Rightarrow> js_prop \<Rightarrow> js_object" where
  "object_set obj k v = AList.update k v obj"

definition is_truthy :: "js_prop \<Rightarrow> bool" where
  "is_truthy v = (case v of JsText s \<Rightarrow> s \<noteq> [] | JsList l \<Rightarrow> True | JsInherited \<Rightarrow> True | JsUndefined \<Rightarrow> False)"

section \<open>fetch\<close>

record fetch_options =
  fo_method :: "rstring option"
  fo_redirect :: "rstring option"
  fo_body :: "(MaybeStreamingBody \<times> rstring option) option option"
  fo_headers :: "js_headers option"

record EpoxyClient =
  certs_tampered :: bool
  redirect_limit :: nat
  user_agent :: rstring

text \<open>
  The headers of the request. The user's headers are applied in order, without any host header; the name
  is compared in lower case, and no letter outside ASCII has one of the letters of \<open>host\<close> as its lower case.
\<close>

fun add_user_headers :: "fetch_env \<Rightarrow> (rstring \<times> rstring) list \<Rightarrow> HeaderMap \<Rightarrow> HeaderMap eres" where
  "add_user_headers env [] hs = Ok hs"
| "add_user_headers env ((k, v) # ps) hs =
    (if eq_ignore_ascii_case k (ascii ''host'') then add_user_headers env ps hs
     else res_bind (ok_or (header_name_from_str env k) (HttpFailed k)) (\<lambda>name.
          res_bind (ok_or (header_value_from_str env v) (HttpFailed v)) (\<lambda>value.
            add_user_headers env ps (header_insert name value hs))))"

definition body_empty :: "StreamingBody \<Rightarrow> bool" where
  "body_empty b = (case b of FullBody d \<Rightarrow> d = [] | TeedStream c used \<Rightarrow> False)"

definition needs_length :: "rstring \<Rightarrow> StreamingBody \<Rightarrow> bool" where
  "needs_length meth b \<longleftrightarrow> (meth = ascii ''POST'' \<or> meth = ascii ''PUT'' \<or> meth = ascii ''PATCH'') \<and> body_empty b"

definition base_headers :: "bool \<Rightarrow> fetch_env \<Rightarrow> rstring \<Rightarrow> rstring option \<Rightarrow> HeaderMap eres" where
  "base_headers full env agent content_type =
    (let hs = header_insert (ascii ''connection'') (ascii ''keep-alive'')
          (header_insert (ascii ''accept-encoding'') (if full then ascii ''gzip, br'' else ascii ''identity'') [])
     in res_bind (ok_or (header_value_from_str env agent) (HttpFailed agent)) (\<lambda>agent.
        let hs = header_insert (ascii ''user-agent'') agent hs
        in case content_type of
            None \<Rightarrow> Ok hs
          | Some t \<Rightarrow> res_bind (ok_or (header_value_from_str env t) (HttpFailed t)) (\<lambda>t.
              Ok (header_insert (ascii ''content-type'') t hs))))"

definition request_headers ::
    "bool \<Rightarrow> fetch_env \<Rightarrow> rstring \<Rightarrow> rstring option \<Rightarrow> (rstring \<times> rstring) list \<Rightarrow> rstring \<Rightarrow> StreamingBody
      \<Rightarrow> HeaderMap eres" where
  "request_headers full env agent content_type user meth b =
    res_bind (base_headers full env agent content_type) (\<lambda>hs.
    res_bind (add_user_headers env user hs) (\<lambda>hs.
    Ok (if needs_length meth b then header_insert (ascii ''content-length'') (ascii ''0'') hs else hs)))"

datatype EpoxyCompression = Brotli | Gzip

record fetch_response =
  fr_status :: u16
  fr_status_text :: rstring
  fr_headers :: "(rstring \<times> rstring) list"
  fr_body :: "(bytes \<times> EpoxyCompression option) option"
  fr_url :: rstring
  fr_redirected :: bool
  fr_raw_headers :: js_object

definition response_compression :: "fetch_env \<Rightarrow> HeaderMap \<Rightarrow> EpoxyCompression option" where
  "response_compression env hs =
    (let v = (case Option.bind (header_get hs (ascii ''content-encoding'')) (header_value_to_str env) of
         Some v \<Rightarrow> v | None \<Rightarrow> [])
     in if v = ascii ''gzip'' then Some Gzip else if v = ascii ''br'' then Some Brotli else None)"

definition response_headers :: "fetch_env \<Rightarrow> HeaderMap \<Rightarrow> (rstring \<times> rstring) list" where
  "response_headers env hs = from_entries (JsArrayOf
     (List.map_filter (\<lambda>(k, v). map_option (\<lambda>v. (k, v)) (header_value_to_str env v)) hs))"

definition add_text :: "js_prop \<Rightarrow> rstring \<Rightarrow> js_prop" where
  "add_text jv v = (case jv of
      JsList l \<Rightarrow> JsList (l @ [JsText v])
    | _ \<Rightarrow> if is_truthy jv then JsList [jv, JsText v] else JsText v)"

definition raw_header_add :: "rstring \<Rightarrow> rstring \<Rightarrow> js_object \<Rightarrow> js_object" where
  "raw_header_add k v obj = object_set obj k (add_text (object_get obj k) v)"

fun raw_headers :: "fetch_env \<Rightarrow> HeaderMap \<Rightarrow> js_object \<Rightarrow> js_object eres" where
  "raw_headers env [] obj = Ok obj"
| "raw_headers env ((k, v) # hs) obj =
    res_bind (ok_or (header_value_to_str env v) (ToStr v)) (\<lambda>v. raw_headers env hs (raw_header_add k v obj))"

text \<open>\<open>new_response\<close> says whether JavaScript accepts the parts of the response.\<close>

definition fetch_result ::
    "bool \<Rightarrow> fetch_env \<Rightarrow> (u16 \<Rightarrow> bool) \<Rightarrow> EpoxyClient \<Rightarrow> http_response \<times> Uri \<times> bool \<Rightarrow> fetch_response eres" where
  "fetch_result full env new_response c = (\<lambda>(resp, url, redirected).
    (let hs = (if certs_tampered c then header_insert (ascii ''x-epoxy-certstampered'') (ascii ''true'') (rs_headers resp)
               else rs_headers resp);
         body = (if is_null_body (rs_status resp) then None
                 else Some (rs_body resp, if full then response_compression env hs else None))
     in if \<not> new_response (rs_status resp) then Err ResponseNewFailed
        else res_bind (raw_headers env hs []) (\<lambda>raw.
          Ok \<lparr>fr_status = rs_status resp,
              fr_status_text = (case canonical_reason env (rs_status resp) of Some t \<Rightarrow> t | None \<Rightarrow> []),
              fr_headers = response_headers env hs, fr_body = body, fr_url = uri_to_string env url,
              fr_redirected = redirected, fr_raw_headers = raw\<rparr>)))"

definition fetch_request ::
    "bool \<Rightarrow> fetch_env \<Rightarrow> EpoxyClient \<Rightarrow> js_value \<Rightarrow> fetch_options \<Rightarrow> (http_request \<times> bool) eres" where
  "fetch_request full env c url options =
    res_bind (Uri_try_from (parse_uri env) url) (\<lambda>url.
    res_bind (ok_or (uri_scheme url) (InvalidUrlScheme None)) (\<lambda>_.
    let meth = (case fo_method options of Some m \<Rightarrow> m | None \<Rightarrow> ascii ''GET'') in
    res_bind (ok_or (method_from_str env meth) (HttpFailed meth)) (\<lambda>meth.
    res_bind (case fo_body options of
        None \<Rightarrow> Ok (FullBody [], None)
      | Some None \<Rightarrow> Err InvalidRequestBody
      | Some (Some (b, t)) \<Rightarrow> res_bind (into_httpbody b) (\<lambda>b. Ok (b, t))) (\<lambda>(b, content_type).
    res_bind (request_headers full env (user_agent c) content_type
        (case fo_headers options of Some h \<Rightarrow> header_entries h | None \<Rightarrow> []) meth b) (\<lambda>hs.
    Ok (\<lparr>rq_method = meth, rq_uri = url, rq_headers = hs, rq_body = b\<rparr>,
        fo_redirect options \<noteq> Some (ascii ''error'') \<and> fo_redirect options \<noteq> Some (ascii ''manual'')))))))"

definition fetch ::
    "bool \<Rightarrow> fetch_env \<Rightarrow> http_client \<Rightarrow> (u16 \<Rightarrow> bool) \<Rightarrow> EpoxyClient \<Rightarrow> js_value \<Rightarrow> fetch_options
      \<Rightarrow> exchange list \<times> fetch_response eres" where
  "fetch full env answer new_response c url options =
    (case fetch_request full env c url options of
       Err e \<Rightarrow> ([], Err e)
     | Panic \<Rightarrow> ([], Panic)
     | Ok (req, request_redirect) \<Rightarrow>
        (case send_req env answer (redirect_limit c) request_redirect req of
           (log, r) \<Rightarrow> (log, res_bind r (fetch_result full env new_response c))))"

section \<open>Properties of requests\<close>

text \<open>What the entries a user gives say about a header: the last entry of that name, unless it is a host.\<close>

definition user_entry :: "fetch_env \<Rightarrow> rstring \<times> rstring \<Rightarrow> (rstring \<times> bytes) option" where
  "user_entry env p = (if eq_ignore_ascii_case (fst p) (ascii ''host'') then None
     else Option.bind (header_name_from_str env (fst p)) (\<lambda>name.
          map_option (\<lambda>value. (name, value)) (header_value_from_str env (snd p))))"

definition user_value :: "fetch_env \<Rightarrow> (rstring \<times> rstring) list \<Rightarrow> rstring \<Rightarrow> bytes option" where
  "user_value env ps n = map_of (rev (List.map_filter (user_entry env) ps)) n"

definition default_header :: "bool \<Rightarrow> fetch_env \<Rightarrow> rstring \<Rightarrow> rstring option \<Rightarrow> rstring \<Rightarrow> bytes option" where
  "default_header full env agent content_type n =
    (if n = ascii ''accept-encoding'' then Some (if full then ascii ''gzip, br'' else ascii ''identity'')
     else if n = ascii ''connection'' then Some (ascii ''keep-alive'')
     else if n = ascii ''user-agent'' then header_value_from_str env agent
     else if n = ascii ''content-type'' then Option.bind content_type (header_value_from_str env)
     else None)"

lemma header_names [simp]:
  "ascii ''accept-encoding'' \<noteq> ascii ''connection''" "ascii ''user-agent'' \<noteq> ascii ''connection''"
  "ascii ''user-agent'' \<noteq> ascii ''accept-encoding''" "ascii ''content-type'' \<noteq> ascii ''connection''"
  "ascii ''content-type'' \<noteq> ascii ''accept-encoding''" "ascii ''content-type'' \<noteq> ascii ''user-agent''"
  "ascii ''host'' \<noteq> ascii ''connection''" "ascii ''host'' \<noteq> ascii ''accept-encoding''"
  "ascii ''host'' \<noteq> ascii ''user-agent''" "ascii ''host'' \<noteq> ascii ''content-type''"
  "ascii ''host'' \<noteq> ascii ''content-length''"
  by (simp_all add: ascii_def)

lemma user_value_Cons:
  "user_value env (p # ps) n = (case user_value env ps n of
      Some v \<Rightarrow> Some v
    | None \<Rightarrow> (case user_entry env p of Some (name, v) \<Rightarrow> if name = n then Some v else None | None \<Rightarrow> None))"
  by (auto simp: user_value_def List.map_filter_def map_add_def split: option.splits)

lemma add_user_headers_get:
  assumes "add_user_headers env ps hs = Ok hs'"
  shows "header_get hs' n = (case user_value env ps n of Some v \<Rightarrow> Some v | None \<Rightarrow> header_get hs n)"
  using assms
proof (induction env ps hs rule: add_user_headers.induct)
  case (1 env hs)
  then show ?case by (simp add: user_value_def List.map_filter_def)
next
  case (2 env k v ps hs)
  then show ?case
    by (cases "eq_ignore_ascii_case k (ascii ''host'')")
      (auto simp: user_value_Cons user_entry_def split: option.splits)
qed

lemma add_user_headers_distinct:
  "add_user_headers env ps hs = Ok hs' \<Longrightarrow> distinct (map fst hs) \<Longrightarrow> distinct (map fst hs')"
  by (induction env ps hs rule: add_user_headers.induct) (auto split: if_splits intro: header_insert_distinct)

lemma user_value_host:
  assumes "\<forall>k n. header_name_from_str env k = Some n \<longrightarrow> n = map to_ascii_lowercase k"
  shows "user_value env ps (ascii ''host'') = None"
proof (induction ps)
  case (Cons p ps)
  have "user_entry env p \<noteq> Some (ascii ''host'', v)" for v
  proof
    assume e: "user_entry env p = Some (ascii ''host'', v)"
    then have "map to_ascii_lowercase (fst p) = ascii ''host''"
      using assms by (auto simp: user_entry_def bind_eq_Some_conv split: if_splits)
    moreover have "map to_ascii_lowercase (ascii ''host'') = ascii ''host''"
      by (simp add: ascii_def to_ascii_lowercase_def)
    ultimately show False using e by (simp add: user_entry_def eq_ignore_ascii_case_def)
  qed
  with Cons show ?case by (auto simp: user_value_Cons split: option.splits)
qed (simp add: user_value_def List.map_filter_def)

lemma base_headers_Ok:
  assumes "base_headers full env agent content_type = Ok hs"
  shows "distinct (map fst hs)" "header_get hs n = default_header full env agent content_type n"
proof -
  let ?hs = "header_insert (ascii ''connection'') (ascii ''keep-alive'')
      (header_insert (ascii ''accept-encoding'') (if full then ascii ''gzip, br'' else ascii ''identity'') [])"
  obtain a where a: "header_value_from_str env agent = Some a"
      "hs = (case Option.bind content_type (header_value_from_str env) of
          None \<Rightarrow> header_insert (ascii ''user-agent'') a ?hs
        | Some t \<Rightarrow> header_insert (ascii ''content-type'') t (header_insert (ascii ''user-agent'') a ?hs))"
    using assms by (cases content_type) (auto simp: base_headers_def Let_def)
  show "distinct (map fst hs)"
    by (auto simp: a(2) header_insert_distinct split: option.split)
  show "header_get hs n = default_header full env agent content_type n"
    by (simp add: a default_header_def header_names [symmetric] split: option.split)
qed

text \<open>
  C22. The headers of a request are exactly the user's over the defaults: each name occurs once; its value is the
  user's last one, or else the default of the client; an empty body of POST, PUT and PATCH has the length
  zero whatever the user says; and the user cannot set the host.
\<close>

theorem request_headers_exact:
  assumes "request_headers full env agent content_type user meth b = Ok hs"
    and "\<forall>k n. header_name_from_str env k = Some n \<longrightarrow> n = map to_ascii_lowercase k"
  shows "distinct (map fst hs) \<and> header_get hs (ascii ''host'') = None
    \<and> (\<forall>n. header_get hs n =
         (if needs_length meth b \<and> n = ascii ''content-length'' then Some (ascii ''0'')
          else case user_value env user n of
            Some v \<Rightarrow> Some v | None \<Rightarrow> default_header full env agent content_type n))"
proof -
  from assms(1) obtain hs1 hs2 where base: "base_headers full env agent content_type = Ok hs1"
      and user: "add_user_headers env user hs1 = Ok hs2"
      and hs: "hs = (if needs_length meth b then header_insert (ascii ''content-length'') (ascii ''0'') hs2 else hs2)"
    by (auto simp: request_headers_def)
  note start = base_headers_Ok [OF base]
  from hs have "header_get hs n =
      (if needs_length meth b \<and> n = ascii ''content-length'' then Some (ascii ''0'')
       else case user_value env user n of Some v \<Rightarrow> Some v | None \<Rightarrow> default_header full env agent content_type n)" for n
    by (simp add: add_user_headers_get [OF user] start(2) split: option.split)
  moreover have "distinct (map fst hs)"
    using add_user_headers_distinct [OF user start(1)] by (simp add: hs header_insert_distinct)
  ultimately show ?thesis
    by (simp add: user_value_host [OF assms(2)] default_header_def)
qed

lemma demo_fetch_env_sel [simp]:
  "header_name_from_str demo_fetch_env s = Some (map to_ascii_lowercase s)" "header_value_from_str demo_fetch_env s = Some s"
  "header_value_to_str demo_fetch_env v = (if \<forall>b \<in> set v. b < 127 then Some v else None)"
  by (simp_all add: demo_fetch_env_def)

lemma demo_request_headers: "\<exists>hs. request_headers full demo_fetch_env agent t user meth b = Ok hs"
proof -
  have "\<exists>hs'. add_user_headers demo_fetch_env user hs = Ok hs'" for hs
    by (induction demo_fetch_env user hs rule: add_user_headers.induct) (auto simp: ok_or_def)
  then show ?thesis by (cases t) (auto simp: request_headers_def base_headers_def Let_def ok_or_def)
qed

theorem request_headers_exact_witness:
  "\<exists>hs. request_headers True demo_fetch_env (ascii ''agent'') None
       [(ascii ''Host'', ascii ''evil''), (ascii ''User-Agent'', ascii ''mine'')] (ascii ''POST'') (FullBody []) = Ok hs
     \<and> header_get hs (ascii ''host'') = None \<and> header_get hs (ascii ''user-agent'') = Some (ascii ''mine'')"
proof -
  let ?user = "[(ascii ''Host'', ascii ''evil''), (ascii ''User-Agent'', ascii ''mine'')]"
  obtain hs where hs: "request_headers True demo_fetch_env (ascii ''agent'') None ?user (ascii ''POST'') (FullBody []) = Ok hs"
    using demo_request_headers by blast
  have "\<forall>k n. header_name_from_str demo_fetch_env k = Some n \<longrightarrow> n = map to_ascii_lowercase k" by simp
  note exact = request_headers_exact [OF hs this]
  have "user_value demo_fetch_env ?user (ascii ''user-agent'') = Some (ascii ''mine'')"
    by (simp add: user_value_def user_entry_def List.map_filter_def eq_ignore_ascii_case_def
        ascii_def to_ascii_lowercase_def)
  moreover have "ascii ''user-agent'' \<noteq> ascii ''content-length''" by (simp add: ascii_def)
  ultimately have "header_get hs (ascii ''user-agent'') = Some (ascii ''mine'')" using exact by simp
  with hs exact show ?thesis by blast
qed

text \<open>A \<open>Headers\<close> object is walked over as if it were an array, so none of its headers is sent.\<close>

lemma headers_instance_ignored: "header_entries (HeadersInstance ps) = []"
  by (simp add: header_entries_def from_entries_def js_length_def)

section \<open>Properties of responses\<close>

text \<open>The headers of the response: the last value of each name that is text.\<close>

lemma from_entries_get:
  assumes "n \<noteq> ascii ''__proto__''"
  shows "map_of (from_entries (JsArrayOf ps)) n = map_of (rev ps) n"
proof -
  have "map (js_index (JsArrayOf ps)) [0..<length ps] = ps"
    by (rule nth_equalityI) simp_all
  moreover have "map_of (foldl js_set_text [] qs) n = map_of (rev qs) n" for qs
    using assms by (induction qs rule: rev_induct) (auto simp: js_set_text_def update_conv)
  ultimately show ?thesis by (simp add: from_entries_def js_length_def)
qed

lemma response_headers_insert:
  assumes "header_value_to_str env v = Some w" "k \<noteq> ascii ''__proto__''"
  shows "map_of (response_headers env (header_insert k v hs)) k = Some w"
proof -
  let ?ps = "rev (List.map_filter (\<lambda>(k, v). map_option (\<lambda>v. (k, v)) (header_value_to_str env v)) (header_insert k v hs))"
  have entry: "(k, x) \<in> set ?ps \<longleftrightarrow> (\<exists>y. (k, y) \<in> set (header_insert k v hs) \<and> header_value_to_str env y = Some x)" for x
    by (auto simp: List.map_filter_def image_iff) force
  then have entry: "(k, x) \<in> set ?ps \<longleftrightarrow> x = w" for x
    using assms(1) by (auto simp: header_insert_entry)
  then obtain y where "map_of ?ps k = Some y" using weak_map_of_SomeI by metis
  with entry map_of_SomeD have "map_of ?ps k = Some w" by metis
  with assms(2) show ?thesis by (simp add: response_headers_def from_entries_get)
qed

text \<open>What a property for a list of header values is.\<close>

fun grouped :: "rstring list \<Rightarrow> js_prop" where
  "grouped [] = JsUndefined"
| "grouped [v] = JsText v"
| "grouped vs = JsList (map JsText vs)"

definition text_values :: "fetch_env \<Rightarrow> HeaderMap \<Rightarrow> rstring \<Rightarrow> rstring list" where
  "text_values env hs n = List.map_filter (header_value_to_str env) (header_get_all hs n)"

lemma grouped_snoc: "[] \<notin> set vs \<Longrightarrow> v \<noteq> [] \<Longrightarrow> add_text (grouped vs) v = grouped (vs @ [v])"
  by (cases vs rule: grouped.cases) (auto simp: add_text_def is_truthy_def)

lemma object_get_set: "object_get (object_set obj k v) n = (if n = k then v else object_get obj n)"
  by (simp add: object_get_def object_set_def update_conv)

lemma raw_header_add_get:
  "object_get (raw_header_add k v obj) n = (if n = k then add_text (object_get obj k) v else object_get obj n)"
  by (simp add: raw_header_add_def object_get_set)

lemma raw_headers_grouped:
  assumes "raw_headers env hs obj = Ok raw" "object_get obj n = grouped vs" "[] \<notin> set vs"
    and "[] \<notin> set (text_values env hs n)"
  shows "object_get raw n = grouped (vs @ text_values env hs n)"
  using assms
proof (induction env hs obj arbitrary: vs rule: raw_headers.induct)
  case (1 env obj)
  then show ?case by (simp add: text_values_def header_get_all_def List.map_filter_def)
next
  case (2 env k v hs obj)
  from "2.prems"(1) obtain w where w: "header_value_to_str env v = Some w"
      "raw_headers env hs (raw_header_add k w obj) = Ok raw" by auto
  show ?case
  proof (cases "n = k")
    case True
    with w(1) have tv: "text_values env ((k, v) # hs) n = w # text_values env hs n"
      by (simp add: text_values_def header_get_all_def List.map_filter_def)
    have "object_get (raw_header_add k w obj) n = grouped (vs @ [w])"
      using grouped_snoc [OF "2.prems"(3), of w] "2.prems"(2,4) True tv by (auto simp: raw_header_add_get)
    from "2.IH" [OF w(2) this] tv "2.prems" show ?thesis by (simp add: ok_or_def)
  next
    case False
    then have "text_values env ((k, v) # hs) n = text_values env hs n"
      by (simp add: text_values_def header_get_all_def)
    with "2.IH" [OF w(2), of vs] "2.prems" False show ?thesis
      by (simp add: ok_or_def raw_header_add_get)
  qed
qed

text \<open>
  The raw headers of a response show, for every name that a plain object does not inherit, exactly its
  values in order: nothing, a string, or an array of strings, as long as no value is empty.
\<close>

theorem raw_headers_exact:
  assumes "raw_headers env hs [] = Ok raw" "n \<notin> set inherited_names" "[] \<notin> set (text_values env hs n)"
  shows "object_get raw n = grouped (text_values env hs n)"
  using raw_headers_grouped [OF assms(1), of n "[]"] assms(2,3) by (simp add: object_get_def)

theorem raw_headers_exact_witness:
  "\<exists>raw. raw_headers demo_fetch_env [(ascii ''a'', [1]), (ascii ''b'', [2]), (ascii ''a'', [3])] [] = Ok raw
     \<and> object_get raw (ascii ''a'') = JsList [JsText [1], JsText [3]]"
proof -
  let ?hs = "[(ascii ''a'', [1]), (ascii ''b'', [2]), (ascii ''a'', [3])]"
  obtain raw where raw: "raw_headers demo_fetch_env ?hs [] = Ok raw"
    by (simp add: ok_or_def)
  have "text_values demo_fetch_env ?hs (ascii ''a'') = [[1], [3]]"
    by (simp add: text_values_def header_get_all_def List.map_filter_def ascii_def)
  with raw_headers_exact [OF raw, of "ascii ''a''"]
  have "object_get raw (ascii ''a'') = JsList [JsText [1], JsText [3]]"
    by (simp add: inherited_names_def ascii_def)
  with raw show ?thesis by blast
qed

text \<open>
  Outside of that the values are wrong: a first value that is empty is lost, and a header called
  \<open>constructor\<close> gets the inherited function as its first value.
\<close>

lemma raw_headers_lose_empty:
  "raw_headers demo_fetch_env [(ascii ''a'', []), (ascii ''a'', [3])] [] = Ok [(ascii ''a'', JsText [3])]"
  by (simp add: demo_fetch_env_def ok_or_def raw_header_add_def add_text_def object_get_def object_set_def is_truthy_def
      inherited_names_def ascii_def)

lemma raw_headers_constructor:
  "raw_headers demo_fetch_env [(ascii ''constructor'', [3])] []
    = Ok [(ascii ''constructor'', JsList [JsInherited, JsText [3]])]"
  by (simp add: demo_fetch_env_def ok_or_def raw_header_add_def add_text_def object_get_def object_set_def is_truthy_def
      inherited_names_def)

text \<open>
  A header value that is no text is left out of the headers of the response, but makes the whole fetch
  fail when the raw headers are collected.
\<close>

lemma opaque_header_fails_fetch:
  assumes "(k, v) \<in> set (rs_headers resp)" "header_value_to_str env v = None" "new_response (rs_status resp)"
    and "certs_tampered c = False"
  shows "\<exists>w. fetch_result full env new_response c (resp, url, redirected) = Err (ToStr w)"
proof -
  have "\<exists>w. raw_headers env hs obj = Err (ToStr w)" if "(k, v) \<in> set hs" for hs obj
    using that assms(2) by (induction env hs obj rule: raw_headers.induct) (auto simp: ok_or_def split: option.splits)
  from this [OF assms(1), of "[]"] obtain w where "raw_headers env (rs_headers resp) [] = Err (ToStr w)" ..
  with assms show ?thesis by (simp add: fetch_result_def Let_def)
qed

text \<open>
  No request panics: the branch of the body's clone that is declared unreachable is not reached, because
  every body that is cloned has its spare branch unused, through any number of redirects.
\<close>

lemma add_user_headers_no_panic: "add_user_headers env ps hs \<noteq> Panic"
  by (induction env ps hs rule: add_user_headers.induct) auto

lemma request_headers_no_panic: "request_headers full env agent t user meth b \<noteq> Panic"
  by (auto simp: request_headers_def base_headers_def Let_def add_user_headers_no_panic split: option.splits)

lemma raw_headers_no_panic: "raw_headers env hs obj \<noteq> Panic"
  by (induction env hs obj rule: raw_headers.induct) auto

lemma into_httpbody_fresh: "into_httpbody b = Ok b' \<Longrightarrow> fresh_body b'"
  by (cases b) (auto simp: from_teed_def split: if_splits)

lemma into_httpbody_no_panic: "into_httpbody b \<noteq> Panic"
  by (cases b) auto

lemma Uri_try_from_no_panic: "Uri_try_from parse url \<noteq> Panic"
  by (cases url) (auto simp: Uri_try_from_def)

lemma fetch_request_Ok: "fetch_request full env c url options = Ok (req, should) \<Longrightarrow> fresh_body (rq_body req)"
  by (auto simp: fetch_request_def Let_def dest: into_httpbody_fresh split: option.splits)

lemma fetch_request_no_panic: "fetch_request full env c url options \<noteq> Panic"
  by (auto simp: fetch_request_def Let_def request_headers_no_panic into_httpbody_no_panic Uri_try_from_no_panic
      split: option.splits)

theorem fetch_never_panics:
  assumes "\<forall>log req. answer log req \<noteq> Panic"
  shows "snd (fetch full env answer new_response c url options) \<noteq> Panic"
proof (cases "fetch_request full env c url options")
  case (Ok x)
  obtain req should where x: "x = (req, should)" by force
  obtain log r where run: "send_req env answer (redirect_limit c) should req = (log, r)" by force
  from send_req_chain [OF run fetch_request_Ok] Ok x
  have chain: "redirect_chain env answer should log" "r = chain_result log" by auto
  then have "snd (last log) = answer (take (length log - 1) log) (fst (last log))"
    by (auto simp: redirect_chain_def last_conv_nth)
  with assms chain(2) have "r \<noteq> Panic" by (auto simp: chain_result_def split: res.splits)
  moreover have "fetch_result full env new_response c y \<noteq> Panic" for y
    by (auto simp: fetch_result_def raw_headers_no_panic Let_def split: prod.splits)
  ultimately show ?thesis using Ok x run by (auto simp: fetch_def)
qed (use fetch_request_no_panic [of full env c url options] in \<open>auto simp: fetch_def\<close>)

theorem fetch_never_panics_witness:
  "snd (fetch True demo_fetch_env demo_moved (\<lambda>_. True) \<lparr>certs_tampered = False, redirect_limit = 2, user_agent = []\<rparr>
     (JsString (ascii ''/'')) \<lparr>fo_method = None, fo_redirect = None, fo_body = None, fo_headers = None\<rparr>) \<noteq> Panic"
  by (rule fetch_never_panics) (simp add: demo_moved_def)

end
