(* ===== verification/Client_Websocket.thy ===== *)
theory Client_Websocket
  imports Client_Fetch Server_Http
begin

text \<open>
  Websockets of the browser client. \<open>client/src/websocket.rs\<close> opens a websocket through the Wisp connection:
  its handshake request, the check of the response, the callbacks for what arrives. \<open>client/src/ws_wrapper.rs\<close>
  makes the browser's own websocket a transport of the multiplexor: the callbacks of the browser fill a
  queue that the reading half empties, and set a flag and wake listeners when the socket closes.

  JavaScript runs one callback or one poll at a time, so each is one step; a run is a list of steps.
\<close>

section \<open>websocket.rs\<close>

text \<open>\<open>header\<close> of a request builder keeps the first error, which \<open>body\<close> returns.\<close>

fun append_headers :: "fetch_env \<Rightarrow> (rstring \<times> rstring) list \<Rightarrow> HeaderMap \<Rightarrow> HeaderMap eres" where
  "append_headers fe [] hs = Ok hs"
| "append_headers fe ((k, v) # ps) hs =
    res_bind (ok_or (header_name_from_str fe k) (HttpFailed k)) (\<lambda>name.
    res_bind (ok_or (header_value_from_str fe v) (HttpFailed v)) (\<lambda>value.
      append_headers fe ps (header_append name value hs)))"

fun join_with :: "bytes \<Rightarrow> bytes list \<Rightarrow> bytes" where
  "join_with sep [] = []"
| "join_with sep [x] = x"
| "join_with sep (x # y # xs) = x @ sep @ join_with sep (y # xs)"

definition websocket_request ::
    "fetch_env \<Rightarrow> rstring \<Rightarrow> Uri \<Rightarrow> rstring list \<Rightarrow> js_headers option \<Rightarrow> rstring \<Rightarrow> http_request eres" where
  "websocket_request fe ws_key url protocols headers agent =
    res_bind (ok_or (uri_host url) NoUrlHost) (\<lambda>hst.
    res_bind (append_headers fe
        ([(ascii ''host'', hst), (ascii ''connection'', ascii ''Upgrade''), (ascii ''upgrade'', ascii ''websocket''),
          (ascii ''sec-websocket-key'', ws_key), (ascii ''sec-websocket-version'', ascii ''13''),
          (ascii ''user-agent'', agent)]
         @ (if protocols = [] then [] else [(ascii ''sec-websocket-protocol'', join_with [44] protocols)])
         @ (case headers of Some h \<Rightarrow> header_entries h | None \<Rightarrow> [])) []) (\<lambda>hs.
    Ok \<lparr>rq_method = ascii ''GET'', rq_uri = url, rq_headers = hs, rq_body = FullBody []\<rparr>))"

definition header_text :: "fetch_env \<Rightarrow> HeaderMap \<Rightarrow> rstring \<Rightarrow> rstring" where
  "header_text fe hs name = (case Option.bind (header_get hs name) (header_value_to_str fe) of
      Some v \<Rightarrow> v | None \<Rightarrow> [])"

definition verify :: "fetch_env \<Rightarrow> http_response \<Rightarrow> unit eres" where
  "verify fe response =
    (if rs_status response \<noteq> 101 then Err (WsInvalidStatusCode (unat (rs_status response)) 101)
     else let u = header_text fe (rs_headers response) (ascii ''upgrade'')
          in if \<not> eq_ignore_ascii_case u (ascii ''websocket'') then Err (WsInvalidUpgradeHeader u)
             else let c = header_text fe (rs_headers response) (ascii ''connection'')
                  in if \<not> eq_ignore_ascii_case c (ascii ''Upgrade'') then Err (WsInvalidConnectionHeader c) else Ok ())"

text \<open>The callbacks, and the task that calls them for the frames that arrive.\<close>

datatype ws_frame = TextFrame bytes | BinaryFrame bytes | CloseFrame | OtherFrame

datatype ws_callback = OnOpen | OnMessageText rstring | OnMessageBinary bytes | OnError rstring | OnClose

fun read_loop :: "(ws_frame, rstring) res list \<Rightarrow> ws_callback list" where
  "read_loop [] = []"
| "read_loop (Ok (TextFrame d) # fs) = (if utf8_valid d then [OnMessageText d] else []) @ read_loop fs"
| "read_loop (Ok (BinaryFrame d) # fs) = OnMessageBinary d # read_loop fs"
| "read_loop (Ok CloseFrame # fs) = [OnClose]"
| "read_loop (Ok OtherFrame # fs) = read_loop fs"
| "read_loop (Err e # fs) = [OnError e, OnClose]"
| "read_loop (Panic # fs) = []"

text \<open>
  \<open>EpoxyWebSocket::connect\<close>: \<open>exchange\<close> sends the request through a new connection, \<open>upgraded\<close> takes the
  connection over, \<open>frames\<close> is what arrives afterwards; \<open>shown\<close> is how an error is printed. The result is the callbacks and the outcome.
\<close>

definition ws_connect ::
    "fetch_env \<Rightarrow> (http_request \<Rightarrow> http_response eres) \<Rightarrow> unit eres \<Rightarrow> (EpoxyError \<Rightarrow> rstring) \<Rightarrow> rstring \<Rightarrow> js_value \<Rightarrow> rstring list
      \<Rightarrow> js_headers option \<Rightarrow> rstring \<Rightarrow> (ws_frame, rstring) res list \<Rightarrow> ws_callback list \<times> unit eres" where
  "ws_connect fe exchange upgraded shown ws_key url protocols headers agent frames =
    (case res_bind (Uri_try_from (parse_uri fe) url) (\<lambda>url.
          res_bind (websocket_request fe ws_key url protocols headers agent) (\<lambda>req.
          res_bind (exchange req) (\<lambda>resp.
          res_bind (verify fe resp) (\<lambda>_. upgraded)))) of
       Ok _ \<Rightarrow> (OnOpen # read_loop frames, Ok ())
     | Err e \<Rightarrow> ([OnError (shown e)], Err e)
     | Panic \<Rightarrow> ([], Panic))"

definition ws_send_payload ::
    "(ws_frame \<Rightarrow> unit eres) \<Rightarrow> (EpoxyError \<Rightarrow> rstring) \<Rightarrow> js_value \<Rightarrow> ws_callback list \<times> unit eres" where
  "ws_send_payload write_frame shown payload =
    (case (case payload of
         JsString s \<Rightarrow> write_frame (TextFrame s)
       | JsArrayBuffer d \<Rightarrow> write_frame (BinaryFrame d)
       | JsOther s \<Rightarrow> Err (WsInvalidPayload s)
       | _ \<Rightarrow> Err (WsInvalidPayload [])) of
       Err e \<Rightarrow> ([OnError (shown e)], Err e)
     | r \<Rightarrow> ([], r))"

definition ws_close ::
    "(ws_frame \<Rightarrow> unit eres) \<Rightarrow> (EpoxyError \<Rightarrow> rstring) \<Rightarrow> ws_callback list \<times> unit eres" where
  "ws_close write_frame shown = (case write_frame CloseFrame of
      Err e \<Rightarrow> ([OnError (shown e)], Err e) | r \<Rightarrow> ([], r))"

section \<open>Properties of the handshake\<close>

text \<open>The documented behaviour of header names and values the handshake relies on.\<close>

definition header_laws :: "fetch_env \<Rightarrow> bool" where
  "header_laws fe \<longleftrightarrow>
     (\<forall>s n. header_name_from_str fe s = Some n \<longrightarrow> n = map to_ascii_lowercase s)
     \<and> (\<forall>s v. header_value_from_str fe s = Some v \<longrightarrow> v = s)
     \<and> (\<forall>v. (\<forall>b \<in> set v. 32 \<le> b \<and> b < 127) \<longrightarrow> header_value_to_str fe v = Some v)"

lemma append_headers_Ok:
  assumes "append_headers fe ps hs = Ok hs'" "header_laws fe"
  shows "hs' = hs @ map (\<lambda>(k, v). (map to_ascii_lowercase k, v)) ps"
  using assms
proof (induction fe ps hs rule: append_headers.induct)
  case (2 fe k v ps hs)
  from 2(2) obtain n w where nw: "header_name_from_str fe k = Some n" "header_value_from_str fe v = Some w"
      "append_headers fe ps (header_append n w hs) = Ok hs'" by auto
  with 2(3) have "n = map to_ascii_lowercase k" "w = v" by (auto simp: header_laws_def)
  with 2(1) [of n w] nw 2(3) show ?case by (auto simp: header_append_def)
qed simp

lemma str_ascii: "str = ascii"
  by (simp add: fun_eq_iff str_def ascii_def)

text \<open>The first headers of every request.\<close>

lemma websocket_request_headers:
  assumes "header_laws fe" "websocket_request fe ws_key url protocols headers agent = Ok req"
  shows "\<exists>hst rest. uri_host url = Some hst \<and> rq_headers req =
    [(ascii ''host'', hst), (ascii ''connection'', ascii ''Upgrade''), (ascii ''upgrade'', ascii ''websocket''),
     (ascii ''sec-websocket-key'', ws_key), (ascii ''sec-websocket-version'', ascii ''13'')] @ rest"
proof -
  from assms(2) obtain hst ps where h: "uri_host url = Some hst" and
    ps: "append_headers fe ([(ascii ''host'', hst), (ascii ''connection'', ascii ''Upgrade''),
          (ascii ''upgrade'', ascii ''websocket''), (ascii ''sec-websocket-key'', ws_key),
          (ascii ''sec-websocket-version'', ascii ''13'')] @ ps) [] = Ok (rq_headers req)"
    by (auto simp: websocket_request_def simp del: append_headers.simps)
  have lower: "map to_ascii_lowercase (ascii ''host'') = ascii ''host''"
    "map to_ascii_lowercase (ascii ''connection'') = ascii ''connection''"
    "map to_ascii_lowercase (ascii ''upgrade'') = ascii ''upgrade''"
    "map to_ascii_lowercase (ascii ''sec-websocket-key'') = ascii ''sec-websocket-key''"
    "map to_ascii_lowercase (ascii ''sec-websocket-version'') = ascii ''sec-websocket-version''"
    by (simp_all add: ascii_def to_ascii_lowercase_def)
  from append_headers_Ok [OF ps assms(1)] h lower show ?thesis by simp
qed

text \<open>The response of the server as the client reads it.\<close>

definition received_response :: "Response \<Rightarrow> http_response" where
  "received_response resp = \<lparr>rs_status = of_nat (status resp), rs_headers = resp_headers resp, rs_body = resp_body resp\<rparr>"

text \<open>
  C21. Client and server agree on the websocket handshake: whatever the URL, the protocols and the headers the
  user adds, the server of this repository recognises the client's request as an upgrade, accepts it
  with the answer to the key the client sent, and the client accepts that response.
\<close>

theorem websocket_handshake_agrees:
  assumes "header_laws fe" "websocket_request fe ws_key url protocols headers agent = Ok req"
    and "req_headers r = rq_headers req"
  shows "is_upgrade_request r \<and> (\<exists>resp. upgrade h r = Ok resp
    \<and> header_get (resp_headers resp) (ascii ''sec-websocket-accept'') = Some (sec_websocket_protocol h ws_key)
    \<and> verify fe (received_response resp) = Ok ())"
proof -
  obtain hst rest where hs: "req_headers r =
    [(ascii ''host'', hst), (ascii ''connection'', ascii ''Upgrade''), (ascii ''upgrade'', ascii ''websocket''),
     (ascii ''sec-websocket-key'', ws_key), (ascii ''sec-websocket-version'', ascii ''13'')] @ rest"
    using websocket_request_headers [OF assms(1,2)] assms(3) by auto
  have up: "is_upgrade_request r"
    by (simp add: is_upgrade_request_def header_contains_value_def header_get_all_def hs str_ascii ascii_def
        trim_def trim_start_def trim_end_def rposition_def is_ascii_whitespace_def eq_ignore_ascii_case_def)
  let ?resp = "\<lparr>status = 101, resp_headers = [(str ''connection'', str ''upgrade''), (str ''upgrade'', str ''websocket''),
           (str ''sec-websocket-accept'', sec_websocket_protocol h ws_key)], resp_body = []\<rparr>"
  have ok: "upgrade h r = Ok ?resp"
    by (simp add: upgrade_def header_get_def hs str_ascii ascii_def)
  have readable: "header_value_to_str fe (ascii ''upgrade'') = Some (ascii ''upgrade'')"
      "header_value_to_str fe (ascii ''websocket'') = Some (ascii ''websocket'')"
    using assms(1) by (simp_all add: header_laws_def ascii_def)
  have "verify fe (received_response ?resp) = Ok ()"
    using readable by (simp add: verify_def received_response_def header_text_def header_get_def str_ascii
        eq_ignore_ascii_case_def ascii_def to_ascii_lowercase_def)
  moreover have "header_get (resp_headers ?resp) (ascii ''sec-websocket-accept'') = Some (sec_websocket_protocol h ws_key)"
    by (simp add: header_get_def str_ascii ascii_def)
  ultimately show ?thesis using up ok by blast
qed

lemma demo_header_laws: "header_laws demo_fetch_env"
  by (simp add: header_laws_def)

theorem websocket_handshake_agrees_witness:
  "\<exists>req. websocket_request demo_fetch_env [107] (demo_uri ''/net/'') [] None [] = Ok req
     \<and> is_upgrade_request \<lparr>req_path = ascii ''/net/'', req_query = None, req_headers = rq_headers req\<rparr>"
proof -
  obtain req where req: "websocket_request demo_fetch_env [107] (demo_uri ''/net/'') [] None [] = Ok req"
    by (simp add: websocket_request_def demo_uri_def ok_or_def)
  from websocket_handshake_agrees [OF demo_header_laws this,
      of "\<lparr>req_path = ascii ''/net/'', req_query = None, req_headers = rq_headers req\<rparr>"] req
  show ?thesis by simp
qed

text \<open>
  The check does not look at the key: a response without an answer to it is accepted. It compares the
  whole connection header: a list of options that contains the upgrade is refused.
\<close>

lemma verify_ignores_accept:
  "verify demo_fetch_env \<lparr>rs_status = 101, rs_headers = [(ascii ''upgrade'', ascii ''websocket''),
     (ascii ''connection'', ascii ''upgrade'')], rs_body = []\<rparr> = Ok ()"
  by (simp add: verify_def header_text_def header_get_def eq_ignore_ascii_case_def ascii_def to_ascii_lowercase_def)

lemma verify_refuses_option_list:
  "verify demo_fetch_env \<lparr>rs_status = 101, rs_headers = [(ascii ''upgrade'', ascii ''websocket''),
     (ascii ''connection'', ascii ''keep-alive, Upgrade'')], rs_body = []\<rparr>
   = Err (WsInvalidConnectionHeader (ascii ''keep-alive, Upgrade''))"
  by (simp add: verify_def header_text_def header_get_def eq_ignore_ascii_case_def ascii_def to_ascii_lowercase_def)

section \<open>Properties of the callbacks\<close>

text \<open>What a frame shows to the user.\<close>

fun shown_frame :: "(ws_frame, rstring) res \<Rightarrow> ws_callback list" where
  "shown_frame (Ok (TextFrame d)) = (if utf8_valid d then [OnMessageText d] else [])"
| "shown_frame (Ok (BinaryFrame d)) = [OnMessageBinary d]"
| "shown_frame (Err e) = [OnError e]"
| "shown_frame _ = []"

definition ends_socket :: "(ws_frame, rstring) res \<Rightarrow> bool" where
  "ends_socket f \<longleftrightarrow> f = Ok CloseFrame \<or> (\<exists>e. f = Err e)"

text \<open>
  The callbacks show the frames in order, up to the first close frame or error, which is followed by one
  last \<open>onclose\<close>.
\<close>

theorem callbacks_exact:
  assumes "\<forall>f \<in> set fs. \<not> ends_socket f \<and> f \<noteq> Panic"
  shows "read_loop fs = concat (map shown_frame fs)
    \<and> (\<forall>f rest. ends_socket f \<longrightarrow> read_loop (fs @ f # rest) = concat (map shown_frame (fs @ [f])) @ [OnClose])"
  using assms
proof (induction fs rule: read_loop.induct)
  case 1
  then show ?case by (auto simp: ends_socket_def)
qed (auto simp: ends_socket_def)

theorem callbacks_exact_witness:
  "read_loop ([Ok (TextFrame [104]), Ok (BinaryFrame [200])] @ Ok CloseFrame # [Ok (TextFrame [1])])
    = [OnMessageText [104], OnMessageBinary [200], OnClose]"
  using callbacks_exact [of "[Ok (TextFrame [104]), Ok (BinaryFrame [200])]"]
  by (simp add: ends_socket_def)

end
