(* ===== verification/Client_Wrapper.thy ===== *)
theory Client_Wrapper
  imports Transports
begin

text \<open>
  The browser's websocket as a transport of the multiplexor, \<open>client/src/ws_wrapper.rs\<close>, and how the client
  waits for it to open (\<open>EpoxyClient::new\<close> in \<open>client/src/lib.rs\<close>).

  The callbacks of the browser, the polls of the reading half, the polls of the code that waits for
  the socket to open and the end of the writing half are the steps of a machine; JavaScript runs one at
  a time. A listener of an event is registered when its \<open>select!\<close> is first polled and remembers whether it
  was notified. When both branches of a \<open>select!\<close> are ready, one is chosen at random: the step carries the
  choice. What arrived and what the reader answered are recorded.
\<close>

section \<open>Definitions\<close>

datatype WebSocketError = UnknownError rstring | SendFailed rstring | CloseFailed rstring

definition WebSocketError_into :: "WebSocketError \<Rightarrow> WispError" where
  "WebSocketError_into e = WsImplError (case e of
      UnknownError m \<Rightarrow> ''Unknown JS WebSocket wrapper error: '' @ map (\<lambda>b. char_of (unat b)) m
    | SendFailed m \<Rightarrow> ''Failed to call WebSocket.send: '' @ map (\<lambda>b. char_of (unat b)) m
    | CloseFailed m \<Rightarrow> ''Failed to call WebSocket.close: '' @ map (\<lambda>b. char_of (unat b)) m)"

datatype WebSocketMessage = SocketError WebSocketError | SocketMessage bytes

datatype ready_state = RsConnecting | RsOpen | RsClosed

text \<open>The reading half: not in a call, waiting with a listener of the close event, or ended.\<close>

datatype reader_pc = ReaderIdle | ReaderWaiting bool | ReaderOver

text \<open>The loop around \<open>wait_for_open\<close>, waiting with listeners of the open and the error event.\<close>

datatype opener_pc = OpenerStart | OpenerWaiting bool bool | OpenerOk | OpenerFailed

datatype read_answer = ReadMessage bytes | ReadError WispError | ReadEnd

record wrapper =
  read_queue :: "WebSocketMessage list"
  ws_closed :: bool
  ready_state :: ready_state
  handlers_set :: bool
  writer_alive :: bool
  reader :: reader_pc
  opener :: opener_pc
  received :: "bytes list"
  answers :: "read_answer list"

definition wrapper_connect :: wrapper where
  "wrapper_connect = \<lparr>read_queue = [], ws_closed = False, ready_state = RsConnecting, handlers_set = True,
     writer_alive = True, reader = ReaderIdle, opener = OpenerStart, received = [], answers = []\<rparr>"

text \<open>\<open>notify(usize::MAX)\<close> on an event reaches the listeners that are registered.\<close>

definition notify_close :: "wrapper \<Rightarrow> wrapper" where
  "notify_close s = (case reader s of ReaderWaiting _ \<Rightarrow> s\<lparr>reader := ReaderWaiting True\<rparr> | _ \<Rightarrow> s)"

definition notify_error :: "wrapper \<Rightarrow> wrapper" where
  "notify_error s = (case opener s of OpenerWaiting a _ \<Rightarrow> s\<lparr>opener := OpenerWaiting a True\<rparr> | _ \<Rightarrow> s)"

datatype waction =
    BrowserOpens
  | BrowserMessage bytes
  | BrowserText
  | BrowserCloses
  | BrowserFails rstring
  | PollReader bool
  | PollOpener bool
  | CloseWriter
  | DropWriter

text \<open>\<open>onopen\<close> notifies until some listener was there to be notified: without one it does not return.\<close>

definition onopen :: "wrapper \<Rightarrow> wrapper option" where
  "onopen s = (case opener s of
      OpenerWaiting _ e \<Rightarrow> Some (s\<lparr>ready_state := RsOpen, opener := OpenerWaiting True e\<rparr>) | _ \<Rightarrow> None)"

definition onmessage :: "bytes \<Rightarrow> wrapper \<Rightarrow> wrapper" where
  "onmessage d s = s\<lparr>read_queue := read_queue s @ [SocketMessage d], received := received s @ [d]\<rparr>"

definition onclose :: "wrapper \<Rightarrow> wrapper" where
  "onclose s = notify_close (s\<lparr>ws_closed := True, ready_state := RsClosed\<rparr>)"

definition onerror :: "rstring \<Rightarrow> wrapper \<Rightarrow> wrapper" where
  "onerror m s = notify_error (notify_close (s\<lparr>read_queue := read_queue s @ [SocketError (UnknownError m)],
     ws_closed := True, ready_state := RsClosed\<rparr>))"

text \<open>\<open>recv_async\<close>: an item, the end when all senders are gone, or nothing yet.\<close>

definition recv_async :: "wrapper \<Rightarrow> (wrapper \<times> WebSocketMessage option) poll" where
  "recv_async s = (case read_queue s of
      m # q \<Rightarrow> Ready (s\<lparr>read_queue := q\<rparr>, Some m)
    | [] \<Rightarrow> if writer_alive s then Pending else Ready (s, None))"

definition reader_answer :: "WebSocketMessage option \<Rightarrow> wrapper \<Rightarrow> wrapper" where
  "reader_answer res s = (case res of
      Some (SocketMessage x) \<Rightarrow> s\<lparr>reader := ReaderIdle, answers := answers s @ [ReadMessage x]\<rparr>
    | Some (SocketError e) \<Rightarrow> s\<lparr>reader := ReaderOver, answers := answers s @ [ReadError (WebSocketError_into e)]\<rparr>
    | None \<Rightarrow> s\<lparr>reader := ReaderOver, answers := answers s @ [ReadEnd]\<rparr>)"

definition reader_select :: "bool \<Rightarrow> bool \<Rightarrow> wrapper \<Rightarrow> wrapper" where
  "reader_select choice notified s = (case recv_async s of
      Ready (s', m) \<Rightarrow> if notified \<and> choice then reader_answer None s else reader_answer m s'
    | Pending \<Rightarrow> if notified then reader_answer None s else s\<lparr>reader := ReaderWaiting notified\<rparr>)"

text \<open>The closure of \<open>into_read\<close>; the transport around it must not be polled after its end.\<close>

definition poll_reader :: "bool \<Rightarrow> wrapper \<Rightarrow> wrapper option" where
  "poll_reader choice s = (case reader s of
      ReaderIdle \<Rightarrow>
        Some (if ws_closed s then s\<lparr>reader := ReaderOver, answers := answers s @ [ReadError WsImplSocketClosed]\<rparr>
              else reader_select choice False s)
    | ReaderWaiting notified \<Rightarrow> Some (reader_select choice notified s)
    | ReaderOver \<Rightarrow> None)"

text \<open>\<open>while ready_state() == 0 { if !wait_for_open().await { return Err } }\<close>.\<close>

definition opener_check :: "wrapper \<Rightarrow> wrapper" where
  "opener_check s = s\<lparr>opener := (if ready_state s \<noteq> RsConnecting then OpenerOk
     else if ws_closed s then OpenerFailed else OpenerWaiting False False)\<rparr>"

definition poll_opener :: "bool \<Rightarrow> wrapper \<Rightarrow> wrapper option" where
  "poll_opener choice s = (case opener s of
      OpenerStart \<Rightarrow> Some (opener_check s)
    | OpenerWaiting a e \<Rightarrow> Some (if a \<and> (\<not> e \<or> choice) then opener_check s
        else if e then s\<lparr>opener := OpenerFailed\<rparr> else s)
    | _ \<Rightarrow> None)"

text \<open>The two futures of \<open>into_write\<close>: sending a payload, and the effect of closing.\<close>

definition wrapper_send :: "(bytes \<Rightarrow> rstring option) \<Rightarrow> unit \<Rightarrow> bytes \<Rightarrow> unit wres future" where
  "wrapper_send js_send this item = Running 0 (case js_send item of
      None \<Rightarrow> Ok this | Some m \<Rightarrow> Err (WebSocketError_into (SendFailed m)))"

definition wrapper_close :: "rstring option \<Rightarrow> unit \<Rightarrow> unit wres future" where
  "wrapper_close js_close this = Running 0 (case js_close of
      None \<Rightarrow> Ok () | Some m \<Rightarrow> Err (WebSocketError_into (CloseFailed m)))"

definition close_effect :: "wrapper \<Rightarrow> wrapper" where
  "close_effect s = notify_close (s\<lparr>handlers_set := False, ws_closed := True, ready_state := RsClosed\<rparr>)"

definition wrapper_step :: "waction \<Rightarrow> wrapper \<Rightarrow> wrapper option" where
  "wrapper_step a s = (case a of
      BrowserOpens \<Rightarrow> if handlers_set s \<and> ready_state s = RsConnecting then onopen s else None
    | BrowserMessage d \<Rightarrow> if handlers_set s then Some (onmessage d s) else None
    | BrowserText \<Rightarrow> Some s
    | BrowserCloses \<Rightarrow> if handlers_set s then Some (onclose s) else None
    | BrowserFails m \<Rightarrow> if handlers_set s then Some (onerror m s) else None
    | PollReader choice \<Rightarrow> poll_reader choice s
    | PollOpener choice \<Rightarrow> poll_opener choice s
    | CloseWriter \<Rightarrow> if writer_alive s then Some (close_effect s) else None
    | DropWriter \<Rightarrow> Some (s\<lparr>writer_alive := False, handlers_set := False\<rparr>))"

fun wrapper_run :: "waction list \<Rightarrow> wrapper \<Rightarrow> wrapper option" where
  "wrapper_run [] s = Some s"
| "wrapper_run (a # as) s = Option.bind (wrapper_step a s) (wrapper_run as)"

section \<open>Properties\<close>

fun queued_payloads :: "WebSocketMessage list \<Rightarrow> bytes list" where
  "queued_payloads [] = []"
| "queued_payloads (SocketMessage d # q) = d # queued_payloads q"
| "queued_payloads (SocketError e # q) = queued_payloads q"

fun delivered :: "read_answer list \<Rightarrow> bytes list" where
  "delivered [] = []"
| "delivered (ReadMessage d # r) = d # delivered r"
| "delivered (_ # r) = delivered r"

lemma queued_append [simp]: "queued_payloads (a @ b) = queued_payloads a @ queued_payloads b"
  by (induction a rule: queued_payloads.induct) auto

lemma delivered_append [simp]: "delivered (a @ b) = delivered a @ delivered b"
  by (induction a rule: delivered.induct) auto

definition payloads_ok :: "wrapper \<Rightarrow> bool" where
  "payloads_ok s \<longleftrightarrow> received s = delivered (answers s) @ queued_payloads (read_queue s)
     \<and> (reader s \<noteq> ReaderOver \<longrightarrow> answers s = map ReadMessage (delivered (answers s)))
     \<and> (reader s = ReaderOver \<longrightarrow> (\<exists>x. answers s = map ReadMessage (delivered (answers s)) @ [x] \<and> (\<forall>d. x \<noteq> ReadMessage d)))"

definition reader_ok :: "wrapper \<Rightarrow> bool" where
  "reader_ok s \<longleftrightarrow> ws_closed s \<or> (\<forall>e. SocketError e \<notin> set (read_queue s)) \<and> reader s \<noteq> ReaderWaiting True"

definition opener_ok :: "wrapper \<Rightarrow> bool" where
  "opener_ok s \<longleftrightarrow> (case opener s of
      OpenerStart \<Rightarrow> True
    | OpenerWaiting a e \<Rightarrow> (a \<longrightarrow> ready_state s \<noteq> RsConnecting) \<and> (e \<longrightarrow> ws_closed s)
    | OpenerOk \<Rightarrow> ready_state s \<noteq> RsConnecting
    | OpenerFailed \<Rightarrow> ws_closed s)"

lemma notify_sel [simp]:
  "read_queue (notify_close s) = read_queue s" "received (notify_close s) = received s" "answers (notify_close s) = answers s"
  "ws_closed (notify_close s) = ws_closed s" "ready_state (notify_close s) = ready_state s" "opener (notify_close s) = opener s"
  "reader (notify_close s) = (case reader s of ReaderWaiting _ \<Rightarrow> ReaderWaiting True | r \<Rightarrow> r)"
  "read_queue (notify_error s) = read_queue s" "received (notify_error s) = received s" "answers (notify_error s) = answers s"
  "ws_closed (notify_error s) = ws_closed s" "ready_state (notify_error s) = ready_state s" "reader (notify_error s) = reader s"
  "opener (notify_error s) = (case opener s of OpenerWaiting a _ \<Rightarrow> OpenerWaiting a True | r \<Rightarrow> r)"
  by (simp_all add: notify_close_def notify_error_def split: reader_pc.splits opener_pc.splits)

lemma payloads_ok_frame:
  assumes "payloads_ok s" "answers t = answers s" "reader t = ReaderOver \<longleftrightarrow> reader s = ReaderOver"
    and "received t = delivered (answers s) @ queued_payloads (read_queue t)"
  shows "payloads_ok t"
  using assms by (simp add: payloads_ok_def)

lemma reader_pc_over [simp]:
  "(case r of ReaderWaiting _ \<Rightarrow> ReaderWaiting True | r \<Rightarrow> r) = ReaderOver \<longleftrightarrow> r = ReaderOver"
  by (cases r) auto

text \<open>A select of the reader that is not over takes one message, ends, or waits on.\<close>

lemma reader_select_payloads:
  assumes "payloads_ok s" "reader s \<noteq> ReaderOver"
  shows "payloads_ok (reader_select choice notified s)"
proof -
  from assms have inv: "received s = delivered (answers s) @ queued_payloads (read_queue s)"
      "answers s = map ReadMessage (delivered (answers s))"
    by (simp_all add: payloads_ok_def)
  have ends: "payloads_ok (reader_answer None s)"
    using inv by (simp add: payloads_ok_def reader_answer_def)
  show ?thesis
  proof (cases "read_queue s")
    case Nil
    with ends inv show ?thesis
      by (auto simp: reader_select_def recv_async_def payloads_ok_def reader_answer_def)
  next
    case (Cons m q)
    have "payloads_ok (reader_answer (Some m) (s\<lparr>read_queue := q\<rparr>))"
    proof (cases m)
      case (SocketError e)
      with inv Cons show ?thesis by (simp add: payloads_ok_def reader_answer_def)
    next
      case (SocketMessage d)
      have "answers s @ [ReadMessage d] = map ReadMessage (delivered (answers s @ [ReadMessage d]))"
        using inv(2) by simp
      with inv(1) Cons SocketMessage show ?thesis by (simp add: payloads_ok_def reader_answer_def)
    qed
    with Cons ends show ?thesis by (simp add: reader_select_def recv_async_def)
  qed
qed

lemma payloads_step:
  assumes "payloads_ok s" "wrapper_step a s = Some s'"
  shows "payloads_ok s'"
proof (cases a)
  case (PollReader choice)
  show ?thesis
  proof (cases "reader s")
    case ReaderIdle
    with assms(1) have "answers s = map ReadMessage (delivered (answers s))"
        "received s = delivered (answers s) @ queued_payloads (read_queue s)"
      by (simp_all add: payloads_ok_def)
    then have "payloads_ok (s\<lparr>reader := ReaderOver, answers := answers s @ [ReadError WsImplSocketClosed]\<rparr>)"
      by (simp add: payloads_ok_def)
    with assms PollReader ReaderIdle reader_select_payloads [OF assms(1), of choice False] show ?thesis
      by (auto simp: wrapper_step_def poll_reader_def split: if_splits)
  next
    case (ReaderWaiting n)
    with assms PollReader reader_select_payloads [OF assms(1), of choice n] show ?thesis
      by (auto simp: wrapper_step_def poll_reader_def)
  next
    case ReaderOver
    with assms PollReader show ?thesis by (simp add: wrapper_step_def poll_reader_def)
  qed
qed (use assms in \<open>auto simp: wrapper_step_def onopen_def onmessage_def onclose_def onerror_def close_effect_def
      poll_opener_def opener_check_def payloads_ok_def split: if_splits opener_pc.splits\<close>)

lemma wrapper_run_invariant:
  assumes "wrapper_run as s = Some s'" "P s" "\<And>a t t'. P t \<Longrightarrow> wrapper_step a t = Some t' \<Longrightarrow> P t'"
  shows "P s'"
  using assms(1,2) by (induction as arbitrary: s) (auto simp: bind_eq_Some_conv intro: assms(3))

lemma wrapper_payloads:
  assumes "wrapper_run as wrapper_connect = Some s"
  shows "received s = delivered (answers s) @ queued_payloads (read_queue s)
    \<and> (\<exists>last. answers s = map ReadMessage (delivered (answers s)) @ last \<and> length last \<le> 1
         \<and> (last \<noteq> [] \<longleftrightarrow> reader s = ReaderOver))"
proof -
  have "payloads_ok wrapper_connect" by (simp add: payloads_ok_def wrapper_connect_def)
  with assms have "payloads_ok s" by (rule wrapper_run_invariant [where P = payloads_ok]) (rule payloads_step)
  then show ?thesis
    by (cases "reader s = ReaderOver") (fastforce simp: payloads_ok_def)+
qed

text \<open>
  C20. The transport hands on exactly what the socket received. In every run of callbacks and polls the payloads the
  reader has delivered are the first ones that arrived, in order, and the others are all still queued;
  it answers an error or the end at most once, as its last answer.
\<close>

theorem wrapper_reader_exact:
  assumes "wrapper_run as wrapper_connect = Some s"
  shows "received s = delivered (answers s) @ queued_payloads (read_queue s)
    \<and> (\<exists>last. answers s = map ReadMessage (delivered (answers s)) @ last \<and> length last \<le> 1
         \<and> (last \<noteq> [] \<longleftrightarrow> reader s = ReaderOver))"
  using assms by (rule wrapper_payloads)

definition demo_traffic :: "waction list" where
  "demo_traffic = [PollOpener True, BrowserOpens, PollOpener True, PollReader True, BrowserMessage [1], BrowserMessage [2],
     PollReader True]"

theorem wrapper_reader_exact_witness:
  "\<exists>s. wrapper_run demo_traffic wrapper_connect = Some s \<and> received s = [[1], [2]]
     \<and> received s = delivered (answers s) @ queued_payloads (read_queue s) \<and> answers s = [ReadMessage [1]]"
proof -
  obtain s where s: "wrapper_run demo_traffic wrapper_connect = Some s" "received s = [[1], [2]]" "answers s = [ReadMessage [1]]"
    by (simp add: demo_traffic_def wrapper_step_def wrapper_connect_def poll_opener_def opener_check_def onopen_def
        poll_reader_def reader_select_def recv_async_def onmessage_def reader_answer_def)
  with wrapper_reader_exact [OF s(1)] show ?thesis by blast
qed

lemma reader_select_sel [simp]:
  "opener (reader_select choice n s) = opener s" "ws_closed (reader_select choice n s) = ws_closed s"
  "ready_state (reader_select choice n s) = ready_state s"
  by (simp_all add: reader_select_def recv_async_def reader_answer_def split: list.split option.split WebSocketMessage.split)

lemma reader_select_reader:
  assumes "reader_ok s" "\<not> n"
  shows "reader_ok (reader_select choice n s)"
proof (cases "read_queue s")
  case Nil
  with assms show ?thesis by (simp add: reader_select_def recv_async_def reader_answer_def reader_ok_def)
next
  case (Cons m q)
  with assms show ?thesis
    by (cases m) (auto simp: reader_select_def recv_async_def reader_answer_def reader_ok_def)
qed

lemma reader_step:
  assumes "reader_ok s" "wrapper_step a s = Some s'"
  shows "reader_ok s'"
proof (cases a)
  case (PollReader choice)
  show ?thesis
  proof (cases "ws_closed s")
    case True
    with assms(2) PollReader have "ws_closed s'"
      by (auto simp: wrapper_step_def poll_reader_def split: reader_pc.splits)
    then show ?thesis by (simp add: reader_ok_def)
  next
    case False
    with assms(1) have "reader s \<noteq> ReaderWaiting True" by (simp add: reader_ok_def)
    with False assms PollReader show ?thesis
      by (cases "reader s") (auto simp: wrapper_step_def poll_reader_def intro: reader_select_reader)
  qed
next
  case (PollOpener choice)
  with assms show ?thesis
    by (auto simp: wrapper_step_def poll_opener_def opener_check_def reader_ok_def split: opener_pc.splits if_splits)
qed (use assms in \<open>auto simp: wrapper_step_def reader_ok_def onopen_def onmessage_def onclose_def onerror_def
      close_effect_def split: if_splits opener_pc.splits\<close>)

lemma opener_step:
  assumes "opener_ok s" "wrapper_step a s = Some s'"
  shows "opener_ok s'"
proof (cases a)
  case (PollReader choice)
  with assms show ?thesis
    by (cases "opener s") (auto simp: wrapper_step_def poll_reader_def opener_ok_def split: reader_pc.splits if_splits)
next
  case (PollOpener choice)
  have "opener_ok (opener_check s)" by (simp add: opener_ok_def opener_check_def)
  with assms PollOpener show ?thesis
    by (cases "opener s") (auto simp: wrapper_step_def poll_opener_def opener_ok_def split: if_splits)
qed (use assms in \<open>cases "opener s"; auto simp: wrapper_step_def opener_ok_def onopen_def onmessage_def onclose_def
      onerror_def close_effect_def split: if_splits\<close>)+

lemma closing_run:
  assumes "wrapper_run as wrapper_connect = Some s"
  shows "reader_ok s \<and> opener_ok s"
proof -
  have "reader_ok wrapper_connect \<and> opener_ok wrapper_connect"
    by (simp add: reader_ok_def opener_ok_def wrapper_connect_def)
  with assms show ?thesis
    by (rule wrapper_run_invariant [where P = "\<lambda>s. reader_ok s \<and> opener_ok s"]) (blast intro: reader_step opener_step)
qed

lemma open_poll_delivers:
  assumes "reader_ok s" "\<not> ws_closed s" "reader s \<noteq> ReaderOver" "read_queue s = SocketMessage d # q"
  shows "wrapper_step (PollReader choice) s =
    Some (s\<lparr>read_queue := q, reader := ReaderIdle, answers := answers s @ [ReadMessage d]\<rparr>)"
  using assms
  by (cases "reader s") (auto simp: wrapper_step_def poll_reader_def reader_select_def recv_async_def
      reader_answer_def reader_ok_def)

text \<open>
  While the socket is open nothing that arrived is held back: polling the reader as often as payloads are
  queued delivers all of them.
\<close>

theorem open_socket_delivers:
  assumes "wrapper_run as wrapper_connect = Some s" "\<not> ws_closed s" "reader s \<noteq> ReaderOver"
  shows "\<exists>s'. wrapper_run (replicate (length (read_queue s)) (PollReader choice)) s = Some s'
    \<and> delivered (answers s') = received s"
proof -
  have "\<exists>s'. wrapper_run (replicate (length q) (PollReader choice)) t = Some s'
      \<and> delivered (answers s') = delivered (answers t) @ queued_payloads q"
    if "reader_ok t" "\<not> ws_closed t" "reader t \<noteq> ReaderOver" "read_queue t = q" for t q
    using that
  proof (induction q arbitrary: t)
    case (Cons m q)
    then obtain d where m: "m = SocketMessage d"
      by (cases m) (auto simp: reader_ok_def)
    let ?t = "t\<lparr>read_queue := q, reader := ReaderIdle, answers := answers t @ [ReadMessage d]\<rparr>"
    have step: "wrapper_step (PollReader choice) t = Some ?t"
      using open_poll_delivers [of t d q choice] Cons.prems m by simp
    have "reader_ok ?t" using reader_step [OF Cons.prems(1) step] .
    with Cons.IH [of ?t] Cons.prems(2) step m show ?case by simp
  qed simp
  from this [OF conjunct1 [OF closing_run [OF assms(1)]] assms(2,3) refl] wrapper_payloads [OF assms(1)]
  show ?thesis by auto
qed

theorem open_socket_delivers_witness:
  "\<exists>s s'. wrapper_run demo_traffic wrapper_connect = Some s \<and> answers s = [ReadMessage [1]]
     \<and> wrapper_run (replicate (length (read_queue s)) (PollReader True)) s = Some s' \<and> delivered (answers s') = [[1], [2]]"
proof -
  obtain s where s: "wrapper_run demo_traffic wrapper_connect = Some s" "answers s = [ReadMessage [1]]"
      "\<not> ws_closed s" "reader s \<noteq> ReaderOver" "received s = [[1], [2]]"
    by (simp add: demo_traffic_def wrapper_step_def wrapper_connect_def poll_opener_def opener_check_def onopen_def
        poll_reader_def reader_select_def recv_async_def onmessage_def reader_answer_def)
  with open_socket_delivers [OF s(1,3,4), of True] show ?thesis by auto
qed

text \<open>
  Once the socket has closed, what is still queued is lost: the next call of the reader fails without
  looking at the queue.
\<close>

lemma close_loses_messages:
  "\<exists>s. wrapper_run [PollOpener True, BrowserOpens, PollOpener True, BrowserMessage [1], BrowserCloses, PollReader True]
      wrapper_connect = Some s
    \<and> received s = [[1]] \<and> reader s = ReaderOver \<and> answers s = [ReadError WsImplSocketClosed]"
  by (simp add: wrapper_step_def wrapper_connect_def poll_opener_def opener_check_def onopen_def
      poll_reader_def onmessage_def onclose_def notify_close_def)

text \<open>
  The client is handed a transport only after the socket has left the connecting state, and it gives up
  only when the socket has failed.
\<close>

lemma opening_decided:
  assumes "wrapper_run as wrapper_connect = Some s"
  shows "(opener s = OpenerOk \<longrightarrow> ready_state s \<noteq> RsConnecting) \<and> (opener s = OpenerFailed \<longrightarrow> ws_closed s)"
  using closing_run [OF assms] by (auto simp: opener_ok_def)

end
