(* ===== verification/Client_Io.thy ===== *)
theory Client_Io
  imports Transports Client_Types
begin

text \<open>
  The adaptors between readers, writers and JavaScript streams in the browser client: \<open>ReaderStream\<close> and the
  sink of a custom transport (\<open>client/src/utils/mod.rs\<close>), the TLS reader that takes a missing close
  notification for the end (\<open>utils/rustls.rs\<close>), the readers of \<open>hyper\<close> and \<open>tokio\<close> made from each other
  (\<open>tokioio.rs\<close>, \<open>stream_provider.rs\<close>) and the streams given to JavaScript (\<open>io_stream.rs\<close>).

  A reader answers a poll with a buffer of some size, as in theory \<open>Transports\<close>; its contract is the
  locale \<open>byte_reader\<close>, and the adaptors are shown to keep it.
\<close>

section \<open>ReaderStream\<close>

text \<open>
  The buffer is empty between polls, so its state is its room. \<open>reserve n\<close> is the room the allocator gives for at
  least \<open>n\<close> bytes; an empty \<open>BytesMut\<close> without room reserves 64 bytes when it is written to.
\<close>

record 's ReaderStream =
  rs_reader :: "'s option"
  rs_room :: nat
  rs_capacity :: nat

definition ReaderStream_new :: "'s \<Rightarrow> nat \<Rightarrow> 's ReaderStream" where
  "ReaderStream_new rd capacity = \<lparr>rs_reader = Some rd, rs_room = 0, rs_capacity = capacity\<rparr>"

definition chunk_mut :: "(nat \<Rightarrow> nat) \<Rightarrow> nat \<Rightarrow> nat" where
  "chunk_mut reserve room = (if room = 0 then reserve 64 else room)"

definition poll_read_buf :: "(nat \<Rightarrow> nat) \<Rightarrow> 's poll_read \<Rightarrow> 's \<Rightarrow> nat \<Rightarrow> 's \<times> nat \<times> bytes io poll" where
  "poll_read_buf reserve rd s room = (let room = chunk_mut reserve room
     in case rd s room of (s', r) \<Rightarrow> (s', room, r))"

fun rs_answer :: "'s ReaderStream \<Rightarrow> 's \<times> nat \<times> bytes io poll \<Rightarrow> 's ReaderStream \<times> bytes io option poll" where
  "rs_answer st (s, room, Pending) = (st\<lparr>rs_reader := Some s, rs_room := room\<rparr>, Pending)"
| "rs_answer st (s, room, Ready (Failed m)) = (st\<lparr>rs_reader := None, rs_room := room\<rparr>, Ready (Some (Failed m)))"
| "rs_answer st (s, room, Ready (Done d)) =
    (if d = [] then (st\<lparr>rs_reader := None, rs_room := room\<rparr>, Ready None)
     else (st\<lparr>rs_reader := Some s, rs_room := room - length d\<rparr>, Ready (Some (Done d))))"

definition rs_poll_next ::
    "(nat \<Rightarrow> nat) \<Rightarrow> 's poll_read \<Rightarrow> 's ReaderStream \<Rightarrow> 's ReaderStream \<times> bytes io option poll" where
  "rs_poll_next reserve rd st = (case rs_reader st of
      None \<Rightarrow> (st, Ready None)
    | Some s \<Rightarrow> rs_answer st (poll_read_buf reserve rd s
        (if rs_room st = 0 then reserve (rs_capacity st) else rs_room st)))"

section \<open>Close notifications\<close>

text \<open>\<open>unexpected_eof\<close> is the kind of an error; \<open>sublist\<close> is \<open>contains\<close> of its text.\<close>

definition map_close_notify :: "(rstring \<Rightarrow> bool) \<Rightarrow> bytes io \<Rightarrow> bytes io" where
  "map_close_notify unexpected_eof x = (case x of
      Done d \<Rightarrow> Done d
    | Failed m \<Rightarrow> if unexpected_eof m \<and> sublist (ascii ''TLS close_notify'') m then Done [] else Failed m)"

definition ignore_close_notify_read :: "(rstring \<Rightarrow> bool) \<Rightarrow> 's poll_read \<Rightarrow> 's poll_read" where
  "ignore_close_notify_read unexpected_eof rd s n = map_prod id (poll_map (map_close_notify unexpected_eof)) (rd s n)"

section \<open>Readers with a buffer\<close>

text \<open>
  The readers of \<open>hyper\<close> and \<open>tokio\<close> fill a buffer: what is filled, and the room left. \<open>HyperIo\<close> passes the room as
  a slice; \<open>TokioIo\<close> makes a new buffer over the room and counts what was filled.
\<close>

record read_buf =
  rb_filled :: bytes
  rb_unfilled :: nat

type_synonym 's buf_read = "'s \<Rightarrow> read_buf \<Rightarrow> 's \<times> read_buf \<times> unit io poll"

definition rb_advance :: "bytes \<Rightarrow> read_buf \<Rightarrow> read_buf" where
  "rb_advance d b = \<lparr>rb_filled = rb_filled b @ d, rb_unfilled = rb_unfilled b - length d\<rparr>"

definition rb_rest :: "read_buf \<Rightarrow> read_buf" where
  "rb_rest b = \<lparr>rb_filled = [], rb_unfilled = rb_unfilled b\<rparr>"

definition HyperIo_poll_read :: "'s poll_read \<Rightarrow> 's buf_read" where
  "HyperIo_poll_read rd s b = (case rd s (rb_unfilled b) of
      (s', Ready (Done d)) \<Rightarrow> (s', rb_advance d b, Ready (Done ()))
    | (s', Ready (Failed m)) \<Rightarrow> (s', b, Ready (Failed m))
    | (s', Pending) \<Rightarrow> (s', b, Pending))"

definition tokio_to_hyper :: "'s buf_read \<Rightarrow> 's buf_read" where
  "tokio_to_hyper rd s b = (case rd s (rb_rest b) of
      (s', tb, Ready (Done u)) \<Rightarrow> (s', rb_advance (rb_filled tb) b, Ready (Done ()))
    | (s', tb, r) \<Rightarrow> (s', b, r))"

definition hyper_to_tokio :: "'s buf_read \<Rightarrow> 's buf_read" where
  "hyper_to_tokio rd s b = (case rd s (rb_rest b) of
      (s', hb, Ready (Done u)) \<Rightarrow> (s', rb_advance (rb_filled hb) b, Ready (Done ()))
    | (s', hb, r) \<Rightarrow> (s', b, r))"

section \<open>The sink of a custom transport\<close>

record 's js_sink =
  js_poll_ready :: "'s \<Rightarrow> 's \<times> (unit, rstring) res poll"
  js_start_send :: "bytes \<Rightarrow> 's \<Rightarrow> 's \<times> (unit, rstring) res"
  js_poll_flush :: "'s \<Rightarrow> 's \<times> (unit, rstring) res poll"
  js_poll_close :: "'s \<Rightarrow> 's \<times> (unit, rstring) res poll"

text \<open>\<open>EpoxyError::wisp_transport\<close>, as the multiplexor carries it.\<close>

definition wisp_transport_error :: "rstring \<Rightarrow> WispError" where
  "wisp_transport_error m = WsImplError (''Custom Wisp transport: '' @ map (\<lambda>b. char_of (unat b)) m)"

definition transport_poll_ready :: "'s js_sink \<Rightarrow> 's \<Rightarrow> 's \<times> unit wres poll" where
  "transport_poll_ready k s = map_prod id (poll_map (map_err wisp_transport_error)) (js_poll_ready k s)"

definition transport_start_send :: "'s js_sink \<Rightarrow> bytes \<Rightarrow> 's \<Rightarrow> 's \<times> unit wres" where
  "transport_start_send k item s = map_prod id (map_err wisp_transport_error) (js_start_send k item s)"

definition transport_poll_flush :: "'s js_sink \<Rightarrow> 's \<Rightarrow> 's \<times> unit wres poll" where
  "transport_poll_flush k s = map_prod id (poll_map (map_err wisp_transport_error)) (js_poll_flush k s)"

definition transport_poll_close :: "'s js_sink \<Rightarrow> 's \<Rightarrow> 's \<times> unit wres poll" where
  "transport_poll_close k s = map_prod id (poll_map (map_err wisp_transport_error)) (js_poll_close k s)"

text \<open>
  \<open>create_wisp_transport\<close>: the function given by the page is called with the version, the promise it may return is
  awaited, and the two streams are taken from its result. \<open>jt_show\<close> is the text of a JavaScript value as an error.
\<close>

record ('v, 'r, 'w) js_transport =
  jt_call :: "bool \<Rightarrow> ('v, 'v) res"
  jt_promise :: "'v \<Rightarrow> ('v, 'v) res option"
  jt_read :: "'v \<Rightarrow> ('r, 'v) res"
  jt_write :: "'v \<Rightarrow> ('w, 'v) res"
  jt_array_buffer :: "'v \<Rightarrow> bytes option"
  jt_show :: "'v \<Rightarrow> rstring"

definition epoxy_wisp_transport :: "('v, 'r, 'w) js_transport \<Rightarrow> 'v \<Rightarrow> EpoxyError" where
  "epoxy_wisp_transport j v = WispTransport (jt_show j v)"

definition create_wisp_transport :: "('v, 'r, 'w) js_transport \<Rightarrow> bool \<Rightarrow> ('r \<times> 'w) eres" where
  "create_wisp_transport j wisp_v2 =
    res_bind (map_err (epoxy_wisp_transport j) (jt_call j wisp_v2)) (\<lambda>transport.
    res_bind (case jt_promise j transport of None \<Rightarrow> Ok transport | Some r \<Rightarrow> map_err (epoxy_wisp_transport j) r) (\<lambda>transport.
    res_bind (map_err (epoxy_wisp_transport j) (jt_read j transport)) (\<lambda>rd.
    res_bind (map_err (epoxy_wisp_transport j) (jt_write j transport)) (\<lambda>wr. Ok (rd, wr)))))"

definition transport_packet :: "('v, 'r, 'w) js_transport \<Rightarrow> ('v, 'v) res \<Rightarrow> bytes wres" where
  "transport_packet j x =
    res_bind (map_err (wisp_transport_error \<circ> jt_show j) x) (\<lambda>pkt.
    ok_or (jt_array_buffer j pkt) (WsImplError (''Invalid Wisp transport packet: '' @ map (\<lambda>b. char_of (unat b)) (jt_show j pkt))))"

section \<open>Streams for JavaScript\<close>

text \<open>
  The readable stream gives the chunks of a \<open>ReaderStream\<close> with its errors wrapped; the writable stream
  converts what JavaScript writes to bytes before it is sent.
\<close>

definition iostream_read :: "(nat \<Rightarrow> nat) \<Rightarrow> 's poll_read \<Rightarrow> 's ReaderStream \<Rightarrow> 's ReaderStream \<times> bytes eres option poll" where
  "iostream_read reserve rd st = map_prod id (poll_map (map_option
     (\<lambda>x. case x of Done d \<Rightarrow> Ok d | Failed m \<Rightarrow> Err (IoFailed m)))) (rs_poll_next reserve rd st)"

definition iostream_write :: "(js_value \<Rightarrow> bytes option) \<Rightarrow> (bytes \<Rightarrow> 'w \<Rightarrow> 'w \<times> unit eres) \<Rightarrow> js_value \<Rightarrow> 'w \<Rightarrow> 'w \<times> unit eres" where
  "iostream_write convert_body sink x w = (case convert_body x of
      None \<Rightarrow> (w, Err InvalidPayload) | Some d \<Rightarrow> sink d w)"

section \<open>Properties of ReaderStream\<close>

text \<open>The chunks that a number of polls yield, and the stream after them.\<close>

fun rs_polls :: "(nat \<Rightarrow> nat) \<Rightarrow> 's poll_read \<Rightarrow> nat \<Rightarrow> 's ReaderStream \<Rightarrow> 's ReaderStream \<times> bytes list" where
  "rs_polls reserve rd 0 st = (st, [])"
| "rs_polls reserve rd (Suc n) st = (case rs_poll_next reserve rd st of
      (st', Ready (Some (Done d))) \<Rightarrow> map_prod id ((#) d) (rs_polls reserve rd n st')
    | (st', r) \<Rightarrow> rs_polls reserve rd n st')"

definition allocates :: "(nat \<Rightarrow> nat) \<Rightarrow> bool" where
  "allocates reserve \<longleftrightarrow> (\<forall>n. n \<le> reserve n)"

lemma chunk_mut_pos: "allocates reserve \<Longrightarrow> 0 < chunk_mut reserve room"
  by (auto simp: chunk_mut_def allocates_def intro: less_le_trans [of 0 64])

lemma rs_polls_ended:
  "rs_reader st = None \<Longrightarrow> rs_polls reserve rd n st = (st, [])"
  by (induction n) (simp_all add: rs_poll_next_def)

context byte_reader begin

text \<open>One poll reads with some positive size.\<close>

lemma rs_poll_reads:
  assumes "allocates reserve" "rs_reader st = Some s"
  obtains k s' r where "0 < k" "poll_read s k = (s', r)" "rs_poll_next reserve poll_read st = rs_answer st (s', k, r)"
proof -
  let ?k = "chunk_mut reserve (if rs_room st = 0 then reserve (rs_capacity st) else rs_room st)"
  obtain s' r where sr: "poll_read s ?k = (s', r)" by force
  have "rs_poll_next reserve poll_read st = rs_answer st (s', ?k, r)"
    unfolding rs_poll_next_def poll_read_buf_def Let_def assms(2) option.case(2) sr prod.case ..
  then show ?thesis by (rule that [OF chunk_mut_pos [OF assms(1)] sr])
qed

lemma rs_polls_prefix:
  assumes "allocates reserve"
  shows "rs_reader st = Some s \<Longrightarrow> prefix (concat (snd (rs_polls reserve poll_read n st))) (rest s)
    \<and> [] \<notin> set (snd (rs_polls reserve poll_read n st))"
proof (induction n arbitrary: st s)
  case (Suc n)
  from assms Suc.prems obtain k s' r where k: "0 < k" "poll_read s k = (s', r)" and
    p: "rs_poll_next reserve poll_read st = rs_answer st (s', k, r)"
    by (rule rs_poll_reads)
  show ?case
  proof (cases r)
    case Pending
    with k waits [OF k(1), of s s'] p Suc.IH [of "st\<lparr>rs_reader := Some s', rs_room := k\<rparr>" s'] show ?thesis by simp
  next
    case (Ready x)
    show ?thesis
    proof (cases x)
      case (Done d)
      with k Ready gives [OF k(1), of s s' d] p
        Suc.IH [of "st\<lparr>rs_reader := Some s', rs_room := k - length d\<rparr>" s'] show ?thesis
        by (cases "d = []") (auto simp: rs_polls_ended map_prod_def split: prod.splits)
    qed (use Ready p in \<open>simp add: rs_polls_ended\<close>)
  qed
qed simp

end

context live_reader begin

lemma rs_polls_complete:
  assumes "allocates reserve"
  shows "rs_reader st = Some s \<Longrightarrow> fuel s < n \<Longrightarrow> concat (snd (rs_polls reserve poll_read n st)) = rest s
    \<and> rs_reader (fst (rs_polls reserve poll_read n st)) = None"
proof (induction n arbitrary: st s)
  case (Suc n)
  from assms Suc.prems(1) obtain k s' r where k: "0 < k" "poll_read s k = (s', r)" and
    p: "rs_poll_next reserve poll_read st = rs_answer st (s', k, r)"
    by (rule rs_poll_reads)
  show ?case
  proof (cases "r = Ready (Done [])")
    case True
    with k at_end [OF k(1), of s s'] p show ?thesis by (simp add: rs_polls_ended)
  next
    case False
    with progress [OF k] Suc.prems(2) have less: "fuel s' < n" by simp
    show ?thesis
    proof (cases r)
      case Pending
      with k waits [OF k(1), of s s'] p Suc.IH [OF _ less, of "st\<lparr>rs_reader := Some s', rs_room := k\<rparr>"]
      show ?thesis by simp
    next
      case (Ready x)
      with no_failure k False obtain d where "x = Done d" "d \<noteq> []" by (cases x) auto
      with Ready k gives [OF k(1), of s s' d] p
        Suc.IH [OF _ less, of "st\<lparr>rs_reader := Some s', rs_room := k - length d\<rparr>"] show ?thesis
        by (auto simp: map_prod_def split: prod.splits)
    qed
  qed
qed simp

end

section \<open>Properties of TLS readers\<close>

text \<open>A reader that may report a missing close notification as an error, once all bytes were read.\<close>

locale tls_reader = byte_reader poll_read rest for poll_read :: "'s poll_read" and rest :: "'s \<Rightarrow> bytes" +
  fixes unexpected_eof :: "rstring \<Rightarrow> bool"
  assumes cut: "0 < n \<Longrightarrow> poll_read s n = (s', Ready (Failed m)) \<Longrightarrow> unexpected_eof m
    \<Longrightarrow> sublist (ascii ''TLS close_notify'') m \<Longrightarrow> rest s = [] \<and> rest s' = []"

text \<open>What the reader answers through the adaptor comes from an answer of the reader.\<close>

lemma ignore_close_notify_cases:
  assumes "ignore_close_notify_read eof rd s n = (s', r)"
  obtains (same) "rd s n = (s', r)"
  | (ended) m where "rd s n = (s', Ready (Failed m))" "eof m" "sublist (ascii ''TLS close_notify'') m" "r = Ready (Done [])"
proof -
  obtain q where q: "rd s n = (s', q)" "r = poll_map (map_close_notify eof) q"
    using assms by (cases "rd s n") (auto simp: ignore_close_notify_read_def)
  show ?thesis
  proof (cases q)
    case (Ready x)
    with q same ended show ?thesis by (cases x) (auto simp: map_close_notify_def split: if_splits)
  qed (use q same in simp)
qed

sublocale tls_reader \<subseteq> quiet: byte_reader "ignore_close_notify_read unexpected_eof poll_read" rest
proof
  fix n :: nat and s s' d
  assume n: "0 < n"
  show "rest s = d @ rest s'" if "ignore_close_notify_read unexpected_eof poll_read s n = (s', Ready (Done d))"
    using that by (cases rule: ignore_close_notify_cases) (use gives [OF n] cut [OF n] in auto)
  show "rest s = []" if "ignore_close_notify_read unexpected_eof poll_read s n = (s', Ready (Done []))"
    using that by (cases rule: ignore_close_notify_cases) (use at_end [OF n] cut [OF n] in auto)
  show "rest s' = rest s" if "ignore_close_notify_read unexpected_eof poll_read s n = (s', Pending)"
    using that by (cases rule: ignore_close_notify_cases) (use waits [OF n] in auto)
qed

text \<open>A TLS connection that the peer cuts without a close notification.\<close>

definition cut_error :: rstring where
  "cut_error = ascii ''peer closed connection without sending TLS close_notify''"

definition tls_read :: "bytes list poll_read" where
  "tls_read cs n = (if cs = [] then ([], Ready (Failed cut_error)) else chunks_read cs n)"

interpretation tls: tls_reader tls_read concat "\<lambda>m. m = cut_error"
proof
  fix n :: nat and s s' :: "bytes list" and d m
  assume n: "0 < n"
  show "concat s = d @ concat s'" if "tls_read s n = (s', Ready (Done d))"
    using that chunks.gives [OF n] by (auto simp: tls_read_def split: if_splits)
  show "concat s = []" if "tls_read s n = (s', Ready (Done []))"
    using that chunks.at_end [OF n] by (auto simp: tls_read_def split: if_splits)
  show "concat s' = concat s" if "tls_read s n = (s', Pending)"
    using that chunks.waits [OF n] by (auto simp: tls_read_def split: if_splits)
  show "concat s = [] \<and> concat s' = []" if "tls_read s n = (s', Ready (Failed m))"
    using that chunks.no_failure [of s n s' m] by (auto simp: tls_read_def split: if_splits)
qed

lemma cut_error_text: "sublist (ascii ''TLS close_notify'') cut_error"
proof -
  have "cut_error = ascii ''peer closed connection without sending '' @ ascii ''TLS close_notify'' @ []"
    by (simp add: cut_error_def ascii_def)
  then show ?thesis unfolding sublist_def by blast
qed

lemma tls_quiet_read:
  "ignore_close_notify_read (\<lambda>m. m = cut_error) tls_read cs n = (if cs = [] then ([], Ready (Done [])) else
     case chunks_read cs n of (cs', r) \<Rightarrow> (cs', r))"
proof (cases "chunks_read cs n")
  case (Pair cs' r)
  show ?thesis
  proof (cases r)
    case (Ready x)
    with Pair chunks.no_failure [of cs n cs'] cut_error_text show ?thesis
      by (cases x) (auto simp: ignore_close_notify_read_def tls_read_def map_close_notify_def)
  qed (use Pair cut_error_text in \<open>auto simp: ignore_close_notify_read_def tls_read_def map_close_notify_def\<close>)
qed

interpretation tls_live: live_reader "ignore_close_notify_read (\<lambda>m. m = cut_error) tls_read" concat
  "\<lambda>cs. length cs + length (concat cs)"
proof
  fix n :: nat and s s' :: "bytes list" and r m
  show "length s' + length (concat s') < length s + length (concat s)"
    if "0 < n" "ignore_close_notify_read (\<lambda>m. m = cut_error) tls_read s n = (s', r)" "r \<noteq> Ready (Done [])"
    using that chunks.progress [OF that(1), of s s' r] by (auto simp: tls_quiet_read split: if_splits)
  show "ignore_close_notify_read (\<lambda>m. m = cut_error) tls_read s n \<noteq> (s', Ready (Failed m))"
    using chunks.no_failure [of s n s' m] by (auto simp: tls_quiet_read)
qed



section \<open>Properties of readers with a buffer\<close>

text \<open>
  A reader that adds to the filled part of its buffer, looks only at the room left, and changes nothing
  when it is not done.
\<close>

locale buf_reader =
  fixes rd :: "'s buf_read"
  assumes fills: "rd s (rb_rest b) = (s', t, Ready (Done u)) \<Longrightarrow> rd s b = (s', rb_advance (rb_filled t) b, Ready (Done ()))"
    and waits: "rd s (rb_rest b) = (s', t, r) \<Longrightarrow> r \<noteq> Ready (Done ()) \<Longrightarrow> rd s b = (s', b, r)"
begin

lemma tokio_to_hyper_same: "tokio_to_hyper rd s b = rd s b"
proof -
  obtain s' t r where r: "rd s (rb_rest b) = (s', t, r)" by (cases "rd s (rb_rest b)")
  show ?thesis
  proof (cases "r = Ready (Done ())")
    case True
    with r fills [of s b s' t "()"] show ?thesis by (simp add: tokio_to_hyper_def)
  next
    case False
    with r waits [of s b s' t r] show ?thesis
      by (auto simp: tokio_to_hyper_def split: poll.splits io.splits)
  qed
qed

lemma hyper_to_tokio_same: "hyper_to_tokio rd s b = rd s b"
  using tokio_to_hyper_same by (simp add: hyper_to_tokio_def tokio_to_hyper_def)

end

interpretation hyper_io: buf_reader "HyperIo_poll_read rd" for rd
  by unfold_locales (auto simp: HyperIo_poll_read_def rb_rest_def rb_advance_def split: prod.splits poll.splits io.splits)

lemma adaptors_transparent:
  "tokio_to_hyper (HyperIo_poll_read rd) = HyperIo_poll_read rd"
  "hyper_to_tokio (HyperIo_poll_read rd) = HyperIo_poll_read rd"
  by (simp_all add: fun_eq_iff hyper_io.tokio_to_hyper_same hyper_io.hyper_to_tokio_same)

end
