(* ===== verification/Client_Sockets.thy ===== *)
theory Client_Sockets
  imports Client_Io Mux_Adaptors
begin

text \<open>
  The writing sides of the adaptors of the browser client, and the whole of its TLS adaptor: \<open>HyperIo\<close>
  (\<open>client/src/stream_provider.rs\<close>), \<open>TokioIo\<close> in both directions (\<open>tokioio.rs\<close>), \<open>IgnoreCloseNotify\<close> and
  \<open>NoCertificateVerification\<close> (\<open>utils/rustls.rs\<close>).

  The traits of \<open>futures\<close>, \<open>hyper\<close> and \<open>tokio\<close> are records of their methods. The contract of a writer is the locale
  \<open>byte_writer\<close>: what its writes accept is appended to the bytes written, and nothing else changes them.
\<close>

section \<open>Definitions\<close>

record 's futures_io =
  fut_read :: "'s poll_read"
  fut_read_vectored :: "'s \<Rightarrow> nat list \<Rightarrow> 's \<times> bytes io poll"
  fut_write :: "bytes \<Rightarrow> 's \<Rightarrow> 's \<times> nat io poll"
  fut_write_vectored :: "bytes list \<Rightarrow> 's \<Rightarrow> 's \<times> nat io poll"
  fut_flush :: "'s \<Rightarrow> 's \<times> unit io poll"
  fut_close :: "'s \<Rightarrow> 's \<times> unit io poll"

record 's hyper_write =
  hw_write :: "bytes \<Rightarrow> 's \<Rightarrow> 's \<times> nat io poll"
  hw_flush :: "'s \<Rightarrow> 's \<times> unit io poll"
  hw_shutdown :: "'s \<Rightarrow> 's \<times> unit io poll"
  hw_is_write_vectored :: "'s \<Rightarrow> bool"
  hw_write_vectored :: "bytes list \<Rightarrow> 's \<Rightarrow> 's \<times> nat io poll"

record 's tokio_write =
  tw_write :: "bytes \<Rightarrow> 's \<Rightarrow> 's \<times> nat io poll"
  tw_flush :: "'s \<Rightarrow> 's \<times> unit io poll"
  tw_shutdown :: "'s \<Rightarrow> 's \<times> unit io poll"
  tw_is_write_vectored :: "'s \<Rightarrow> bool"
  tw_write_vectored :: "bytes list \<Rightarrow> 's \<Rightarrow> 's \<times> nat io poll"

text \<open>\<open>IgnoreCloseNotify\<close> changes what is read and passes on what is written.\<close>

definition ignore_close_notify_vectored ::
    "(rstring \<Rightarrow> bool) \<Rightarrow> ('s \<Rightarrow> nat list \<Rightarrow> 's \<times> bytes io poll) \<Rightarrow> 's \<Rightarrow> nat list \<Rightarrow> 's \<times> bytes io poll" where
  "ignore_close_notify_vectored unexpected_eof rd s ns = map_prod id (poll_map (map_close_notify unexpected_eof)) (rd s ns)"

definition ignore_close_notify_write :: "'s futures_io \<Rightarrow> bytes \<Rightarrow> 's \<Rightarrow> 's \<times> nat io poll" where
  "ignore_close_notify_write tls buf s = fut_write tls buf s"

definition ignore_close_notify_write_vectored :: "'s futures_io \<Rightarrow> bytes list \<Rightarrow> 's \<Rightarrow> 's \<times> nat io poll" where
  "ignore_close_notify_write_vectored tls bufs s = fut_write_vectored tls bufs s"

definition ignore_close_notify_flush :: "'s futures_io \<Rightarrow> 's \<Rightarrow> 's \<times> unit io poll" where
  "ignore_close_notify_flush tls s = fut_flush tls s"

definition ignore_close_notify_close :: "'s futures_io \<Rightarrow> 's \<Rightarrow> 's \<times> unit io poll" where
  "ignore_close_notify_close tls s = fut_close tls s"

definition IgnoreCloseNotify :: "(rstring \<Rightarrow> bool) \<Rightarrow> 's futures_io \<Rightarrow> 's futures_io" where
  "IgnoreCloseNotify unexpected_eof tls = \<lparr>
     fut_read = ignore_close_notify_read unexpected_eof (fut_read tls),
     fut_read_vectored = ignore_close_notify_vectored unexpected_eof (fut_read_vectored tls),
     fut_write = ignore_close_notify_write tls, fut_write_vectored = ignore_close_notify_write_vectored tls,
     fut_flush = ignore_close_notify_flush tls, fut_close = ignore_close_notify_close tls\<rparr>"

text \<open>\<open>hyper\<close> is not told that \<open>HyperIo\<close> can write several buffers at once: the method of the trait says no.\<close>

definition HyperIo_write :: "'s futures_io \<Rightarrow> 's hyper_write" where
  "HyperIo_write inner = \<lparr>hw_write = fut_write inner, hw_flush = fut_flush inner, hw_shutdown = fut_close inner,
     hw_is_write_vectored = \<lambda>s. False, hw_write_vectored = fut_write_vectored inner\<rparr>"

definition tokio_to_hyper_write :: "'s tokio_write \<Rightarrow> 's hyper_write" where
  "tokio_to_hyper_write w = \<lparr>hw_write = tw_write w, hw_flush = tw_flush w, hw_shutdown = tw_shutdown w,
     hw_is_write_vectored = tw_is_write_vectored w, hw_write_vectored = tw_write_vectored w\<rparr>"

definition hyper_to_tokio_write :: "'s hyper_write \<Rightarrow> 's tokio_write" where
  "hyper_to_tokio_write w = \<lparr>tw_write = hw_write w, tw_flush = hw_flush w, tw_shutdown = hw_shutdown w,
     tw_is_write_vectored = hw_is_write_vectored w, tw_write_vectored = hw_write_vectored w\<rparr>"

text \<open>
  The verifier that replaces the checks of certificates: every certificate is accepted, and the signatures of the
  handshake are still checked by the algorithms of the provider.
\<close>

record 'dss cert_verifier =
  verify_server_cert :: "bytes \<Rightarrow> bytes list \<Rightarrow> rstring \<Rightarrow> bytes \<Rightarrow> nat \<Rightarrow> (unit, rstring) res"
  verify_tls12_signature :: "bytes \<Rightarrow> bytes \<Rightarrow> 'dss \<Rightarrow> (unit, rstring) res"
  verify_tls13_signature :: "bytes \<Rightarrow> bytes \<Rightarrow> 'dss \<Rightarrow> (unit, rstring) res"
  supported_verify_schemes :: "u16 list"

record 'dss signature_algorithms =
  algorithms_tls12 :: "bytes \<Rightarrow> bytes \<Rightarrow> 'dss \<Rightarrow> (unit, rstring) res"
  algorithms_tls13 :: "bytes \<Rightarrow> bytes \<Rightarrow> 'dss \<Rightarrow> (unit, rstring) res"
  algorithms_schemes :: "u16 list"

definition no_certificate_verifier :: "'dss signature_algorithms \<Rightarrow> 'dss cert_verifier" where
  "no_certificate_verifier algs = \<lparr>verify_server_cert = \<lambda>end_entity intermediates name ocsp now. Ok (),
     verify_tls12_signature = algorithms_tls12 algs, verify_tls13_signature = algorithms_tls13 algs,
     supported_verify_schemes = algorithms_schemes algs\<rparr>"

section \<open>Writers\<close>

locale byte_writer =
  fixes put :: "bytes \<Rightarrow> 's \<Rightarrow> 's \<times> nat io poll" and put_vectored :: "bytes list \<Rightarrow> 's \<Rightarrow> 's \<times> nat io poll"
    and flush :: "'s \<Rightarrow> 's \<times> unit io poll" and finish :: "'s \<Rightarrow> 's \<times> unit io poll" and written :: "'s \<Rightarrow> bytes"
  assumes puts: "put d s = (s', Ready (Done n)) \<Longrightarrow> n \<le> length d \<and> written s' = written s @ take n d"
    and put_keeps: "put d s = (s', r) \<Longrightarrow> (\<And>n. r \<noteq> Ready (Done n)) \<Longrightarrow> written s' = written s"
    and puts_vectored: "put_vectored ds s = (s', Ready (Done n))
      \<Longrightarrow> n \<le> length (concat ds) \<and> written s' = written s @ take n (concat ds)"
    and vectored_keeps: "put_vectored ds s = (s', r) \<Longrightarrow> (\<And>n. r \<noteq> Ready (Done n)) \<Longrightarrow> written s' = written s"
    and flush_keeps: "flush s = (s', f) \<Longrightarrow> written s' = written s"
    and finish_keeps: "finish s = (s', f) \<Longrightarrow> written s' = written s"

text \<open>
  What is written until the first error: the operations in order, with the state and the bytes that were accepted. A
  writer repeats what was not accepted; here that is an operation of its own.
\<close>

datatype write_op = WriteBuf bytes | WriteBufs "bytes list" | FlushWrites | CloseWrites

fun write_step :: "'s tokio_write \<Rightarrow> write_op \<Rightarrow> 's \<Rightarrow> 's \<times> bytes io poll" where
  "write_step w (WriteBuf d) s = map_prod id (poll_map (map_io (\<lambda>n. take n d))) (tw_write w d s)"
| "write_step w (WriteBufs ds) s = map_prod id (poll_map (map_io (\<lambda>n. take n (concat ds)))) (tw_write_vectored w ds s)"
| "write_step w FlushWrites s = map_prod id (poll_map (map_io (\<lambda>_. []))) (tw_flush w s)"
| "write_step w CloseWrites s = map_prod id (poll_map (map_io (\<lambda>_. []))) (tw_shutdown w s)"

fun write_run :: "'s tokio_write \<Rightarrow> write_op list \<Rightarrow> 's \<Rightarrow> 's \<times> bytes" where
  "write_run w [] s = (s, [])"
| "write_run w (x # xs) s = (case write_step w x s of
      (s', Ready (Done d)) \<Rightarrow> map_prod id ((@) d) (write_run w xs s')
    | (s', Ready (Failed m)) \<Rightarrow> (s', [])
    | (s', Pending) \<Rightarrow> write_run w xs s')"

lemma accepted_map:
  "(case poll_map (map_io f) q of Ready (Done d) \<Rightarrow> d | _ \<Rightarrow> []) = (case q of Ready (Done n) \<Rightarrow> f n | _ \<Rightarrow> [])"
  by (cases q) (auto split: io.split)

context byte_writer begin

abbreviation as_tokio :: "'s tokio_write" where
  "as_tokio \<equiv> \<lparr>tw_write = put, tw_flush = flush, tw_shutdown = finish, tw_is_write_vectored = \<lambda>s. False, tw_write_vectored = put_vectored\<rparr>"

lemma step_written:
  assumes "write_step as_tokio x s = (s', r)"
  shows "written s' = written s @ (case r of Ready (Done d) \<Rightarrow> d | _ \<Rightarrow> [])"
proof (cases x)
  case (WriteBuf d)
  with assms obtain q where q: "put d s = (s', q)" "r = poll_map (map_io (\<lambda>n. take n d)) q" by (cases "put d s") auto
  with puts [of d s s'] put_keeps [of d s s' q] show ?thesis
    by (auto simp: accepted_map split: poll.split io.split)
next
  case (WriteBufs ds)
  with assms obtain q where q: "put_vectored ds s = (s', q)" "r = poll_map (map_io (\<lambda>n. take n (concat ds))) q"
    by (cases "put_vectored ds s") auto
  with puts_vectored [of ds s s'] vectored_keeps [of ds s s' q] show ?thesis
    by (auto simp: accepted_map split: poll.split io.split)
next
  case FlushWrites
  with assms obtain q where "flush s = (s', q)" "r = poll_map (map_io (\<lambda>_. [])) q" by (cases "flush s") auto
  with flush_keeps [of s s' q] show ?thesis
    by (auto simp: accepted_map split: poll.split io.split)
next
  case CloseWrites
  with assms obtain q where "finish s = (s', q)" "r = poll_map (map_io (\<lambda>_. [])) q" by (cases "finish s") auto
  with finish_keeps [of s s' q] show ?thesis
    by (auto simp: accepted_map split: poll.split io.split)
qed

lemma run_written: "write_run as_tokio ops s = (s', d) \<Longrightarrow> written s' = written s @ d"
proof (induction ops arbitrary: s d)
  case (Cons x ops)
  obtain s1 r where step: "write_step as_tokio x s = (s1, r)" by force
  note w = step_written [OF step]
  show ?case
  proof (cases r)
    case Pending
    with Cons step w show ?thesis by simp
  next
    case (Ready y)
    show ?thesis
    proof (cases y)
      case (Done e)
      with Cons.prems step Ready obtain d' where "write_run as_tokio ops s1 = (s', d')" "d = e @ d'"
        by (cases "write_run as_tokio ops s1") auto
      with Cons.IH [of s1 d'] w Ready Done show ?thesis by simp
    qed (use Cons.prems step Ready w in auto)
  qed
qed simp

end

section \<open>A connection without TLS\<close>

text \<open>
  The writer that the websocket code of the client gets for a plain connection: \<open>TokioIo\<close> over \<open>HyperIo\<close> over the
  writing half of a multiplexed stream. (\<open>hyper\<close> hands its connection on unchanged when it was upgraded.)
\<close>

definition aw_futures :: "(WispError \<Rightarrow> rstring) \<Rightarrow> aw_stream futures_io" where
  "aw_futures t = \<lparr>fut_read = \<lambda>s n. (s, Pending), fut_read_vectored = \<lambda>s ns. (s, Pending), fut_write = aw_poll_write t,
     fut_write_vectored = aw_poll_write_vectored t, fut_flush = aw_poll_flush t, fut_close = aw_poll_close t\<rparr>"

definition plain_writer :: "(WispError \<Rightarrow> rstring) \<Rightarrow> aw_stream tokio_write" where
  "plain_writer t = hyper_to_tokio_write (HyperIo_write (aw_futures t))"

lemma plain_writer_eq:
  "plain_writer t = \<lparr>tw_write = aw_poll_write t, tw_flush = aw_poll_flush t, tw_shutdown = aw_poll_close t,
     tw_is_write_vectored = \<lambda>s. False, tw_write_vectored = aw_poll_write_vectored t\<rparr>"
  by (simp add: plain_writer_def hyper_to_tokio_write_def HyperIo_write_def aw_futures_def)

interpretation plain: byte_writer "aw_poll_write t" "aw_poll_write_vectored t" "aw_poll_flush t" "aw_poll_close t" aw_written for t
proof (unfold_locales, goal_cases)
  case (2 d s s' r)
  then show ?case using aw_poll_write_sends [of t d s s' r] by auto
next
  case (4 ds s s' r)
  then show ?case
    using aw_poll_write_sends [of t _ s s' r] by (fastforce simp: aw_poll_write_vectored_def split: list.splits)
qed (auto dest: aw.writes [of t, unfolded aw_io_def, simplified] aw.writes_vectored [of t, unfolded aw_io_def, simplified]
      aw.flush_keeps [of t, unfolded aw_io_def, simplified] aw.shutdown_keeps [of t, unfolded aw_io_def, simplified])

text \<open>
  What a page's websocket writes to a plain connection leaves as DATA packets of its stream, byte for byte: through
  \<open>TokioIo\<close> and \<open>HyperIo\<close>, whatever the writes, vectored writes, flushes and the close answer, the packets carry exactly the bytes
  that were accepted, in order.
\<close>

theorem plain_writes_exact:
  assumes "write_run (plain_writer t) ops s = (s', accepted)"
  shows "aw_written s' = aw_written s @ accepted"
  using plain.run_written [of t ops s s' accepted] assms by (simp add: plain_writer_eq)

theorem plain_writes_exact_witness:
  "\<exists>s'. write_run (plain_writer (\<lambda>_. [])) [WriteBuf [7], WriteBuf [8, 9], FlushWrites, WriteBufs [[], [6]], CloseWrites]
       (rw_write demo_rw) = (s', [8, 9])
     \<and> aw_written s' = [8, 9]"
proof -
  let ?ops = "[WriteBuf [7], WriteBuf [8, 9], FlushWrites, WriteBufs [[], [6]], CloseWrites]"
  obtain s' d where run: "write_run (plain_writer (\<lambda>_. [])) ?ops (rw_write demo_rw) = (s', d)" by force
  then have "d = [8, 9]"
    by (auto simp: plain_writer_eq aw_poll_write_def aw_poll_write_vectored_def aw_poll_flush_def aw_poll_close_def
        with_env_def async_poll_write_def async_poll_flush_def async_poll_close_def ws_send_def to_io_def
        demo_rw_def ready_env_def MuxStreamAsyncWrite_new_def MuxStreamWrite_new_def StreamInfo_new_def)
  with plain_writes_exact [OF run] run show ?thesis
    by (auto simp: aw_written_def sent_data_def demo_rw_def)
qed

section \<open>TLS\<close>

text \<open>Over a TLS stream that is a writer of bytes, the adaptor is one too, and it reads as the TLS reader does.\<close>

lemma IgnoreCloseNotify_writer:
  assumes "byte_writer (fut_write tls) (fut_write_vectored tls) (fut_flush tls) (fut_close tls) written"
  shows "byte_writer (fut_write (IgnoreCloseNotify eof tls)) (fut_write_vectored (IgnoreCloseNotify eof tls))
      (fut_flush (IgnoreCloseNotify eof tls)) (fut_close (IgnoreCloseNotify eof tls)) written"
proof -
  have "fut_write (IgnoreCloseNotify eof tls) = fut_write tls" "fut_flush (IgnoreCloseNotify eof tls) = fut_flush tls"
    "fut_write_vectored (IgnoreCloseNotify eof tls) = fut_write_vectored tls" "fut_close (IgnoreCloseNotify eof tls) = fut_close tls"
    by (simp_all add: IgnoreCloseNotify_def fun_eq_iff ignore_close_notify_write_def ignore_close_notify_write_vectored_def
        ignore_close_notify_flush_def ignore_close_notify_close_def)
  with assms show ?thesis by simp
qed

text \<open>A handshake without certificate checks still depends on its signature.\<close>

lemma no_verification_keeps_signatures:
  "verify_server_cert (no_certificate_verifier algs) c cs n o' now = Ok ()
   \<and> (verify_tls13_signature (no_certificate_verifier algs) m c sig = Ok () \<longleftrightarrow> algorithms_tls13 algs m c sig = Ok ())
   \<and> (verify_tls12_signature (no_certificate_verifier algs) m c sig = Ok () \<longleftrightarrow> algorithms_tls12 algs m c sig = Ok ())"
  by (simp add: no_certificate_verifier_def)

end
