(* ===== verification/Server_Start.thy ===== *)
theory Server_Start
  imports Server_Listener
begin

text \<open>
  The start of the server process, \<open>main\<close> of \<open>server/src/main.rs\<close>: the command line, the formats of configuration files
  (\<open>ConfigFormat\<close>, \<open>Config::ser\<close>, \<open>Config::de\<close> of \<open>config.rs\<close>), the configuration that is in force, and what is started with
  it or printed instead. Writing and reading a configuration in a format is derived by \<open>serde\<close> and is the parameter
  \<open>serde\<close>; \<open>wasi\<close> says whether the program is built for WASI.
\<close>

section \<open>Definitions\<close>

datatype ConfigFormat = Json | Toml | Yaml

text \<open>The default format of a build with the features \<open>toml\<close> and \<open>yaml\<close>.\<close>

definition ConfigFormat_default :: "bool \<Rightarrow> bool \<Rightarrow> ConfigFormat" where
  "ConfigFormat_default toml yaml = (if toml then Toml else if yaml then Yaml else Json)"

record 'l serde =
  json_to_string :: "'l Config \<Rightarrow> rstring option"
  json_from_str :: "rstring \<Rightarrow> 'l Config option"
  toml_to_string :: "'l Config \<Rightarrow> rstring option"
  toml_from_str :: "rstring \<Rightarrow> 'l Config option"
  yaml_to_string :: "'l Config \<Rightarrow> rstring option"
  yaml_from_str :: "rstring \<Rightarrow> 'l Config option"

definition Config_ser :: "'l serde \<Rightarrow> ConfigFormat \<Rightarrow> 'l Config \<Rightarrow> rstring option" where
  "Config_ser sd fmt c = (case fmt of Json \<Rightarrow> json_to_string sd c | Toml \<Rightarrow> toml_to_string sd c | Yaml \<Rightarrow> yaml_to_string sd c)"

definition Config_de :: "'l serde \<Rightarrow> ConfigFormat \<Rightarrow> rstring \<Rightarrow> 'l Config option" where
  "Config_de sd fmt s = (case fmt of Json \<Rightarrow> json_from_str sd s | Toml \<Rightarrow> toml_from_str sd s | Yaml \<Rightarrow> yaml_from_str sd s)"

record 'l ServerCli =
  cli_config :: "rstring option"
  cli_format :: ConfigFormat
  cli_default_config :: bool
  cli_environment :: "'l EnvironmentConfig"

text \<open>What the build and the machine give: \<open>Info\<close>, the version string, the files and the number of cores.\<close>

record 'l start_env =
  st_info :: 'l
  st_version :: rstring
  st_read_file :: "rstring \<Rightarrow> rstring option"
  st_serde :: "'l serde"
  st_cores :: nat

definition start_default :: "bool \<Rightarrow> 'l start_env \<Rightarrow> 'l Config" where
  "start_default wasi e = (if wasi then wasix_defaults (st_info e) (st_version e) else Config_default (st_info e) (st_version e))"

definition start_config :: "bool \<Rightarrow> 'l start_env \<Rightarrow> 'l ServerCli \<Rightarrow> ('l Config, listen_error) res" where
  "start_config wasi e cli = load_config (st_read_file e) (Config_de (st_serde e) (cli_format cli)) (start_default wasi e)
     (cli_config cli) (cli_environment cli)"

datatype 'l start = PrintedConfig rstring | SerFailed | StartedWith "'l Config" "server_task list"

definition server_main :: "bool \<Rightarrow> 'l start_env \<Rightarrow> 'l ServerCli \<Rightarrow> ('l start, listen_error) res" where
  "server_main wasi e cli =
    (if cli_default_config cli then
       Ok (case Config_ser (st_serde e) (cli_format cli) (Config_default (st_info e) (st_version e)) of
             Some s \<Rightarrow> PrintedConfig s | None \<Rightarrow> SerFailed)
     else res_bind (start_config wasi e cli) (\<lambda>c. Ok (StartedWith c (main_tasks False (server c) (st_cores e)))))"

section \<open>Properties\<close>

text \<open>The documented behaviour of \<open>serde\<close>: a configuration that could be written reads back as itself.\<close>

definition serde_law :: "'l serde \<Rightarrow> bool" where
  "serde_law sd \<longleftrightarrow> (\<forall>fmt c s. Config_ser sd fmt c = Some s \<longrightarrow> Config_de sd fmt s = Some c)"

lemma start_config_file:
  assumes "serde_law (st_serde e)" "server_main wasi e (cli\<lparr>cli_default_config := True\<rparr>) = Ok (PrintedConfig s)"
    and "st_read_file e path = Some s"
  shows "start_config w e (cli\<lparr>cli_config := Some path\<rparr>)
    = Ok (apply_to (cli_environment cli) (Config_default (st_info e) (st_version e)))"
proof -
  have "Config_ser (st_serde e) (cli_format cli) (Config_default (st_info e) (st_version e)) = Some s"
    using assms(2) by (auto simp: server_main_def split: option.splits)
  with assms(1) have "Config_de (st_serde e) (cli_format cli) s = Some (Config_default (st_info e) (st_version e))"
    unfolding serde_law_def by blast
  then show ?thesis by (simp add: start_config_def load_config_def assms(3))
qed

lemma start_config_none:
  "cli_config cli = None \<Longrightarrow> start_config wasi e cli = Ok (apply_to (cli_environment cli) (start_default wasi e))"
  by (simp add: start_config_def load_config_def)

text \<open>
  C24. The configuration that \<open>--default-config\<close> prints, saved and named on the command line with the same format, is exactly the one
  in force without a file, whatever the environment overrides. This holds only outside WASI: there the program starts from
  stricter defaults, and the printed file would, for one, open the loopback addresses that they refuse.
\<close>

theorem printed_config_in_force:
  assumes "serde_law (st_serde e)" "server_main wasi e (cli\<lparr>cli_default_config := True\<rparr>) = Ok (PrintedConfig s)"
    and "st_read_file e path = Some s" "cli_config cli = None"
  shows "(\<not> wasi \<longrightarrow> start_config wasi e (cli\<lparr>cli_config := Some path\<rparr>) = start_config wasi e cli)
    \<and> (wasi \<and> env_stream_allow_loopback (cli_environment cli) = None \<longrightarrow>
        (\<exists>printed used. start_config wasi e (cli\<lparr>cli_config := Some path\<rparr>) = Ok printed
           \<and> start_config wasi e cli = Ok used
           \<and> allow_loopback (stream printed) \<and> \<not> allow_loopback (stream used)))"
proof -
  have keep: "allow_loopback (stream (apply_to env c)) = allow_loopback (stream c)"
    if "env_stream_allow_loopback env = None" for env :: "'a EnvironmentConfig" and c
    using that by (auto simp: apply_to_def apply_stream_def override_def split: option.split)
  show ?thesis
    using start_config_file [OF assms(1-3)] start_config_none [OF assms(4), of wasi e]
    by (auto simp: start_default_def keep Config_default_def StreamConfig_default_def wasix_defaults_def Let_def)
qed

definition demo_serde :: "nat serde" where
  "demo_serde = (let to_s = (\<lambda>c. if c = Config_default 0 [] then Some [1] else None); from_s = (\<lambda>_. Some (Config_default 0 []))
     in \<lparr>json_to_string = to_s, json_from_str = from_s, toml_to_string = to_s, toml_from_str = from_s,
         yaml_to_string = to_s, yaml_from_str = from_s\<rparr>)"

definition demo_start :: "nat start_env" where
  "demo_start = \<lparr>st_info = 0, st_version = [], st_read_file = (\<lambda>_. Some [1]), st_serde = demo_serde, st_cores = 2\<rparr>"

definition no_overrides :: "nat EnvironmentConfig" where
  "no_overrides = \<lparr>env_server_bind = None, env_server_runtime = None, env_server_transport = None,
     env_server_log_level = None, env_autoconfigure_domain = None, env_protocol_allow_wsproxy = None,
     env_protocol_buffer_size = None, env_protocol_prefix = None, env_protocol_v2 = None,
     env_protocol_extensions = None, env_stream_tcp_nodelay = None, env_stream_buffer_size = None,
     env_stream_allow_udp = None, env_stream_allow_wsproxy_udp = None, env_stream_allow_direct_ip = None,
     env_stream_allow_loopback = None, env_stream_allow_multicast = None, env_stream_allow_global = None,
     env_stream_allow_non_global = None, env_stream_allow_ports = None\<rparr>"

definition demo_start_cli :: "nat ServerCli" where
  "demo_start_cli = \<lparr>cli_config = None, cli_format = ConfigFormat_default True False, cli_default_config = False,
     cli_environment = no_overrides\<rparr>"

lemma demo_serde_law: "serde_law demo_serde"
  by (auto simp: serde_law_def demo_serde_def Config_ser_def Config_de_def Let_def split: ConfigFormat.splits if_splits)

theorem printed_config_in_force_witness:
  "(\<exists>s. server_main False demo_start (demo_start_cli\<lparr>cli_default_config := True\<rparr>) = Ok (PrintedConfig s))
   \<and> start_config False demo_start (demo_start_cli\<lparr>cli_config := Some []\<rparr>) = start_config False demo_start demo_start_cli
   \<and> (\<exists>printed used. start_config True demo_start (demo_start_cli\<lparr>cli_config := Some []\<rparr>) = Ok printed
        \<and> start_config True demo_start demo_start_cli = Ok used
        \<and> allow_loopback (stream printed) \<and> \<not> allow_loopback (stream used))"
proof -
  have run: "server_main w demo_start (demo_start_cli\<lparr>cli_default_config := True\<rparr>) = Ok (PrintedConfig [1])" for w
    by (simp add: server_main_def demo_start_def demo_serde_def Config_ser_def demo_start_cli_def ConfigFormat_default_def Let_def)
  have law: "serde_law (st_serde demo_start)" by (simp add: demo_start_def demo_serde_law)
  have "st_read_file demo_start [] = Some [1]" by (simp add: demo_start_def)
  moreover have "cli_config demo_start_cli = None" by (simp add: demo_start_cli_def)
  moreover have "env_stream_allow_loopback (cli_environment demo_start_cli) = None" by (simp add: demo_start_cli_def no_overrides_def)
  ultimately show ?thesis
    using printed_config_in_force [OF law run [of False], of "[]"] printed_config_in_force [OF law run [of True], of "[]"] run
    by blast
qed

text \<open>A server that starts runs with a configuration in which every override of the environment is in force.\<close>

lemma started_with_overrides:
  assumes "server_main wasi e cli = Ok (StartedWith c tasks)"
  shows "\<exists>c0. c = apply_to (cli_environment cli) c0 \<and> tasks = main_tasks False (server c) (st_cores e)"
  using assms by (auto simp: server_main_def start_config_def load_config_def split: if_splits option.splits)

end
