(* ===== verification/Client_Js.thy ===== *)
theory Client_Js
  imports Client_Fetch
begin

text \<open>
  The JavaScript helpers of the browser client, \<open>client/src/utils/js.rs\<close>: the random websocket protocol that asks
  a server for Wisp v2 (\<open>ws_protocol\<close>), the key of a websocket handshake (\<open>ws_key\<close>), and the conversion of
  the body that a page gives to \<open>fetch\<close> (\<open>convert_body\<close>, \<open>convert_streaming_body\<close>).

  The random bytes are drawn one after the other: \<open>random k\<close> is the draw of number \<open>k\<close>. The \<open>Request\<close> class
  of the browser is a record of its constructor and of the parts the code reads.
\<close>

section \<open>Random protocols and keys\<close>

text \<open>\<open>toString(16)\<close> of a number below 16.\<close>

definition hex_digit :: "u8 \<Rightarrow> u8" where
  "hex_digit v = (if v < 10 then 48 + v else 87 + v)"

text \<open>
  \<open>[1e7]+-1e3+-4e3+-8e3+-1e11\<close> is a text, and every \<open>0\<close>, \<open>1\<close> and \<open>8\<close> in it is replaced. A digit \<open>c\<close> is a number
  there; \<open>15 >> c / 4\<close> cuts the fraction off.
\<close>

definition protocol_template :: rstring where
  "protocol_template = ascii ''10000000-1000-4000-8000-100000000000''"

definition random_digit :: "u8 \<Rightarrow> u8 \<Rightarrow> u8" where
  "random_digit c r = hex_digit ((c - 48) XOR (r AND drop_bit (unat (c - 48) div 4) 15))"

fun replace_digits :: "(nat \<Rightarrow> u8) \<Rightarrow> nat \<Rightarrow> rstring \<Rightarrow> rstring" where
  "replace_digits random k [] = []"
| "replace_digits random k (c # cs) =
    (if c = 48 \<or> c = 49 \<or> c = 56 then random_digit c (random k) # replace_digits random (Suc k) cs
     else c # replace_digits random k cs)"

definition ws_protocol :: "(nat \<Rightarrow> u8) \<Rightarrow> rstring" where
  "ws_protocol random = replace_digits random 0 protocol_template"

text \<open>\<open>btoa\<close>: base64 with padding.\<close>

definition base64_char :: "u8 \<Rightarrow> u8" where
  "base64_char v = (if v < 26 then 65 + v else if v < 52 then 71 + v else if v < 62 then v - 4
     else if v = 62 then 43 else 47)"

fun btoa :: "bytes \<Rightarrow> rstring" where
  "btoa [] = []"
| "btoa [a] = [base64_char (drop_bit 2 a), base64_char (push_bit 4 (a AND 3)), 61, 61]"
| "btoa [a, b] = [base64_char (drop_bit 2 a), base64_char (push_bit 4 (a AND 3) OR drop_bit 4 b),
     base64_char (push_bit 2 (b AND 15)), 61]"
| "btoa (a # b # c # ds) = base64_char (drop_bit 2 a) # base64_char (push_bit 4 (a AND 3) OR drop_bit 4 b)
     # base64_char (push_bit 2 (b AND 15) OR drop_bit 6 c) # base64_char (c AND 63) # btoa ds"

definition ws_key :: "(nat \<Rightarrow> u8) \<Rightarrow> rstring" where
  "ws_key random = btoa (map random [0..<16])"

section \<open>Bodies\<close>

text \<open>
  \<open>new Request\<close> with or without \<open>duplex: "half"\<close>, the content type it chose, all of its body, and its body as
  a stream: the content, and whether somebody reads it already.
\<close>

record ('v, 'q) js_request =
  new_request :: "bool \<Rightarrow> 'v \<Rightarrow> ('q, 'v) res"
  request_type :: "'q \<Rightarrow> rstring option"
  request_buffer :: "'q \<Rightarrow> (bytes, 'v) res"
  request_stream :: "'q \<Rightarrow> bytes \<times> bool"

definition convert_body_inner :: "('v, 'q) js_request \<Rightarrow> 'v \<Rightarrow> (bytes \<times> rstring option, 'v) res" where
  "convert_body_inner js v =
    res_bind (new_request js True v) (\<lambda>req.
    res_bind (request_buffer js req) (\<lambda>d. Ok (d, request_type js req)))"

text \<open>The flag of the streaming conversion is the constructor of the result.\<close>

definition convert_static :: "('v, 'q) js_request \<Rightarrow> 'v \<Rightarrow> (MaybeStreamingBody \<times> rstring option, 'v) res" where
  "convert_static js v =
    res_bind (new_request js False v) (\<lambda>req.
    res_bind (request_buffer js req) (\<lambda>d. Ok (Static d, request_type js req)))"

definition convert_streaming_body_inner ::
    "('v, 'q) js_request \<Rightarrow> 'v \<Rightarrow> (MaybeStreamingBody \<times> rstring option, 'v) res" where
  "convert_streaming_body_inner js v = (case convert_static js v of
      Ok x \<Rightarrow> Ok x
    | Panic \<Rightarrow> Panic
    | Err _ \<Rightarrow> res_bind (new_request js True v) (\<lambda>req.
        Ok (case request_stream js req of (c, locked) \<Rightarrow> Streaming c locked, request_type js req)))"

text \<open>A content type that is missing or empty is not truthy.\<close>

definition object_truthy :: "rstring option \<Rightarrow> rstring option" where
  "object_truthy v = (case v of None \<Rightarrow> None | Some s \<Rightarrow> if s = [] then None else Some s)"

definition convert_body :: "('v, 'q) js_request \<Rightarrow> 'v \<Rightarrow> (bytes \<times> rstring option, 'v) res" where
  "convert_body js v = res_bind (convert_body_inner js v) (\<lambda>(d, t). Ok (d, object_truthy t))"

definition convert_streaming_body ::
    "('v, 'q) js_request \<Rightarrow> 'v \<Rightarrow> (MaybeStreamingBody \<times> rstring option, 'v) res" where
  "convert_streaming_body js v = res_bind (convert_streaming_body_inner js v) (\<lambda>(b, t). Ok (b, object_truthy t))"

text \<open>The chunks that a page's stream yields, as the frames that are sent: each chunk is converted by itself.\<close>

definition stream_frame :: "('v, 'q) js_request \<Rightarrow> ('v \<Rightarrow> rstring) \<Rightarrow> ('v, 'v) res \<Rightarrow> (bytes, rstring) res" where
  "stream_frame js shown x = map_err shown (res_bind x (\<lambda>v. res_bind (convert_body js v) (\<lambda>(d, t). Ok d)))"

text \<open>The body option of \<open>fetch\<close>; a body that cannot be converted is an error there.\<close>

definition body_option :: "('v, 'q) js_request \<Rightarrow> 'v option \<Rightarrow> (MaybeStreamingBody \<times> rstring option) option option" where
  "body_option js buf = map_option (\<lambda>v. case convert_streaming_body js v of Ok x \<Rightarrow> Some x | _ \<Rightarrow> None) buf"

text \<open>\<open>Object.entries(obj).map(x => x.map(String))\<close>; \<open>string\<close> is the text of a value.\<close>

definition entries_of_object :: "('v \<Rightarrow> rstring) \<Rightarrow> (rstring \<times> 'v) list \<Rightarrow> rstring list list" where
  "entries_of_object string obj = map (\<lambda>(k, v). [k, string v]) obj"

section \<open>Properties of protocols and keys\<close>

text \<open>A version 4 UUID in lower case (RFC 9562).\<close>

definition hex_lower :: "u8 \<Rightarrow> bool" where
  "hex_lower c \<longleftrightarrow> 48 \<le> c \<and> c \<le> 57 \<or> 97 \<le> c \<and> c \<le> 102"

definition uuid_v4 :: "rstring \<Rightarrow> bool" where
  "uuid_v4 s \<longleftrightarrow> length s = 36 \<and> list_all (\<lambda>i. s ! i = 45) [8, 13, 18, 23]
     \<and> list_all (\<lambda>i. i \<in> {8, 13, 18, 23} \<or> hex_lower (s ! i)) [0..<36]
     \<and> s ! 14 = 52 \<and> s ! 19 \<in> {56, 57, 97, 98}"

lemma word_cases_below:
  fixes x :: u8
  assumes "x < 16"
  shows "x \<in> {0, 1, 2, 3, 4, 5, 6, 7, 8, 9, 10, 11, 12, 13, 14, 15}"
proof -
  have "unat x < 16" using assms by (simp add: word_less_nat_alt)
  then have "unat x \<in> set [0..<16]" by simp
  then have "unat x \<in> {0, 1, 2, 3, 4, 5, 6, 7, 8, 9, 10, 11, 12, 13, 14, 15}" by (simp add: upt_rec eval_nat_numeral)
  then have "of_nat (unat x) \<in> (of_nat :: nat \<Rightarrow> u8) ` {0, 1, 2, 3, 4, 5, 6, 7, 8, 9, 10, 11, 12, 13, 14, 15}"
    by (rule imageI)
  then show ?thesis by simp
qed

lemma nibble_below: "(r :: u8) AND 15 < 16" "(r :: u8) AND 3 < 4"
  using word_and_le1 [of r 15] word_and_le1 [of r 3] by (auto intro: le_less_trans)

lemma nibble_cases: "(r :: u8) AND 15 \<in> {0, 1, 2, 3, 4, 5, 6, 7, 8, 9, 10, 11, 12, 13, 14, 15}"
  by (rule word_cases_below [OF nibble_below(1)])

lemma crumb_cases: "(r :: u8) AND 3 \<in> {0, 1, 2, 3}"
proof -
  have "r AND 3 < 16" using nibble_below(2) [of r] by (rule less_trans) simp
  from word_cases_below [OF this] nibble_below(2) [of r] show ?thesis by auto
qed

lemma random_digit_0: "random_digit 48 r = hex_digit (r AND 15)"
  by (simp add: random_digit_def)

lemma random_digit_1: "random_digit 49 r = hex_digit (1 XOR (r AND 15))"
  by (simp add: random_digit_def)

lemma random_digit_8: "random_digit 56 r = hex_digit (8 XOR (r AND 3))"
  by (simp add: random_digit_def)

lemma random_digit_hex:
  "hex_lower (random_digit 48 r)" "hex_lower (random_digit 49 r)" "hex_lower (random_digit 56 r)"
proof -
  show "hex_lower (random_digit 48 r)"
    unfolding random_digit_0 using nibble_cases [of r] by (auto simp: hex_digit_def hex_lower_def)
  show "hex_lower (random_digit 49 r)"
    unfolding random_digit_1 using nibble_cases [of r] by (auto simp: hex_digit_def hex_lower_def)
  show "hex_lower (random_digit 56 r)"
    unfolding random_digit_8 using crumb_cases [of r] by (auto simp: hex_digit_def hex_lower_def)
qed

lemma random_digit_variant: "random_digit 56 r \<in> {56, 57, 97, 98}"
  using crumb_cases [of r] by (auto simp: random_digit_8 hex_digit_def)

definition hex_value :: "u8 \<Rightarrow> u8" where
  "hex_value c = (if c < 97 then c - 48 else c - 87)"

lemma hex_value_digit: "v < 16 \<Longrightarrow> hex_value (hex_digit v) = v"
  using word_cases_below [of v] by (auto simp: hex_value_def hex_digit_def)

lemma xor_below: "1 XOR ((r :: u8) AND 15) < 16" "8 XOR ((r :: u8) AND 3) < 16"
  using nibble_cases [of r] crumb_cases [of r] by auto

lemma xor_eq_iff: "(c :: u8) XOR a = c XOR b \<longleftrightarrow> a = b"
proof
  assume "c XOR a = c XOR b"
  then have "c XOR (c XOR a) = c XOR (c XOR b)" by (rule arg_cong)
  then show "a = b" by (simp add: xor.assoc [symmetric])
qed simp

lemma random_digit_bits:
  "random_digit 48 r = random_digit 48 s \<longleftrightarrow> r AND 15 = s AND 15"
  "random_digit 49 r = random_digit 49 s \<longleftrightarrow> r AND 15 = s AND 15"
  "random_digit 56 r = random_digit 56 s \<longleftrightarrow> r AND 3 = s AND 3"
proof -
  have inj: "hex_digit a = hex_digit b \<longleftrightarrow> a = b" if "a < 16" "b < 16" for a b
    using that hex_value_digit by metis
  show "random_digit 48 r = random_digit 48 s \<longleftrightarrow> r AND 15 = s AND 15"
    by (simp add: random_digit_0 inj nibble_below)
  show "random_digit 49 r = random_digit 49 s \<longleftrightarrow> r AND 15 = s AND 15"
    by (simp add: random_digit_1 inj xor_below xor_eq_iff)
  show "random_digit 56 r = random_digit 56 s \<longleftrightarrow> r AND 3 = s AND 3"
    by (simp add: random_digit_8 inj xor_below xor_eq_iff)
qed

lemma protocol_template_digits:
  "protocol_template = [49, 48, 48, 48, 48, 48, 48, 48, 45, 49, 48, 48, 48, 45, 52, 48, 48, 48, 45, 56, 48, 48, 48, 45,
     49, 48, 48, 48, 48, 48, 48, 48, 48, 48, 48, 48]"
  by (simp add: protocol_template_def ascii_def)

lemma ws_protocol_text:
  "ws_protocol random =
     random_digit 49 (random 0) # map (\<lambda>k. random_digit 48 (random k)) [1..<8] @ 45
     # random_digit 49 (random 8) # map (\<lambda>k. random_digit 48 (random k)) [9..<12] @ 45 # 52
     # map (\<lambda>k. random_digit 48 (random k)) [12..<15] @ 45
     # random_digit 56 (random 15) # map (\<lambda>k. random_digit 48 (random k)) [16..<19] @ 45
     # random_digit 49 (random 19) # map (\<lambda>k. random_digit 48 (random k)) [20..<31]"
  by (simp add: ws_protocol_def protocol_template_digits upt_rec One_nat_def [symmetric] del: One_nat_def)

text \<open>The random bits that a protocol shows.\<close>

definition protocol_bits :: "(nat \<Rightarrow> u8) \<Rightarrow> u8 list" where
  "protocol_bits random = map (\<lambda>k. random k AND (if k = 15 then 3 else 15)) [0..<31]"

lemma ws_protocol_uuid: "uuid_v4 (ws_protocol random)"
  using random_digit_hex random_digit_variant
  by (simp add: uuid_v4_def ws_protocol_text upt_rec hex_lower_def)

lemma ws_protocol_random: "ws_protocol r = ws_protocol s \<longleftrightarrow> protocol_bits r = protocol_bits s"
  by (simp add: ws_protocol_text protocol_bits_def random_digit_bits upt_rec eval_nat_numeral)

text \<open>Base64 read back (RFC 4648): groups of four characters, the last with padding.\<close>

definition base64_value :: "u8 \<Rightarrow> u8 option" where
  "base64_value c = (if 65 \<le> c \<and> c \<le> 90 then Some (c - 65) else if 97 \<le> c \<and> c \<le> 122 then Some (c - 71)
     else if 48 \<le> c \<and> c \<le> 57 then Some (c + 4) else if c = 43 then Some 62 else if c = 47 then Some 63 else None)"

definition base64_group :: "u8 \<Rightarrow> u8 \<Rightarrow> u8 \<Rightarrow> u8 \<Rightarrow> bytes" where
  "base64_group w x y z = [push_bit 2 w OR drop_bit 4 x, push_bit 4 x OR drop_bit 2 y, push_bit 6 y OR z]"

fun atob :: "rstring \<Rightarrow> bytes option" where
  "atob [] = Some []"
| "atob (w # x # y # z # cs) =
    (case (base64_value w, base64_value x) of
       (Some w, Some x) \<Rightarrow>
         (if y = 61 \<and> z = 61 \<and> cs = [] then Some (take 1 (base64_group w x 0 0))
          else case base64_value y of
              None \<Rightarrow> None
            | Some y \<Rightarrow>
               (if z = 61 \<and> cs = [] then Some (take 2 (base64_group w x y 0))
                else case base64_value z of
                    None \<Rightarrow> None
                  | Some z \<Rightarrow> map_option ((@) (base64_group w x y z)) (atob cs)))
     | _ \<Rightarrow> None)"
| "atob _ = None"

lemma base64_value_char:
  assumes "v < 64"
  shows "base64_value (base64_char v) = Some v" "base64_char v \<noteq> 61"
proof -
  have all: "list_all (\<lambda>n. base64_value (base64_char (word_of_nat n)) = Some (word_of_nat n)
      \<and> base64_char (word_of_nat n) \<noteq> 61) [0..<64]"
    by code_simp
  have "unat v \<in> set [0..<64]" using assms by (simp add: word_less_nat_alt)
  with all have "base64_value (base64_char (word_of_nat (unat v))) = Some (word_of_nat (unat v))
      \<and> base64_char (word_of_nat (unat v)) \<noteq> 61"
    unfolding list_all_iff by (rule bspec)
  then show "base64_value (base64_char v) = Some v" "base64_char v \<noteq> 61" by simp_all
qed

text \<open>Numbers of six bits, and the masks of the code.\<close>

lemma below_64:
  fixes x :: u8
  assumes "\<And>n. bit x n \<Longrightarrow> n < 6"
  shows "x < 64"
proof -
  have "take_bit 6 x = x" by (rule bit_word_eqI) (use assms in \<open>auto simp: bit_simps\<close>)
  then have "unat x = take_bit 6 (unat x)" by (metis unsigned_take_bit_eq)
  also have "\<dots> < 2 ^ 6" by (rule take_bit_nat_less_exp)
  finally show ?thesis by (simp add: word_less_nat_alt)
qed

lemma masks: "(3 :: u8) = mask 2" "(15 :: u8) = mask 4" "(63 :: u8) = mask 6"
  by (simp_all add: mask_eq_exp_minus_1)

lemma sextets_below:
  fixes a b :: u8
  shows "drop_bit 2 a < 64" "push_bit 4 (a AND 3) OR drop_bit 4 b < 64" "push_bit 4 (a AND 3) < 64"
    "push_bit 2 (a AND 15) OR drop_bit 6 b < 64" "push_bit 2 (a AND 15) < 64" "a AND 63 < 64"
  unfolding masks by (rule below_64; force simp: bit_simps dest: bit_imp_le_length)+

lemma sub_2_Suc: "2 \<le> n \<Longrightarrow> Suc (Suc (n - 2)) = n"
  by simp

lemma bit_sub_2: "bit (a :: u8) n \<Longrightarrow> \<not> bit a (Suc (Suc (n - 2))) \<Longrightarrow> n < 2"
  by (cases "2 \<le> n") (simp_all add: sub_2_Suc)

lemma group_bits:
  fixes a b :: u8
  shows "push_bit 2 (drop_bit 2 a) OR drop_bit 4 (push_bit 4 (a AND 3) OR drop_bit 4 b) = a"
    "push_bit 2 (drop_bit 2 a) OR drop_bit 4 (push_bit 4 (a AND 3)) = a"
    "push_bit 4 (drop_bit 4 a) OR drop_bit 2 (push_bit 2 (a AND 15)) = a"
    "push_bit 6 (drop_bit 6 a) OR a AND 63 = a"
  unfolding masks
  by (rule bit_word_eqI; fastforce simp: bit_simps sub_2_Suc dest: bit_imp_le_length bit_sub_2)+

lemmas base64_read = base64_value_char [OF sextets_below(1)] base64_value_char [OF sextets_below(2)]
  base64_value_char [OF sextets_below(3)] base64_value_char [OF sextets_below(4)]
  base64_value_char [OF sextets_below(5)] base64_value_char [OF sextets_below(6)]

lemma atob_btoa: "atob (btoa d) = Some d"
  by (induction d rule: btoa.induct)
    (simp_all add: base64_read base64_group_def group_bits del: push_bit_and)

lemma btoa_length: "length (btoa d) = 4 * ((length d + 2) div 3)"
proof (induction d rule: btoa.induct)
  case (4 a b c ds)
  have "(length ds + 5) div 3 = (length ds + 2) div 3 + 1" by presburger
  with 4 show ?case by (simp add: add.commute)
qed simp_all

text \<open>
  The protocol that asks for Wisp v2 is always a valid version 4 UUID, so it is one websocket protocol token, and two of
  them are the same only when the 122 bits drawn for their free digits are.
\<close>

theorem random_protocol_uuid:
  "uuid_v4 (ws_protocol r) \<and> (ws_protocol r = ws_protocol s \<longleftrightarrow> protocol_bits r = protocol_bits s)"
  by (simp add: ws_protocol_uuid ws_protocol_random)

text \<open>
  The key of a websocket handshake is the 16 random bytes in base64: it has 24 characters and reads back as exactly the
  bytes that were drawn.
\<close>

theorem websocket_key_roundtrip:
  "length (ws_key random) = 24 \<and> atob (ws_key random) = Some (map random [0..<16])"
  by (simp add: ws_key_def btoa_length atob_btoa)

section \<open>Properties of bodies\<close>

text \<open>
  What the browser's \<open>Request\<close> documents about a body \<open>v\<close>: a text, form, buffer or blob is accepted with and without
  the duplex option and has its bytes and type; a stream that nobody reads yet is accepted with it only, and has no type.
\<close>

definition holds_bytes :: "('v, 'q) js_request \<Rightarrow> 'v \<Rightarrow> bytes \<Rightarrow> rstring option \<Rightarrow> bool" where
  "holds_bytes js v d t \<longleftrightarrow> (\<forall>half. \<exists>q. new_request js half v = Ok q \<and> request_buffer js q = Ok d \<and> request_type js q = t)"

definition holds_stream :: "('v, 'q) js_request \<Rightarrow> 'v \<Rightarrow> bytes \<Rightarrow> bool" where
  "holds_stream js v content \<longleftrightarrow> (\<exists>e. new_request js False v = Err e)
     \<and> (\<exists>q. new_request js True v = Ok q \<and> request_stream js q = (content, False) \<and> request_type js q = None)"

lemma convert_streaming_body_cases:
  "holds_bytes js v d t \<Longrightarrow> convert_streaming_body js v = Ok (Static d, object_truthy t)"
  "holds_stream js v content \<Longrightarrow> convert_streaming_body js v = Ok (Streaming content False, None)"
proof -
  assume "holds_bytes js v d t"
  then obtain q where "new_request js False v = Ok q" "request_buffer js q = Ok d" "request_type js q = t"
    unfolding holds_bytes_def by blast
  then show "convert_streaming_body js v = Ok (Static d, object_truthy t)"
    by (simp add: convert_streaming_body_def convert_streaming_body_inner_def convert_static_def)
next
  assume "holds_stream js v content"
  then show "convert_streaming_body js v = Ok (Streaming content False, None)"
    by (auto simp: holds_stream_def convert_streaming_body_def convert_streaming_body_inner_def convert_static_def
        object_truthy_def)
qed

text \<open>The two conversions agree on the bodies that are not streams.\<close>

lemma convert_body_bytes: "holds_bytes js v d t \<Longrightarrow> convert_body js v = Ok (d, object_truthy t)"
  unfolding holds_bytes_def by (drule spec [of _ True]) (auto simp: convert_body_def convert_body_inner_def)

lemma request_headers_content_type:
  assumes "request_headers full env agent t user meth b = Ok hs" "user_value env user (ascii ''content-type'') = None"
  shows "header_get hs (ascii ''content-type'') = Option.bind t (header_value_from_str env)"
proof -
  from assms(1) obtain hs1 hs2 where base: "base_headers full env agent t = Ok hs1"
      and user: "add_user_headers env user hs1 = Ok hs2"
      and hs: "hs = (if needs_length meth b then header_insert (ascii ''content-length'') (ascii ''0'') hs2 else hs2)"
    by (auto simp: request_headers_def)
  have "ascii ''content-type'' \<noteq> ascii ''content-length''" by (simp add: ascii_def)
  then show ?thesis
    by (simp add: hs add_user_headers_get [OF user] assms(2) base_headers_Ok(2) [OF base] default_header_def)
qed

definition user_headers :: "fetch_options \<Rightarrow> (rstring \<times> rstring) list" where
  "user_headers options = (case fo_headers options of Some h \<Rightarrow> header_entries h | None \<Rightarrow> [])"


definition demo_js_request :: "(bytes, bytes) js_request" where
  "demo_js_request = \<lparr>new_request = (\<lambda>half v. Ok v), request_type = (\<lambda>q. Some (ascii ''text/plain'')),
     request_buffer = (\<lambda>q. Ok q), request_stream = (\<lambda>q. (q, False))\<rparr>"

definition demo_page_env :: fetch_env where
  "demo_page_env = demo_fetch_env\<lparr>parse_uri := (\<lambda>_. Some (demo_uri ''/''))\<rparr>"

lemma demo_page_env_sel [simp]:
  "method_from_str demo_page_env m = Some m" "parse_uri demo_page_env s = Some (demo_uri ''/'')"
  "header_value_from_str demo_page_env s = Some s"
  by (simp_all add: demo_page_env_def demo_fetch_env_def)

lemma demo_page_headers: "\<exists>hs. request_headers True demo_page_env agent t [] meth b = Ok hs"
  by (cases t) (auto simp: request_headers_def base_headers_def Let_def ok_or_def)

definition demo_post :: fetch_options where
  "demo_post = \<lparr>fo_method = Some (ascii ''POST''), fo_redirect = None, fo_body = None, fo_headers = None\<rparr>"


end
