(* ===== verification/Client_Provider.thy ===== *)
theory Client_Provider
  imports Client_Types Handshake
begin

text \<open>
  The browser client's connection to the Wisp server, \<open>client/src/stream_provider.rs\<close>: the TLS settings,
  the creation of a multiplexor, the streams that are opened through the one multiplexor all
  requests share, and the choice of a stream for a URL.

  \<open>get_stream\<close>, \<open>replace_client\<close> and the task of each multiplexor run concurrently and share the
  client behind an asynchronous mutex. They are cut at the points where they are suspended; a run is
  a list of actions in any order. TLS and the certificate stores come from \<open>rustls\<close>.
\<close>

section \<open>TLS settings\<close>

datatype 'a verifier = NoCertificateVerification | TrustRoots "'a list"

record 'a client_config =
  cert_verifier :: "'a verifier"
  alpn_protocols :: "bytes list"

text \<open>
  What the TLS crates compute: the certificates of a PEM file, the trust anchor of a certificate, the
  built-in anchors, and whether the default protocol versions are supported.
\<close>

record 'a tls_env =
  pem_certs :: "rstring \<Rightarrow> (bytes, rstring) res list"
  trust_anchor :: "bytes \<Rightarrow> ('a, rstring) res"
  server_roots :: "'a list"
  default_versions :: "(unit, rstring) res"

text \<open>Collecting stops at the first certificate that cannot be read or is no anchor.\<close>

fun collect_anchors :: "'a tls_env \<Rightarrow> (bytes, rstring) res list \<Rightarrow> 'a list eres" where
  "collect_anchors t [] = Ok []"
| "collect_anchors t (c # cs) =
    res_bind (map_err Pemfile c) (\<lambda>c.
    res_bind (map_err Webpki (trust_anchor t c)) (\<lambda>a.
    res_bind (collect_anchors t cs) (\<lambda>as. Ok (a # as))))"

record 'a StreamProvider =
  sp_wisp_v2 :: bool
  sp_udp_extension :: bool
  h2_config :: "'a client_config"
  no_alpn_config :: "'a client_config"

definition StreamProvider_new :: "bool \<Rightarrow> 'a tls_env \<Rightarrow> EpoxyClientOptions \<Rightarrow> 'a StreamProvider eres" where
  "StreamProvider_new full t options =
    res_bind (map_err Rustls (default_versions t)) (\<lambda>_.
    res_bind (if opt_disable_certificate_validation options then Ok NoCertificateVerification
              else if full then
                res_bind (collect_anchors t (concat (map (pem_certs t) (opt_pem_files options)))) (\<lambda>anchors.
                  Ok (TrustRoots (anchors @ server_roots t)))
              else Ok (TrustRoots (server_roots t))) (\<lambda>v.
    Ok \<lparr>sp_wisp_v2 = opt_wisp_v2 options, sp_udp_extension = opt_udp_extension_required options,
        h2_config = \<lparr>cert_verifier = v,
          alpn_protocols = (if full then [ascii ''h2'', ascii ''http/1.1''] else [])\<rparr>,
        no_alpn_config = \<lparr>cert_verifier = v, alpn_protocols = []\<rparr>\<rparr>))"

section \<open>Creating a multiplexor\<close>

text \<open>
  \<open>create_client\<close> up to the point where the new multiplexor is stored: \<open>generator\<close> is what the transport
  generator answers, \<open>inps\<close> what the multiplexor's task receives should a required extension be missing.
\<close>

definition client_extensions :: "bool \<Rightarrow> WispV2Handshake option" where
  "client_extensions v2 = (if v2 then Some (WispV2Handshake_new [UdpBuilder]) else None)"

definition connect_mux ::
    "crypto \<Rightarrow> 'c flume \<Rightarrow> 'a StreamProvider \<Rightarrow> (bool \<Rightarrow> (bytes wres list \<times> ws_write) eres) \<Rightarrow> input list
      \<Rightarrow> 'c heap \<Rightarrow> ext_env \<Rightarrow> ('c, unit) Multiplexor eres option" where
  "connect_mux cr fl sp generator inps h en =
    (case generator (sp_wisp_v2 sp) of
       Err e \<Rightarrow> Some (Err e)
     | Panic \<Rightarrow> Some Panic
     | Ok (rx, w) \<Rightarrow>
        (case snd (client_create cr rx w (client_extensions (sp_wisp_v2 sp)) h en) of
           Err e \<Rightarrow> Some (Err (WispFailed e))
         | Panic \<Rightarrow> Some Panic
         | Ok mx \<Rightarrow>
            (if sp_udp_extension sp then
               (case with_udp_extension_required fl (ClientActor fl) inps mx of
                  (mx, None) \<Rightarrow> None
                | (mx, Some r) \<Rightarrow> Some (map_err WispFailed (res_bind r (\<lambda>_. Ok mx))))
             else Some (Ok mx))))"

section \<open>The shared client\<close>

text \<open>
  Where a call stands. The calls that open a stream or create a client hold the mutex. \<open>Opening\<close> waits for
  the multiplexor's answer; \<open>Replied\<close> has it.
\<close>

datatype caller =
    NotCalled
  | GetWaiting
  | Opening nat
  | Replied nat "WispError option"
  | GetCreating
  | GotStream nat
  | ReplaceWaiting
  | ReplaceCreating
  | ClientReplaced
  | CallFailed EpoxyError

text \<open>The task of a multiplexor; \<open>MuxFinished\<close> waits for the mutex to clear the client.\<close>

datatype mux_task = NoMux | MuxRunning | MuxFinished | MuxDone

record provider =
  current_client :: "nat option"
  callers :: "nat \<Rightarrow> caller"
  muxes :: "nat \<Rightarrow> mux_task"
  next_mux :: nat
  lock_owner :: "nat option"

definition provider_init :: provider where
  "provider_init = \<lparr>current_client = None, callers = (\<lambda>_. NotCalled), muxes = (\<lambda>_. NoMux), next_mux = 0,
     lock_owner = None\<rparr>"

datatype paction =
    CallGetStream nat
  | CallReplaceClient nat
  | AcquireLock nat
  | MuxReplies nat "WispError option"
  | MuxGone nat WispError
  | ReturnStream nat
  | ClientCreated nat "unit eres"
  | CallDropped nat
  | MuxEnds nat
  | MuxClears nat

definition set_caller :: "nat \<Rightarrow> caller \<Rightarrow> provider \<Rightarrow> provider" where
  "set_caller i c s = s\<lparr>callers := (callers s)(i := c)\<rparr>"

definition set_mux :: "nat \<Rightarrow> mux_task \<Rightarrow> provider \<Rightarrow> provider" where
  "set_mux m t s = s\<lparr>muxes := (muxes s)(m := t)\<rparr>"

text \<open>\<open>create_client\<close> stores the new multiplexor, spawns its task and drops the guard.\<close>

definition store_client :: "provider \<Rightarrow> provider" where
  "store_client s = s\<lparr>current_client := Some (next_mux s), muxes := (muxes s)(next_mux s := MuxRunning),
     next_mux := Suc (next_mux s), lock_owner := None\<rparr>"

definition create_client_step :: "nat \<Rightarrow> unit eres \<Rightarrow> caller \<Rightarrow> provider \<Rightarrow> provider option" where
  "create_client_step i r next_pc s = (case r of
      Ok _ \<Rightarrow> Some (set_caller i next_pc (store_client s))
    | Err e \<Rightarrow> Some (set_caller i (CallFailed e) (s\<lparr>lock_owner := None\<rparr>))
    | Panic \<Rightarrow> None)"

fun holds_lock :: "caller \<Rightarrow> bool" where
  "holds_lock (Opening m) = True"
| "holds_lock (Replied m r) = True"
| "holds_lock GetCreating = True"
| "holds_lock ReplaceCreating = True"
| "holds_lock _ = False"

fun get_stream_step :: "paction \<Rightarrow> provider \<Rightarrow> provider option" where
  "get_stream_step (CallGetStream i) s =
    (if callers s i = NotCalled then Some (set_caller i GetWaiting s) else None)"
| "get_stream_step (AcquireLock i) s =
    (if lock_owner s = None \<and> callers s i = GetWaiting then
       Some (set_caller i (case current_client s of Some m \<Rightarrow> Opening m | None \<Rightarrow> GetCreating)
         (s\<lparr>lock_owner := Some i\<rparr>))
     else None)"
| "get_stream_step (MuxReplies i r) s = (case callers s i of
      Opening m \<Rightarrow> if muxes s m = MuxRunning then Some (set_caller i (Replied m r) s) else None
    | _ \<Rightarrow> None)"
| "get_stream_step (MuxGone i e) s = (case callers s i of
      Opening m \<Rightarrow> if muxes s m = MuxRunning then None else Some (set_caller i (Replied m (Some e)) s)
    | _ \<Rightarrow> None)"
| "get_stream_step (ReturnStream i) s = (case callers s i of
      Replied m None \<Rightarrow> Some (set_caller i (GotStream m) (s\<lparr>lock_owner := None\<rparr>))
    | Replied m (Some e) \<Rightarrow> Some (set_caller i (CallFailed (WispFailed e)) (s\<lparr>lock_owner := None\<rparr>))
    | _ \<Rightarrow> None)"
| "get_stream_step (ClientCreated i r) s =
    (if callers s i = GetCreating then create_client_step i r GetWaiting s else None)"
| "get_stream_step _ s = None"

fun replace_client_step :: "paction \<Rightarrow> provider \<Rightarrow> provider option" where
  "replace_client_step (CallReplaceClient i) s =
    (if callers s i = NotCalled then Some (set_caller i ReplaceWaiting s) else None)"
| "replace_client_step (AcquireLock i) s =
    (if lock_owner s = None \<and> callers s i = ReplaceWaiting
     then Some (set_caller i ReplaceCreating (s\<lparr>lock_owner := Some i\<rparr>)) else None)"
| "replace_client_step (ClientCreated i r) s =
    (if callers s i = ReplaceCreating then create_client_step i r ClientReplaced s else None)"
| "replace_client_step _ s = None"

text \<open>The spawned task: its multiplexor ends, then it takes whatever client is stored.\<close>

fun mux_task_step :: "paction \<Rightarrow> provider \<Rightarrow> provider option" where
  "mux_task_step (MuxEnds m) s = (if muxes s m = MuxRunning then Some (set_mux m MuxFinished s) else None)"
| "mux_task_step (MuxClears m) s =
    (if muxes s m = MuxFinished \<and> lock_owner s = None
     then Some (set_mux m MuxDone (s\<lparr>current_client := None\<rparr>)) else None)"
| "mux_task_step _ s = None"

text \<open>The future of a call is dropped: a guard it holds is released.\<close>

definition drop_call :: "nat \<Rightarrow> provider \<Rightarrow> provider" where
  "drop_call i s = set_caller i NotCalled
     (if holds_lock (callers s i) then s\<lparr>lock_owner := None\<rparr> else s)"

definition provider_step :: "paction \<Rightarrow> provider \<Rightarrow> provider option" where
  "provider_step a s = (case a of
      CallDropped i \<Rightarrow> Some (drop_call i s)
    | _ \<Rightarrow> (case get_stream_step a s of
        Some s' \<Rightarrow> Some s'
      | None \<Rightarrow> (case replace_client_step a s of
          Some s' \<Rightarrow> Some s'
        | None \<Rightarrow> mux_task_step a s)))"

fun provider_run :: "paction list \<Rightarrow> provider \<Rightarrow> provider option" where
  "provider_run [] s = Some s"
| "provider_run (a # as) s = Option.bind (provider_step a s) (provider_run as)"

section \<open>Invariants of the shared client\<close>

text \<open>A call that waits for its stream, or has the answer and not yet returned.\<close>

fun served_by :: "caller \<Rightarrow> nat option" where
  "served_by (Opening m) = Some m"
| "served_by (Replied m r) = Some m"
| "served_by _ = None"

definition lock_ok :: "provider \<Rightarrow> bool" where
  "lock_ok s \<longleftrightarrow> (\<forall>i. holds_lock (callers s i) \<longleftrightarrow> lock_owner s = Some i)"

definition client_ok :: "provider \<Rightarrow> bool" where
  "client_ok s \<longleftrightarrow>
     (\<forall>i m. served_by (callers s i) = Some m \<longrightarrow> current_client s = Some m)
     \<and> (\<forall>i. callers s i = GetCreating \<longrightarrow> current_client s = None)
     \<and> (\<forall>m. current_client s = Some m \<longrightarrow> muxes s m \<noteq> NoMux)
     \<and> (\<forall>m. muxes s m \<noteq> NoMux \<longrightarrow> m < next_mux s)"

lemma lock_okD: "lock_ok s \<Longrightarrow> holds_lock (callers s i) \<longleftrightarrow> lock_owner s = Some i"
  by (simp add: lock_ok_def)

lemma served_holds: "served_by c = Some m \<Longrightarrow> holds_lock c"
  by (cases c) auto

lemma set_caller_sel [simp]:
  "callers (set_caller i c s) j = (if j = i then c else callers s j)"
  "current_client (set_caller i c s) = current_client s" "muxes (set_caller i c s) = muxes s"
  "next_mux (set_caller i c s) = next_mux s" "lock_owner (set_caller i c s) = lock_owner s"
  by (simp_all add: set_caller_def)

lemma set_mux_sel [simp]:
  "muxes (set_mux m t s) k = (if k = m then t else muxes s k)"
  "current_client (set_mux m t s) = current_client s" "callers (set_mux m t s) = callers s"
  "next_mux (set_mux m t s) = next_mux s" "lock_owner (set_mux m t s) = lock_owner s"
  by (simp_all add: set_mux_def)

lemma store_client_sel [simp]:
  "current_client (store_client s) = Some (next_mux s)" "callers (store_client s) = callers s"
  "muxes (store_client s) k = (if k = next_mux s then MuxRunning else muxes s k)"
  "next_mux (store_client s) = Suc (next_mux s)" "lock_owner (store_client s) = None"
  by (simp_all add: store_client_def)

text \<open>The shapes of a step: how a call moves, a client is stored, and a multiplexor's task ends.\<close>

lemma provider_stepE:
  assumes "provider_step a s = Some s'"
  obtains (call) i c where "a = CallGetStream i \<or> a = CallReplaceClient i" "callers s i = NotCalled"
      "c = GetWaiting \<and> a = CallGetStream i \<or> c = ReplaceWaiting \<and> a = CallReplaceClient i" "s' = set_caller i c s"
  | (lock) i c where "a = AcquireLock i" "lock_owner s = None"
      "(case callers s i of
          GetWaiting \<Rightarrow> c = (case current_client s of Some m \<Rightarrow> Opening m | None \<Rightarrow> GetCreating)
        | ReplaceWaiting \<Rightarrow> c = ReplaceCreating | _ \<Rightarrow> False)"
      "s' = set_caller i c (s\<lparr>lock_owner := Some i\<rparr>)"
  | (reply) i m r where "callers s i = Opening m" "s' = set_caller i (Replied m r) s"
  | (return) i m r where "callers s i = Replied m r"
      "s' = set_caller i (case r of None \<Rightarrow> GotStream m | Some e \<Rightarrow> CallFailed (WispFailed e)) (s\<lparr>lock_owner := None\<rparr>)"
  | (create) i c where "a = ClientCreated i (Ok ())"
      "callers s i = GetCreating \<and> c = GetWaiting \<or> callers s i = ReplaceCreating \<and> c = ClientReplaced"
      "s' = set_caller i c (store_client s)"
  | (fail) i e where "callers s i = GetCreating \<or> callers s i = ReplaceCreating"
      "s' = set_caller i (CallFailed e) (s\<lparr>lock_owner := None\<rparr>)"
  | (drop) i where "a = CallDropped i" "s' = drop_call i s"
  | (ends) m where "muxes s m = MuxRunning" "s' = set_mux m MuxFinished s"
  | (clears) m where "a = MuxClears m" "muxes s m = MuxFinished" "lock_owner s = None"
      "s' = set_mux m MuxDone (s\<lparr>current_client := None\<rparr>)"
proof (cases a)
  case (AcquireLock i)
  show ?thesis
    by (rule lock [of i "case callers s i of
          GetWaiting \<Rightarrow> (case current_client s of Some m \<Rightarrow> Opening m | None \<Rightarrow> GetCreating)
        | _ \<Rightarrow> ReplaceCreating"])
      (use assms AcquireLock in \<open>auto simp: provider_step_def split: if_splits caller.splits\<close>)
next
  case (ReturnStream i)
  then obtain m r where "callers s i = Replied m r"
      "s' = set_caller i (case r of None \<Rightarrow> GotStream m | Some e \<Rightarrow> CallFailed (WispFailed e)) (s\<lparr>lock_owner := None\<rparr>)"
    using assms by (auto simp: provider_step_def split: caller.splits option.splits)
  then show ?thesis by (intro return)
qed (use assms in \<open>auto simp: provider_step_def create_client_step_def split: if_splits caller.splits res.splits option.splits
      intro: call reply return create fail drop ends clears\<close>)

lemma lock_ok_keep:
  "lock_ok s \<Longrightarrow> holds_lock c = holds_lock (callers s i) \<Longrightarrow> lock_ok (set_caller i c s)"
  by (simp add: lock_ok_def)

lemma lock_ok_acquire:
  "lock_ok s \<Longrightarrow> lock_owner s = None \<Longrightarrow> holds_lock c \<Longrightarrow> lock_ok (set_caller i c (s\<lparr>lock_owner := Some i\<rparr>))"
  by (simp add: lock_ok_def)

lemma lock_ok_release:
  assumes "lock_ok s" "holds_lock (callers s i)" "\<not> holds_lock c" "callers t = callers s" "lock_owner t = None"
  shows "lock_ok (set_caller i c t)"
proof -
  have "lock_owner s = Some i" using assms(1,2) by (simp add: lock_ok_def)
  with assms show ?thesis by (simp add: lock_ok_def)
qed

lemma lock_step:
  assumes "lock_ok s" "provider_step a s = Some s'"
  shows "lock_ok s'"
  using assms(2)
proof (cases rule: provider_stepE)
  case (call i c)
  with assms(1) show ?thesis by (auto intro: lock_ok_keep)
next
  case (lock i c)
  have "holds_lock c" using lock(3) by (auto split: caller.splits option.splits)
  with lock assms(1) show ?thesis by (simp add: lock_ok_acquire)
next
  case (reply i m r)
  with assms(1) show ?thesis by (simp add: lock_ok_keep)
next
  case (return i m r)
  with assms(1) show ?thesis by (auto intro!: lock_ok_release [of s] split: option.splits)
next
  case (create i c)
  with assms(1) show ?thesis by (auto intro!: lock_ok_release [of s])
next
  case (fail i e)
  with assms(1) show ?thesis by (auto intro!: lock_ok_release [of s])
next
  case (drop i)
  with assms(1) show ?thesis
    by (cases "holds_lock (callers s i)") (simp_all add: drop_call_def lock_ok_release [of s] lock_ok_keep)
next
  case (ends m)
  with assms(1) show ?thesis by (simp add: lock_ok_def)
next
  case (clears m)
  with assms(1) show ?thesis by (simp add: lock_ok_def)
qed

lemma client_ok_set:
  assumes "client_ok s" "callers t = callers s" "muxes t = muxes s" "current_client t = current_client s"
    "next_mux t = next_mux s" "\<And>m. served_by c = Some m \<Longrightarrow> current_client s = Some m"
    "c = GetCreating \<Longrightarrow> current_client s = None"
  shows "client_ok (set_caller i c t)"
  using assms unfolding client_ok_def
  by (intro conjI allI impI) (auto split: if_splits)

lemma lock_free_idle:
  assumes "lock_ok s" "lock_owner s \<noteq> Some i"
  shows "served_by (callers s i) = None" "callers s i \<noteq> GetCreating"
  using assms served_holds [of "callers s i"] by (force simp: lock_ok_def)+

lemma client_step:
  assumes "lock_ok s" "client_ok s" "provider_step a s = Some s'"
  shows "client_ok s'"
  using assms(3)
proof (cases rule: provider_stepE)
  case (call i c)
  with assms(2) show ?thesis by (auto intro!: client_ok_set [of s])
next
  case (lock i c)
  have "\<And>m. served_by c = Some m \<Longrightarrow> current_client s = Some m" "c = GetCreating \<Longrightarrow> current_client s = None"
    using lock(3) by (auto split: caller.splits option.splits)
  with lock assms(2) show ?thesis by (simp add: client_ok_set [of s])
next
  case (reply i m r)
  from reply assms(2) have "current_client s = Some m" by (metis client_ok_def served_by.simps(1))
  with reply assms(2) show ?thesis by (auto intro!: client_ok_set [of s])
next
  case (return i m r)
  with assms(2) show ?thesis by (cases r) (auto intro!: client_ok_set [of s])
next
  case (create i c)
  have "lock_owner s = Some i" using create(2) lock_okD [OF assms(1), of i] by auto
  with lock_free_idle [OF assms(1)] have "served_by (callers s j) = None \<and> callers s j \<noteq> GetCreating" if "j \<noteq> i" for j
    using that by force
  with create assms(2) show ?thesis by (auto simp: client_ok_def less_Suc_eq)
next
  case (fail i e)
  with assms(2) show ?thesis by (auto intro!: client_ok_set [of s])
next
  case (drop i)
  with assms(2) show ?thesis by (auto simp: drop_call_def intro!: client_ok_set [of s])
next
  case (ends m)
  with assms(2) show ?thesis by (auto simp: client_ok_def)
next
  case (clears m)
  with lock_free_idle [OF assms(1)] assms(2) show ?thesis by (auto simp: client_ok_def)
qed

lemma provider_invs_init: "lock_ok provider_init" "client_ok provider_init"
  by (simp_all add: lock_ok_def client_ok_def provider_init_def)

lemma provider_run_induct [consumes 1, case_names start step]:
  assumes "provider_run as s = Some s'" "P s"
    and "\<And>a t t'. a \<in> set as \<Longrightarrow> P t \<Longrightarrow> provider_step a t = Some t' \<Longrightarrow> P t'"
  shows "P s'"
  using assms
proof (induction as arbitrary: s)
  case (Cons a as)
  then obtain t where "provider_step a s = Some t" "provider_run as t = Some s'"
    by (auto simp: bind_eq_Some_conv)
  with Cons show ?case by auto
qed simp

lemma provider_invs:
  assumes "provider_run as provider_init = Some s"
  shows "lock_ok s \<and> client_ok s"
  using assms provider_invs_init
  by (induction rule: provider_run_induct) (auto intro: lock_step client_step)

text \<open>
  Requests share one connection. In every interleaving of calls, multiplexor tasks and cancellations at
  most one call is opening a stream or creating a connection; a call that opens a stream does so on
  the client that is stored, and a connection is created for a request only while none is stored.
\<close>

theorem provider_serialized:
  assumes "provider_run as provider_init = Some s"
  shows "(holds_lock (callers s i) \<longrightarrow> holds_lock (callers s j) \<longrightarrow> i = j)
    \<and> (served_by (callers s i) = Some m \<longrightarrow> current_client s = Some m)
    \<and> (callers s i = GetCreating \<longrightarrow> current_client s = None)"
  using provider_invs [OF assms] by (auto simp: lock_ok_def client_ok_def)

definition single_ok :: "provider \<Rightarrow> bool" where
  "single_ok s \<longleftrightarrow> (\<forall>i. callers s i \<noteq> ReplaceWaiting \<and> callers s i \<noteq> ReplaceCreating)
     \<and> (\<forall>m. muxes s m \<in> {MuxRunning, MuxFinished} \<longrightarrow> current_client s = Some m)"

lemma single_okD: "single_ok s \<Longrightarrow> muxes s m \<in> {MuxRunning, MuxFinished} \<Longrightarrow> current_client s = Some m"
  by (auto simp: single_ok_def)

lemma single_step:
  assumes "lock_ok s" "client_ok s" "single_ok s" "provider_step a s = Some s'" "\<forall>i. a \<noteq> CallReplaceClient i"
  shows "single_ok s'"
  using assms(4)
proof (cases rule: provider_stepE)
  case (create i c)
  then have "callers s i = GetCreating" using assms(3) by (auto simp: single_ok_def)
  with create assms(2,3) show ?thesis by (auto simp: single_ok_def client_ok_def split: if_splits)
next
  case (ends m)
  with single_okD [OF assms(3)] assms(3) show ?thesis by (simp add: single_ok_def)
next
  case (clears m)
  then have "muxes s k \<notin> {MuxRunning, MuxFinished}" if "k \<noteq> m" for k
    using that single_okD [OF assms(3), of m] single_okD [OF assms(3), of k] by auto
  moreover have "callers s i \<noteq> ReplaceWaiting \<and> callers s i \<noteq> ReplaceCreating" for i
    using assms(3) by (simp add: single_ok_def)
  ultimately show ?thesis using clears by (auto simp: single_ok_def)
next
  case (lock i c)
  then have "c \<noteq> ReplaceCreating" "c \<noteq> ReplaceWaiting"
    using assms(3) by (auto simp: single_ok_def split: caller.splits option.splits)
  with lock assms(3) show ?thesis by (auto simp: single_ok_def)
next
  case (return i m r)
  with assms(3) show ?thesis by (cases r) (auto simp: single_ok_def)
qed (use assms(3,5) in \<open>auto simp: single_ok_def drop_call_def\<close>)

text \<open>
  C19. As long as the client is not replaced, there is never more than one live connection: every multiplexor
  whose task has not cleared the client yet is the stored one.
\<close>

theorem one_connection:
  assumes "provider_run as provider_init = Some s" "\<forall>i. CallReplaceClient i \<notin> set as"
    and "muxes s m \<in> {MuxRunning, MuxFinished}"
  shows "current_client s = Some m"
proof -
  have "lock_ok s \<and> client_ok s \<and> single_ok s"
    using assms(1)
  proof (induction rule: provider_run_induct)
    case start
    show ?case using provider_invs_init by (simp add: single_ok_def provider_init_def)
  next
    case (step a t t')
    with assms(2) show ?case using lock_step client_step single_step by blast
  qed
  with assms(3) show ?thesis by (auto simp: single_ok_def)
qed

definition demo_calls :: "paction list" where
  "demo_calls = [CallGetStream 0, CallGetStream 1, AcquireLock 0, ClientCreated 0 (Ok ()), AcquireLock 1,
     MuxReplies 1 None, ReturnStream 1]"

theorem one_connection_witness:
  "\<exists>s. provider_run demo_calls provider_init = Some s \<and> callers s 1 = GotStream 0 \<and> current_client s = Some 0"
proof -
  obtain s where s: "provider_run demo_calls provider_init = Some s" "callers s 1 = GotStream 0" "muxes s 0 = MuxRunning"
    by (auto simp: demo_calls_def provider_step_def create_client_step_def provider_init_def)
  from one_connection [OF s(1), of 0] s show ?thesis by (auto simp: demo_calls_def)
qed

text \<open>
  A replaced multiplexor's task clears the client when it ends, whichever client is stored then: the new
  one is dropped although it runs, and the next request creates a third connection.
\<close>

lemma stale_task_clears_new_client:
  "\<exists>s. provider_run [CallGetStream 0, AcquireLock 0, ClientCreated 0 (Ok ()), CallReplaceClient 1, AcquireLock 1,
       ClientCreated 1 (Ok ()), MuxEnds 0, MuxClears 0] provider_init = Some s
     \<and> callers s 1 = ClientReplaced \<and> muxes s 1 = MuxRunning \<and> current_client s = None"
  by (auto simp: provider_step_def create_client_step_def provider_init_def)

text \<open>
  No call is stuck: while some call waits for the mutex, it can take it or the call that holds it can
  move on.
\<close>

fun moves_call :: "nat \<Rightarrow> paction \<Rightarrow> bool" where
  "moves_call i (AcquireLock j) = (i = j)"
| "moves_call i (MuxReplies j r) = (i = j)"
| "moves_call i (MuxGone j e) = (i = j)"
| "moves_call i (ReturnStream j) = (i = j)"
| "moves_call i (ClientCreated j r) = (i = j)"
| "moves_call i _ = False"

lemma holder_moves:
  assumes "holds_lock (callers s i)"
  shows "\<exists>a s'. moves_call i a \<and> provider_step a s = Some s'"
proof (cases "callers s i")
  case (Opening m)
  then show ?thesis
  proof (cases "muxes s m = MuxRunning")
    case True
    with Opening show ?thesis by (intro exI [of _ "MuxReplies i None"]) (simp add: provider_step_def)
  next
    case False
    with Opening show ?thesis by (intro exI [of _ "MuxGone i MuxTaskEnded"]) (simp add: provider_step_def)
  qed
next
  case (Replied m r)
  then show ?thesis
    by (cases r) (auto simp: provider_step_def intro!: exI [of _ "ReturnStream i"])
qed (use assms in \<open>auto simp: provider_step_def create_client_step_def
      intro!: exI [of _ "ClientCreated i (Err NoUrlHost)"]\<close>)

theorem waiting_call_moves:
  assumes "provider_run as provider_init = Some s" "callers s i = GetWaiting \<or> callers s i = ReplaceWaiting"
  shows "\<exists>j a s'. (j = i \<or> lock_owner s = Some j) \<and> moves_call j a \<and> provider_step a s = Some s'"
proof (cases "lock_owner s")
  case None
  with assms(2) show ?thesis
    by (auto simp: provider_step_def intro!: exI [of _ i] exI [of _ "AcquireLock i"])
next
  case (Some j)
  with provider_invs [OF assms(1)] have "holds_lock (callers s j)" by (simp add: lock_ok_def)
  with holder_moves Some show ?thesis by metis
qed

section \<open>The stream for a URL\<close>

text \<open>
  \<open>get_tls_stream\<close>: \<open>get\<close> opens a stream of the shared client, \<open>server_name\<close> checks the host, and \<open>handshake\<close> is
  the TLS connection: the negotiated protocol, or the error with whether it is an unexpected end and
  the reason the multiplexor closed the stream with.
\<close>

datatype 'st tls_result =
    TlsConnected 'st "bytes option"
  | TlsError bool rstring "CloseReason option"

record ('st, 'a) dialer =
  get_stream :: "StreamType \<Rightarrow> rstring \<Rightarrow> u16 \<Rightarrow> 'st eres"
  server_name :: "rstring \<Rightarrow> bool"
  handshake :: "'a client_config \<Rightarrow> rstring \<Rightarrow> 'st \<Rightarrow> 'st tls_result"

datatype 'st HyperIo = TlsIo 'st bool | PlainIo 'st

definition get_tls_stream ::
    "('st, 'a) dialer \<Rightarrow> 'a StreamProvider \<Rightarrow> rstring \<Rightarrow> u16 \<Rightarrow> bool \<Rightarrow> ('st \<times> bool) eres" where
  "get_tls_stream d sp hst prt http =
    res_bind (get_stream d Tcp hst prt) (\<lambda>st.
      if \<not> server_name d hst then Err (InvalidDnsName hst)
      else case handshake d (if http then h2_config sp else no_alpn_config sp) hst st of
          TlsConnected st alpn \<Rightarrow> Ok (st, alpn = Some (ascii ''h2''))
        | TlsError eof e closed \<Rightarrow>
            (if eof then (case closed of Some r \<Rightarrow> Err (WispCloseReason r e) | None \<Rightarrow> Err (IoFailed e))
             else Err (IoFailed e)))"

definition default_port :: "rstring \<Rightarrow> u16 eres" where
  "default_port scheme = (if scheme = ascii ''https'' \<or> scheme = ascii ''wss'' then Ok 443
     else if scheme = ascii ''http'' \<or> scheme = ascii ''ws'' then Ok 80 else Err NoUrlPort)"

definition service_connect :: "('st, 'a) dialer \<Rightarrow> 'a StreamProvider \<Rightarrow> Uri \<Rightarrow> 'st HyperIo eres" where
  "service_connect d sp req =
    res_bind (ok_or (uri_scheme req) (InvalidUrlScheme None)) (\<lambda>scheme.
    res_bind (ok_or (uri_host req) NoUrlHost) (\<lambda>hst.
    res_bind (case uri_port req of Some p \<Rightarrow> Ok p | None \<Rightarrow> default_port scheme) (\<lambda>prt.
      if scheme = ascii ''https'' then res_bind (get_tls_stream d sp hst prt True) (\<lambda>(st, h2). Ok (TlsIo st h2))
      else if scheme = ascii ''wss'' then res_bind (get_tls_stream d sp hst prt False) (\<lambda>(st, h2). Ok (TlsIo st h2))
      else if scheme = ascii ''http'' \<or> scheme = ascii ''ws''
      then res_bind (get_stream d Tcp hst prt) (\<lambda>st. Ok (PlainIo st))
      else Err (InvalidUrlScheme (Some scheme)))))"

text \<open>\<open>Connection::connected\<close>: whether HTTP/2 is spoken on the connection.\<close>

definition negotiated_h2 :: "'st HyperIo \<Rightarrow> bool" where
  "negotiated_h2 io = (case io of TlsIo st h2 \<Rightarrow> h2 | PlainIo st \<Rightarrow> False)"

definition secure_scheme :: "rstring \<Rightarrow> bool" where
  "secure_scheme s \<longleftrightarrow> s = ascii ''https'' \<or> s = ascii ''wss''"

definition plain_scheme :: "rstring \<Rightarrow> bool" where
  "plain_scheme s \<longleftrightarrow> s = ascii ''http'' \<or> s = ascii ''ws''"

lemma schemes_differ: "secure_scheme s \<Longrightarrow> \<not> plain_scheme s"
  by (auto simp: secure_scheme_def plain_scheme_def ascii_def)

lemma scheme_names [simp]:
  "ascii ''https'' \<noteq> ascii ''wss''" "ascii ''https'' \<noteq> ascii ''http''" "ascii ''https'' \<noteq> ascii ''ws''"
  "ascii ''wss'' \<noteq> ascii ''http''" "ascii ''wss'' \<noteq> ascii ''ws''"
  by (simp_all add: ascii_def)

lemma get_tls_stream_Ok:
  assumes "get_tls_stream d sp hst prt http = Ok (st, h2)"
  shows "\<exists>raw alpn. get_stream d Tcp hst prt = Ok raw \<and> server_name d hst
    \<and> handshake d (if http then h2_config sp else no_alpn_config sp) hst raw = TlsConnected st alpn
    \<and> h2 = (alpn = Some (ascii ''h2''))"
  using assms by (auto simp: get_tls_stream_def split: if_splits tls_result.splits option.splits)


definition demo_dialer :: "(rstring, nat) dialer" where
  "demo_dialer = \<lparr>get_stream = (\<lambda>ty hst prt. Ok hst), server_name = (\<lambda>_. True),
     handshake = (\<lambda>cfg hst st. TlsConnected st (Some (ascii ''h2'')))\<rparr>"

definition demo_provider :: "nat StreamProvider" where
  "demo_provider = \<lparr>sp_wisp_v2 = False, sp_udp_extension = False,
     h2_config = \<lparr>cert_verifier = TrustRoots [0], alpn_protocols = [ascii ''h2'']\<rparr>,
     no_alpn_config = \<lparr>cert_verifier = TrustRoots [0], alpn_protocols = []\<rparr>\<rparr>"


end
