(* ===== verification/Client_Main.thy ===== *)
theory Client_Main
  imports Client_Provider Client_Fetch
begin

text \<open>
  The browser client as its users see it, \<open>EpoxyClient\<close> of \<open>client/src/lib.rs\<close>: its creation from a transport
  and options, raw connections, and \<open>fetch\<close> through the client it created. Creating the HTTP client itself
  passes the options on to \<open>hyper\<close>.
\<close>

section \<open>Definitions\<close>

text \<open>The protocols offered to the server: with Wisp v2 a random one is added to ask for it.\<close>

definition offered_protocols :: "rstring list \<Rightarrow> rstring \<Rightarrow> bool \<Rightarrow> rstring list" where
  "offered_protocols protocols random wisp_v2 = (if wisp_v2 then protocols @ [random] else protocols)"

record 'a epoxy =
  stream_provider :: "'a StreamProvider"
  fetch_client :: EpoxyClient
  header_limit :: nat
  ws_title_case_headers :: bool
  client_buffer_size :: nat

definition wisp_transport_ok :: "fetch_env \<Rightarrow> js_value \<Rightarrow> unit eres" where
  "wisp_transport_ok fe transport = (case transport of
      JsString wisp_url \<Rightarrow>
        res_bind (ok_or (parse_uri fe wisp_url) (HttpFailed wisp_url)) (\<lambda>u.
          if uri_scheme u \<noteq> Some (ascii ''wss'') \<and> uri_scheme u \<noteq> Some (ascii ''ws'')
          then Err (InvalidUrlScheme (uri_scheme u)) else Ok ())
    | JsFunction \<Rightarrow> Ok ()
    | JsUrl shown \<Rightarrow> Err (InvalidWispTransport shown)
    | JsArrayBuffer d \<Rightarrow> Err (InvalidWispTransport d)
    | JsOther shown \<Rightarrow> Err (InvalidWispTransport shown))"

definition EpoxyClient_new ::
    "bool \<Rightarrow> fetch_env \<Rightarrow> 'a tls_env \<Rightarrow> js_value \<Rightarrow> EpoxyClientOptions \<Rightarrow> 'a epoxy eres" where
  "EpoxyClient_new full fe t transport options =
    res_bind (wisp_transport_ok fe transport) (\<lambda>_.
    res_bind (StreamProvider_new full t options) (\<lambda>sp.
    Ok \<lparr>stream_provider = sp,
        fetch_client = \<lparr>certs_tampered = opt_disable_certificate_validation options
            \<or> (full \<and> opt_pem_files options \<noteq> []),
          redirect_limit = opt_redirect_limit options, user_agent = opt_user_agent options\<rparr>,
        header_limit = opt_header_limit options, ws_title_case_headers = opt_ws_title_case_headers options,
        client_buffer_size = opt_buffer_size options\<rparr>))"

text \<open>Raw connections need a host and a port, and no scheme.\<close>

definition target_of :: "fetch_env \<Rightarrow> js_value \<Rightarrow> (rstring \<times> u16) eres" where
  "target_of fe url =
    res_bind (Uri_try_from (parse_uri fe) url) (\<lambda>u.
    res_bind (ok_or (uri_host u) NoUrlHost) (\<lambda>hst.
    res_bind (ok_or (uri_port u) NoUrlPort) (\<lambda>prt. Ok (hst, prt))))"

definition connect_tcp :: "fetch_env \<Rightarrow> ('st, 'a) dialer \<Rightarrow> js_value \<Rightarrow> 'st HyperIo eres" where
  "connect_tcp fe d url = res_bind (target_of fe url) (\<lambda>(hst, prt).
     res_bind (get_stream d Tcp hst prt) (\<lambda>st. Ok (PlainIo st)))"

definition connect_tls :: "fetch_env \<Rightarrow> ('st, 'a) dialer \<Rightarrow> 'a epoxy \<Rightarrow> js_value \<Rightarrow> 'st HyperIo eres" where
  "connect_tls fe d c url = res_bind (target_of fe url) (\<lambda>(hst, prt).
     res_bind (get_tls_stream d (stream_provider c) hst prt False) (\<lambda>(st, h2). Ok (TlsIo st h2)))"

definition connect_udp :: "fetch_env \<Rightarrow> ('st, 'a) dialer \<Rightarrow> js_value \<Rightarrow> 'st eres" where
  "connect_udp fe d url = res_bind (target_of fe url) (\<lambda>(hst, prt). get_stream d Udp hst prt)"

section \<open>Properties\<close>

text \<open>A client without PEM files and with validation trusts exactly the built-in roots.\<close>

lemma untampered_roots:
  assumes "EpoxyClient_new full fe t transport options = Ok c" "\<not> certs_tampered (fetch_client c)"
  shows "cert_verifier (h2_config (stream_provider c)) = TrustRoots (server_roots t)"
    and "cert_verifier (no_alpn_config (stream_provider c)) = TrustRoots (server_roots t)"
  using assms by (auto simp: EpoxyClient_new_def StreamProvider_new_def split: if_splits)

lemma fetch_result_tampered:
  assumes "fetch_result full fe new_response c x = Ok resp" "certs_tampered c"
    and "header_value_to_str fe (ascii ''true'') = Some (ascii ''true'')"
  shows "map_of (fr_headers resp) (ascii ''x-epoxy-certstampered'') = Some (ascii ''true'')"
proof -
  obtain r u rd where x: "x = (r, u, rd)" by (cases x)
  let ?hs = "header_insert (ascii ''x-epoxy-certstampered'') (ascii ''true'') (rs_headers r)"
  have "fr_headers resp = response_headers fe ?hs"
    using assms(1,2) x by (auto simp: fetch_result_def Let_def split: if_splits)
  moreover have "map_of (response_headers fe ?hs) (ascii ''x-epoxy-certstampered'') = Some (ascii ''true'')"
    using assms(3) by (rule response_headers_insert) (simp add: ascii_def)
  ultimately show ?thesis by simp
qed

text \<open>
  A page can tell when its certificates are not checked against the built-in roots alone: a client whose TLS
  settings trust anything else marks every response it gives.
\<close>

theorem tampering_reported:
  assumes "EpoxyClient_new full fe t transport options = Ok c"
    and "cert_verifier (h2_config (stream_provider c)) \<noteq> TrustRoots (server_roots t)
       \<or> cert_verifier (no_alpn_config (stream_provider c)) \<noteq> TrustRoots (server_roots t)"
    and "fetch full fe answer new_response (fetch_client c) url fopts = (log, Ok resp)"
    and "header_value_to_str fe (ascii ''true'') = Some (ascii ''true'')"
  shows "map_of (fr_headers resp) (ascii ''x-epoxy-certstampered'') = Some (ascii ''true'')"
proof -
  have "certs_tampered (fetch_client c)" using untampered_roots [OF assms(1)] assms(2) by blast
  moreover obtain x where "fetch_result full fe new_response (fetch_client c) x = Ok resp"
    using assms(3) by (auto simp: fetch_def split: res.splits prod.splits)
  ultimately show ?thesis using fetch_result_tampered assms(4) by blast
qed

definition demo_tls :: "nat tls_env" where
  "demo_tls = \<lparr>pem_certs = (\<lambda>_. []), trust_anchor = (\<lambda>_. Ok 1), server_roots = [0], default_versions = Ok ()\<rparr>"

definition demo_epoxy :: "nat epoxy" where
  "demo_epoxy = \<lparr>stream_provider = \<lparr>sp_wisp_v2 = False, sp_udp_extension = False,
       h2_config = \<lparr>cert_verifier = NoCertificateVerification, alpn_protocols = [ascii ''h2'', ascii ''http/1.1'']\<rparr>,
       no_alpn_config = \<lparr>cert_verifier = NoCertificateVerification, alpn_protocols = []\<rparr>\<rparr>,
     fetch_client = \<lparr>certs_tampered = True, redirect_limit = 10, user_agent = opt_user_agent EpoxyClientOptions_default\<rparr>,
     header_limit = 200, ws_title_case_headers = True, client_buffer_size = 16384\<rparr>"

theorem tampering_reported_witness:
  "\<exists>log resp. fetch True (demo_fetch_env\<lparr>parse_uri := (\<lambda>_. Some (demo_uri ''/''))\<rparr>)
      (\<lambda>_ _. Ok \<lparr>rs_status = 200, rs_headers = [], rs_body = [1]\<rparr>) (\<lambda>_. True) (fetch_client demo_epoxy)
      (JsString []) \<lparr>fo_method = None, fo_redirect = None, fo_body = None, fo_headers = None\<rparr> = (log, Ok resp)
    \<and> map_of (fr_headers resp) (ascii ''x-epoxy-certstampered'') = Some (ascii ''true'')"
proof -
  let ?fe = "demo_fetch_env\<lparr>parse_uri := (\<lambda>_. Some (demo_uri ''/''))\<rparr>"
  let ?fetch = "fetch True ?fe (\<lambda>_ _. Ok \<lparr>rs_status = 200, rs_headers = [], rs_body = [1]\<rparr>) (\<lambda>_. True)
      (fetch_client demo_epoxy) (JsString []) \<lparr>fo_method = None, fo_redirect = None, fo_body = None, fo_headers = None\<rparr>"
  have new: "EpoxyClient_new True ?fe demo_tls JsFunction (EpoxyClientOptions_default\<lparr>opt_disable_certificate_validation := True\<rparr>)
      = Ok demo_epoxy"
    by (simp add: EpoxyClient_new_def wisp_transport_ok_def StreamProvider_new_def demo_tls_def demo_epoxy_def
        EpoxyClientOptions_default_def)
  obtain log resp where run: "?fetch = (log, Ok resp)"
    by (simp add: fetch_def fetch_request_def Uri_try_from_def demo_uri_def Let_def ok_or_def demo_fetch_env_def
        request_headers_def base_headers_def needs_length_def body_empty_def send_req_def send_req_inner_def
        is_redirect_def fetch_result_def demo_epoxy_def is_null_body_def header_insert.simps ascii_def
        into_httpbody.simps)
  have "header_value_to_str ?fe (ascii ''true'') = Some (ascii ''true'')" by (simp add: ascii_def)
  from tampering_reported [OF new _ run this] run show ?thesis
    by (simp add: demo_epoxy_def demo_tls_def)
qed

end
