(* ===== verification/Version_Negotiation.thy ===== *)
theory Version_Negotiation
  imports Client_Js Client_Main Server_Http
begin

text \<open>
  How a browser client and the server agree on the version of Wisp, over four components: the client offers websocket
  protocols (\<open>client/src/lib.rs\<close>, \<open>utils/js.rs\<close>), the browser opens the websocket, the server takes any offered
  protocol as a request for Wisp v2 and answers with the header it got (\<open>server/src/route.rs\<close>), and the two
  multiplexors run the handshake of the version they were told (\<open>handle/wisp/mod.rs\<close>, \<open>mux/client.rs\<close>,
  \<open>mux/server.rs\<close>).
\<close>

section \<open>Opening the websocket\<close>

text \<open>
  The browser makes the request for a list of protocols and decides whether the answer opens the websocket;
  \<open>bw_checks\<close> is what it checks of the answer besides the protocol. The laws are those of the websocket standard:
  offered protocols are one header, joined by a comma and a space; an answer must name one of them when there are any,
  and none otherwise.
\<close>

record browser =
  bw_request :: "rstring list \<Rightarrow> Request"
  bw_checks :: "rstring list \<Rightarrow> Response \<Rightarrow> bool"
  bw_opens :: "rstring list \<Rightarrow> Response \<Rightarrow> bool"

fun join_protocols :: "rstring list \<Rightarrow> rstring" where
  "join_protocols [] = []"
| "join_protocols [p] = p"
| "join_protocols (p # ps) = p @ [44, 32] @ join_protocols ps"

abbreviation protocol_header :: rstring where
  "protocol_header \<equiv> str ''sec-websocket-protocol''"

definition browser_laws :: "browser \<Rightarrow> bool" where
  "browser_laws b \<longleftrightarrow> (\<forall>ps. websocket_handshake (bw_request b ps)
       \<and> header_get (req_headers (bw_request b ps)) protocol_header = (if ps = [] then None else Some (join_protocols ps)))
     \<and> (\<forall>ps resp. bw_opens b ps resp \<longleftrightarrow> bw_checks b ps resp
         \<and> (case header_get (resp_headers resp) protocol_header of None \<Rightarrow> ps = [] | Some p \<Rightarrow> p \<in> set ps))"

lemma uuid_no_comma: "44 \<notin> set (ws_protocol random)"
proof
  assume "44 \<in> set (ws_protocol random)"
  then obtain i where i: "i < length (ws_protocol random)" "ws_protocol random ! i = 44"
    by (auto simp: in_set_conv_nth)
  have uuid: "uuid_v4 (ws_protocol random)" by (rule ws_protocol_uuid)
  with i(1) have "i \<in> set [0..<36]" by (simp add: uuid_v4_def)
  with uuid have "i \<in> {8, 13, 18, 23} \<or> hex_lower (ws_protocol random ! i)"
    unfolding uuid_v4_def list_all_iff by blast
  with uuid i(2) show False by (auto simp: uuid_v4_def hex_lower_def)
qed

text \<open>The echo of all offered protocols is one of them only when there is one.\<close>

lemma join_protocols_offered:
  assumes "\<forall>p \<in> set ps. 44 \<notin> set p" "ps \<noteq> []"
  shows "join_protocols ps \<in> set ps \<longleftrightarrow> length ps = 1"
proof (cases ps)
  case (Cons p qs)
  show ?thesis
  proof (cases qs)
    case (Cons q rs)
    have "44 \<in> set (join_protocols ps)" by (simp add: \<open>ps = p # qs\<close> Cons)
    with assms(1) have "join_protocols ps \<notin> set ps" by blast
    then show ?thesis by (simp add: \<open>ps = p # qs\<close> Cons)
  qed (simp add: \<open>ps = p # qs\<close>)
qed (use assms in simp)

text \<open>What the server answers to a proper request below its prefix.\<close>

lemma wisp_request_routed:
  assumes "transport (server cfg) = WebSocket" "websocket_handshake r"
    and "ends_with (req_path r) (wisp_prefix (wisp cfg) @ str ''/'')"
  obtains resp ip where
    "route h pg cfg stats_ep stats r = Ok (Some resp, Some
       (if has_wispnet (wisp cfg) \<and> req_query r = Some (str ''net'') then RouteWispnet
        else RouteWisp (header_get (req_headers r) protocol_header \<noteq> None), ip))"
    "header_get (resp_headers resp) protocol_header = header_get (req_headers r) protocol_header"
proof -
  from assms(2) obtain resp0 where up: "upgrade h r = Ok resp0"
    unfolding websocket_handshake_def using upgrade_Ok_iff [of h r] by blast
  let ?ip = "if use_real_ip_headers (server cfg)
     then (case get_header h (req_headers r) (str ''x-real-ip'') of
         Some x \<Rightarrow> Some x | None \<Rightarrow> get_header h (req_headers r) (str ''x-forwarded-for''))
     else None"
  let ?resp = "case header_get (req_headers r) protocol_header of None \<Rightarrow> resp0
     | Some p \<Rightarrow> resp0\<lparr>resp_headers := resp_headers resp0 @ [(protocol_header, p)]\<rparr>"
  from up have none: "header_get (resp_headers resp0) protocol_header = None"
    by (auto simp: upgrade_def header_get_def str_def split: option.splits if_splits)
  have net: "[] \<noteq> str ''net''" by (simp add: str_def)
  show thesis
  proof (rule that)
    show "route h pg cfg stats_ep stats r = Ok (Some ?resp, Some
       (if has_wispnet (wisp cfg) \<and> req_query r = Some (str ''net'') then RouteWispnet
        else RouteWisp (header_get (req_headers r) protocol_header \<noteq> None), ?ip))"
      using assms up net by (cases "req_query r")
        (auto simp: route_def ws_upgrade_def websocket_handshake_def upgrade_route_def Let_def split: option.split)
    show "header_get (resp_headers ?resp) protocol_header = header_get (req_headers r) protocol_header"
      using none header_get_append [of protocol_header _ "resp_headers resp0" protocol_header]
      by (auto simp: header_append_def split: option.split)
  qed
qed

text \<open>
  C6. Offered protocols reach the server as the request for Wisp v2, and the websocket opens only when there is at most one.
  For a client that offers the protocols of its options, with a random one more for Wisp v2: the server hands the
  connection to the wisp handler (or the wispnet handler where that is enabled and asked for) with v2 requested exactly
  when something was offered; since the answer repeats the whole header, the browser refuses it when two or more protocols were
  offered, so protocols in the options exclude Wisp v2, and more than one of them excludes every connection.
\<close>

theorem protocols_negotiated:
  assumes "browser_laws b" "transport (server cfg) = WebSocket" "\<forall>p \<in> set protocols. 44 \<notin> set p"
    and "ps = offered_protocols protocols (ws_protocol random) v2"
    and "ends_with (req_path (bw_request b ps)) (wisp_prefix (wisp cfg) @ str ''/'')"
  shows "\<exists>resp ip. route h pg cfg stats_ep stats (bw_request b ps) = Ok (Some resp, Some
        (if has_wispnet (wisp cfg) \<and> req_query (bw_request b ps) = Some (str ''net'') then RouteWispnet
         else RouteWisp (v2 \<or> protocols \<noteq> []), ip))
    \<and> (bw_opens b ps resp \<longleftrightarrow>
        bw_checks b ps resp \<and> (protocols = [] \<or> \<not> v2 \<and> length protocols = 1))"
proof -
  have offered: "\<forall>p \<in> set ps. 44 \<notin> set p"
    using assms(3) uuid_no_comma [of random] by (auto simp: assms(4) offered_protocols_def)
  from assms(1) have request: "websocket_handshake (bw_request b ps)"
    and header: "header_get (req_headers (bw_request b ps)) protocol_header = (if ps = [] then None else Some (join_protocols ps))"
    and opens: "bw_opens b ps resp \<longleftrightarrow> bw_checks b ps resp
        \<and> (case header_get (resp_headers resp) protocol_header of None \<Rightarrow> ps = [] | Some p \<Rightarrow> p \<in> set ps)" for resp
    by (simp_all add: browser_laws_def)
  obtain resp ip where routed: "route h pg cfg stats_ep stats (bw_request b ps) = Ok (Some resp, Some
       (if has_wispnet (wisp cfg) \<and> req_query (bw_request b ps) = Some (str ''net'') then RouteWispnet
        else RouteWisp (header_get (req_headers (bw_request b ps)) protocol_header \<noteq> None), ip))"
    and echo: "header_get (resp_headers resp) protocol_header = header_get (req_headers (bw_request b ps)) protocol_header"
    by (rule wisp_request_routed [OF assms(2) request assms(5)])
  have "bw_opens b ps resp \<longleftrightarrow> bw_checks b ps resp \<and> (ps = [] \<or> join_protocols ps \<in> set ps)"
    by (simp add: opens echo header)
  then have "bw_opens b ps resp \<longleftrightarrow> bw_checks b ps resp \<and> length ps \<le> 1"
    using join_protocols_offered [OF offered] by (cases "ps = []") (simp_all add: le_Suc_eq)
  moreover have "length ps \<le> 1 \<longleftrightarrow> protocols = [] \<or> \<not> v2 \<and> length protocols = 1"
    by (auto simp: assms(4) offered_protocols_def le_Suc_eq)
  moreover have "ps \<noteq> [] \<longleftrightarrow> v2 \<or> protocols \<noteq> []" by (simp add: assms(4) offered_protocols_def)
  ultimately show ?thesis using routed header by auto
qed

definition demo_browser :: browser where
  "demo_browser = \<lparr>bw_request = (\<lambda>ps. demo_http_request\<lparr>req_headers := req_headers demo_http_request @
       (if ps = [] then [] else [(protocol_header, join_protocols ps)])\<rparr>),
     bw_checks = (\<lambda>ps resp. status resp = 101),
     bw_opens = (\<lambda>ps resp. status resp = 101 \<and>
       (case header_get (resp_headers resp) protocol_header of None \<Rightarrow> ps = [] | Some p \<Rightarrow> p \<in> set ps))\<rparr>"

lemma header_contains_append:
  "header_contains_value hs n v \<Longrightarrow> header_contains_value (hs @ hs') n v"
  by (auto simp: header_contains_value_def header_get_all_def)

lemma header_get_append_list: "header_get (hs @ hs') n = (case header_get hs n of Some v \<Rightarrow> Some v | None \<Rightarrow> header_get hs' n)"
  by (auto simp: header_get_def map_add_def split: option.split)

lemma demo_http_websocket: "websocket_handshake demo_http_request"
proof -
  have "is_upgrade_request demo_http_request"
    by (simp add: is_upgrade_request_def header_contains_value_def header_get_all_def demo_http_request_def str_def
        eq_ignore_ascii_case_def to_ascii_lowercase_def trim_def trim_start_eq trim_end_eq is_ascii_whitespace_def)
  then show ?thesis by (simp add: websocket_handshake_def demo_http_request_def header_get_def str_def)
qed

lemma demo_browser_laws: "browser_laws demo_browser"
proof -
  have "header_get (req_headers demo_http_request) protocol_header = None"
    by (simp add: demo_http_request_def header_get_def str_def)
  moreover have "websocket_handshake (bw_request demo_browser ps)" for ps
    using demo_http_websocket
    by (auto simp: websocket_handshake_def is_upgrade_request_def demo_browser_def header_contains_append
        header_get_append_list)
  moreover have "header_get [(protocol_header, v)] protocol_header = Some v" for v
    by (simp add: header_get_def)
  ultimately show ?thesis
    by (simp add: browser_laws_def demo_browser_def header_get_append_list)
qed

theorem protocols_negotiated_witness:
  "\<exists>resp ip. route demo_http demo_page demo_config None (Ok [])
        (bw_request demo_browser (offered_protocols [] (ws_protocol (\<lambda>_. 0)) True)) = Ok (Some resp, Some (RouteWisp True, ip))
    \<and> bw_opens demo_browser (offered_protocols [] (ws_protocol (\<lambda>_. 0)) True) resp
        = bw_checks demo_browser (offered_protocols [] (ws_protocol (\<lambda>_. 0)) True) resp"
proof -
  have "transport (server demo_config) = WebSocket" "wisp_prefix (wisp demo_config) = []"
    "\<not> has_wispnet (wisp demo_config)"
    by (simp_all add: demo_config_def wasix_defaults_def Config_default_def Let_def has_wispnet_def)
  moreover have "req_path (bw_request demo_browser ps) = str ''/''" for ps
    by (simp add: demo_browser_def demo_http_request_def)
  ultimately show ?thesis
    using protocols_negotiated [OF demo_browser_laws, of demo_config "[]" _ "\<lambda>_. 0" True demo_http demo_page None "Ok []"]
    by (simp add: ends_with_def)
qed

section \<open>The version of the multiplexors\<close>

abbreviation info_message :: "bytes \<Rightarrow> bytes" where
  "info_message body \<equiv> 5 # put_u32_le 0 @ body"

lemma send_info_cases:
  assumes "send_info_packet cr w bs role = (w', bs', r)"
  shows "(\<nexists>u. r = Ok u) \<and> ws_sent w' = ws_sent w \<or> (\<exists>body. r = Ok () \<and> ws_sent w' = ws_sent w @ [info_message body])"
proof (cases "build_extensions cr role bs")
  case (Pair bs1 x)
  show ?thesis
  proof (cases "res_bind x (\<lambda>exts. InfoPacket_encode \<lparr>version = WISP_VERSION, extensions = exts\<rparr>)")
    case (Ok msg)
    then obtain exts where x: "x = Ok exts" "InfoPacket_encode \<lparr>version = WISP_VERSION, extensions = exts\<rparr> = Ok msg"
      by auto
    from info_message_head [OF x(2)] x Pair assms show ?thesis
      by (auto simp: send_info_packet_def ws_send_def split: option.splits)
  qed (use assms Pair in \<open>auto simp: send_info_packet_def split: res.splits\<close>)
qed

text \<open>The first message of a server that speaks Wisp v2 is its INFO packet.\<close>

lemma server_first_info:
  assumes "server_handshake cs bsize rx w (Some v) = (w', r)"
  shows "(\<nexists>u. r = Ok u) \<and> ws_sent w' = ws_sent w
    \<or> (\<exists>body ms. ws_sent w' = ws_sent w @ info_message body # ms)"
proof (cases "send_info_packet cs w (builders v) Server")
  case (fields w1 bs1 x)
  from send_info_cases [OF this] consider "\<nexists>u. x = Ok u" "ws_sent w1 = ws_sent w"
    | body where "x = Ok ()" "ws_sent w1 = ws_sent w @ [info_message body]" by blast
  then show ?thesis
  proof cases
    case 1
    with assms fields show ?thesis by (cases x) (auto simp: server_handshake_def)
  next
    case 2
    have "\<exists>ms. ws_sent w' = ws_sent w1 @ ms"
      using assms fields 2(1)
      by (auto simp: server_handshake_def ws_send_def Let_def split: prod.splits res.splits option.splits MaybeInfoPacket.splits)
    with 2 show ?thesis by auto
  qed
qed

lemma server_reads_info:
  assumes "server_handshake cs bsize (Ok (info_message body) # rest) w (Some v) = (w', Ok (hs, rx))"
  shows "(\<exists>exts. kind hs = V2 exts) \<and> \<not> downgraded hs \<and> hs_buffer_size hs = bsize
    \<and> (\<exists>si. ws_sent w' = ws_sent w @ [info_message si, Packet_encode (new_continue 0 bsize)])"
proof (cases "send_info_packet cs w (builders v) Server")
  case (fields w1 bs1 x)
  with assms have x: "x = Ok ()" by (cases x) (auto simp: server_handshake_def)
  with send_info_cases [OF fields] obtain si where si: "ws_sent w1 = ws_sent w @ [info_message si]" by auto
  from assms fields x si show ?thesis
    by (auto simp: server_handshake_def MaybeInfoPacket_decode_info res_map_def handle_handshake_def ws_send_def Let_def
        split: prod.splits res.splits option.splits)
qed

lemma client_reads_info:
  assumes "client_handshake cc (Ok (info_message body) # rest) w (Some v) = (w', Ok (hc, rx))"
  shows "(\<exists>exts. kind hc = V2 exts) \<and> \<not> downgraded hc \<and> read_buffer_size rest = Ok (hs_buffer_size hc, rx)
    \<and> (\<exists>ci. ws_sent w' = ws_sent w @ [info_message ci])"
proof -
  obtain bs1 info where dec: "MaybeInfoPacket_decode cc (info_message body) (builders v) Client = (bs1, Ok (MIInfo info))"
    using assms by (auto simp: client_handshake_def MaybeInfoPacket_decode_info res_map_def split: prod.splits res.splits)
  then have run: "client_v2_info cc rest w v bs1 info = (w', Ok (hc, rx))"
    using assms by (simp add: client_handshake_def)
  obtain bs2 u where clo: "closure v bs1 = (bs2, Ok u)"
    using run by (auto simp: client_v2_info_def split: prod.splits res.splits)
  obtain w1 bs3 x where send: "send_info_packet cc w bs2 Client = (w1, bs3, x)" by (metis prod_cases3)
  with run clo have x: "x = Ok ()" by (cases x) (auto simp: client_v2_info_def)
  with send_info_cases [OF send] obtain ci where "ws_sent w1 = ws_sent w @ [info_message ci]" by auto
  with run clo send x show ?thesis by (auto simp: client_v2_info_def handle_handshake_def Let_def)
qed

lemma maybe_info_continue:
  "MaybeInfoPacket_decode cr (Packet_encode (new_continue 0 n)) bs role = (bs, Ok (MIPacket (new_continue 0 n)))"
proof -
  have "Packet_decode (Packet_encode (new_continue 0 n)) = Ok (new_continue 0 n)" by (rule new_continue_decode)
  then show ?thesis
    by (auto simp: MaybeInfoPacket_decode_def Packet_decode_def Packet_encode_eq new_continue_def get_type_def
        split: if_splits)
qed

text \<open>
  C7. The two multiplexors of a client without protocols in its options agree on the version. The client offers a protocol
  exactly when it wants Wisp v2, so the server runs the handshake of version 2 exactly when the client wants it and
  the server's configuration has it (\<open>exts\<close>). When both handshakes succeed on what the other side sent, both speak version 2 in
  that case and version 1 in every other; the client knows that it was downgraded, nobody else was; and both use the
  buffer size of the server.
\<close>

theorem version_agreed:
  assumes server: "server_handshake cs bsize (map Ok cmsgs) ws (if v2 then exts else None) = (ws', Ok (hs, rs))"
    and client: "client_handshake cc (map Ok smsgs) wc (if v2 then Some cv else None) = (wc', Ok (hc, rc))"
    and wire: "ws_sent ws' = ws_sent ws @ smsgs" "ws_sent wc' = ws_sent wc @ first" "cmsgs = first @ later"
  shows "hs_buffer_size hs = bsize \<and> hs_buffer_size hc = bsize \<and> \<not> downgraded hs
    \<and> (downgraded hc \<longleftrightarrow> v2 \<and> exts = None)
    \<and> (if v2 \<and> exts \<noteq> None then (\<exists>se ce. kind hs = V2 se \<and> kind hc = V2 ce)
       else kind hs = V1 None \<and> kind hc = V1 None)"
proof (cases "v2 \<and> exts \<noteq> None")
  case True
  then obtain v where v: "v2" "exts = Some v" by blast
  from server v have server': "server_handshake cs bsize (map Ok cmsgs) ws (Some v) = (ws', Ok (hs, rs))" by simp
  from client v have client': "client_handshake cc (map Ok smsgs) wc (Some cv) = (wc', Ok (hc, rc))" by simp
  from server_first_info [OF server'] wire(1) obtain body ms where sm: "smsgs = info_message body # ms" by auto
  note c = client_reads_info [OF client' [unfolded sm, simplified]]
  then obtain ci where "first = [info_message ci]" using wire(2) by auto
  with wire(3) have cm: "cmsgs = info_message ci # later" by simp
  note sv = server_reads_info [OF server' [unfolded cm, simplified]]
  with wire(1) sm have "ms = [Packet_encode (new_continue 0 bsize)]" by auto
  with c sv v show ?thesis by (auto simp: read_buffer_size_Ok)
next
  case False
  then have none: "(if v2 then exts else None) = None" by auto
  from server [unfolded none] have hs: "hs = \<lparr>kind = V1 None, downgraded = False, hs_buffer_size = bsize\<rparr>"
    "ws_sent ws' = ws_sent ws @ [Packet_encode (new_continue 0 bsize)]"
    by (auto simp: server_handshake_def ws_send_def split: prod.splits option.splits)
  with wire(1) have sm: "smsgs = [Packet_encode (new_continue 0 bsize)]" by simp
  from client [unfolded sm] False hs show ?thesis
    by (cases v2) (auto simp: client_handshake_def read_buffer_size_Ok maybe_info_continue)
qed

theorem version_agreed_witness:
  "\<exists>hs hc. snd (server_handshake demo_crypto 32 [Ok demo_client_info] demo_ws
        (Some (WispV2Handshake_new demo_server_builders))) = Ok (hs, [])
    \<and> snd (client_handshake demo_crypto [Ok demo_server_info, Ok (Packet_encode (new_continue 0 32))]
        demo_ws (Some (WispV2Handshake_new demo_client_builders))) = Ok (hc, [])
    \<and> \<not> downgraded hc \<and> (\<exists>se ce. kind hs = V2 se \<and> kind hc = V2 ce)"
  using version_agreed [of demo_crypto 32 "[demo_client_info]" demo_ws True
      "Some (WispV2Handshake_new demo_server_builders)" _ _ _ demo_crypto
      "[demo_server_info, Packet_encode (new_continue 0 32)]", simplified, OF demo_server_handshake demo_client_handshake]
  unfolding demo_server_handshake demo_client_handshake
  by (simp add: demo_ws_def)

text \<open>
  A client of version 1 that offers a protocol is not served by a server with Wisp v2: the server takes the protocol as
  the request for version 2 and starts with its INFO packet, which a client of version 1 refuses.
\<close>

theorem v1_protocol_refused:
  assumes "server_handshake cs bsize rx ws (Some v) = (ws', r)" "ws_sent ws' = ws_sent ws @ m # ms"
  shows "client_handshake cc (Ok m # later) wc None = (wc, Err (InvalidPacketType 5))"
proof -
  from server_first_info [OF assms(1)] assms(2) obtain body where m: "m = info_message body" by auto
  show ?thesis
    by (simp add: client_handshake_def read_buffer_size_def m Packet_decode_cons PacketType_decode_def)
qed

theorem v1_protocol_refused_witness:
  "client_handshake demo_crypto [Ok demo_server_info] demo_ws None = (demo_ws, Err (InvalidPacketType 5))"
  using v1_protocol_refused [OF demo_server_handshake, of demo_server_info "[Packet_encode (new_continue 0 32)]"
      demo_crypto "[]" demo_ws]
  by (simp add: demo_ws_def)

end
