(* ===== verification/Spec2Isabelle.thy ===== *)
theory Spec2Isabelle
  imports Flow_Control Unfair_Select Server_Forward Server_Stats Server_Http Server_Listener Transports_Split Bench_Client End_To_End Client_Websocket Client_Wrapper Client_Sockets Server_Start Version_Negotiation
begin

text \<open>
  Verification of epoxy-tls: the Wisp protocol library, the server and the clients.

  \<^bold>\<open>The program.\<close> Wisp carries many TCP and UDP streams over one websocket. The library
  (\<open>src/wisp\<close>) has the packet codecs, the protocol extensions with their handshake, the task that
  multiplexes the streams of one connection, and the two halves of a stream. The server
  (\<open>src/server\<close>) accepts websockets, routes each to a wisp, wispnet or wsproxy handler, decides by its
  configuration which upstream a stream may reach, and copies payloads between the two. The browser client
  (\<open>src/client\<close>) opens TCP, TLS and HTTP connections through one multiplexor for a web page, and
  \<open>src/simple-wisp-client\<close> measures a server from the command line.

  \<^bold>\<open>How the parts interact.\<close> The accept loop (\<open>Server_Listener\<close>) gives each socket, of whatever kind (\<open>Server_Socket\<close>), to a task.
  Its requests arrive at \<open>route.rs\<close> (theory \<open>Server_Http\<close>), which upgrades them and hands
  the connection to \<open>handle_wisp\<close> or \<open>handle_wsproxy\<close> (\<open>Server_Wisp\<close>). \<open>handle_wisp\<close> performs the handshake
  (\<open>Handshake\<close>, over \<open>Info_Packet\<close> and \<open>Extensions\<close>) with the settings of \<open>Server_Config\<close> and runs the
  multiplexor task (\<open>Mux_Inner\<close>). The task reads packets (\<open>Packet\<close>) from the transport (\<open>Transports\<close>), merged
  with the requests of its own streams (\<open>Unfair_Select\<close>), queues payloads for the streams
  (\<open>Mux_Stream\<close>) and shares the sink of the transport with them through a lock (\<open>Locked_Sink\<close>). Each new
  stream is resolved against the policy and connected (\<open>Server_Policy\<close>), listed in the table of clients
  (\<open>Server_Clients\<close>), and forwarded (\<open>Server_Forward\<close>). In the browser the requests of a page (\<open>Client_Main\<close>,
  \<open>Client_Fetch\<close>, \<open>Client_Websocket\<close>) get their streams from \<open>Client_Provider\<close>, which keeps one multiplexor over
  the browser's websocket (\<open>Client_Wrapper\<close>) or a transport of the page (\<open>Client_Io\<close>).

  \<^bold>\<open>The theories.\<close>
  \<^item> \<open>Prelude\<close>: outcomes of a call (\<open>Ok\<close>, \<open>Err\<close>, \<open>Panic\<close>), of a poll, byte buffers, UTF-8, saturating and
    checked arithmetic on words.
  \<^item> \<open>Wisp_Types\<close> (\<open>wisp/src/lib.rs\<close>, \<open>ws/mod.rs\<close>): versions, roles, errors.
  \<^item> \<open>Packet\<close>, \<open>Info_Packet\<close> (\<open>packet.rs\<close>): \<open>size_hint\<close>, \<open>encode_into\<close> and \<open>decode\<close> of every packet. The
    lemmas show that the decoder accepts exactly what the encoder writes and inverts it, which
    defect of an input it reports, and that the INFO decoder, which builds extensions while it
    parses, is a parser followed by a builder. The locale \<open>packet_codec\<close> is the trait \<open>PacketCodec\<close>.
  \<^item> \<open>Extensions\<close> (\<open>extensions/\<close>, \<open>twisp.rs\<close>, \<open>wispnet.rs\<close>): the extensions and their builders; password and
    certificate authentication end to end.
  \<^item> \<open>Transports\<close> (\<open>ws/\<close>, \<open>server/src/util_chain.rs\<close>, \<open>util_map_err.rs\<close>): the websocket transports, the
    transports made from asynchronous functions, and the reader that chains the bytes left over
    from the upgrade before the connection. The locales \<open>byte_reader\<close>, \<open>live_reader\<close>, \<open>reader_pair\<close> and
    \<open>live_pair\<close> say what an asynchronous reader promises; the chain keeps both promises.
    \<open>Transports_Split\<close>: the other websocket library, and the halves that share a transport through a mutex.
  \<^item> \<open>Locked_Sink\<close> (\<open>locked_sink.rs\<close>): the asynchronous mutex. \<open>poll_lock\<close>, \<open>unlock\<close> and the list of waiters
    sequentially, and then as an interleaving of their atomic accesses by any number of handles;
    mutual exclusion, absence of lost wake-ups, and the refinement of one by the other.
  \<^item> \<open>Mux_Stream\<close> (\<open>stream/\<close>, \<open>StreamInfo\<close>): the reading and writing halves, their flow control, the
    close handle.
  \<^item> \<open>Mux_Inner\<close> (\<open>mux/inner.rs\<close>, the actors of \<open>client.rs\<close> and \<open>server.rs\<close>): the state of the task is the
    record \<open>MuxInner\<close> with its stream table and an explicit heap for what is shared through \<open>Arc\<close>. The
    invariant of the table over every run, isolation of streams, the effect of each packet, the
    end of the task. The locale \<open>multiplexor_actor\<close> is the trait \<open>MultiplexorActor\<close>.
  \<^item> \<open>Flow_Control\<close>: the credit protocol across the handler and the stream: nothing is lost for a
    peer within its credit, and two ways in which the credit is exceeded.
  \<^item> \<open>Mux_Adaptors\<close> (\<open>stream/compat.rs\<close>, \<open>mux/mod.rs\<close>): streams as readers and writers of bytes, which keep the
    contract of a socket; closing a connection; what a CLOSE does to payloads that were not read.
  \<^item> \<open>Handshake\<close> (\<open>mux/mod.rs\<close>, \<open>client.rs\<close>, \<open>server.rs\<close>): both roles, both versions, downgrading,
    required extensions; the locale \<open>builder_guard\<close> carries an argument about one authentication
    builder through the INFO decoder, for passwords and for certificates.
  \<^item> \<open>Unfair_Select\<close> (\<open>unfair_select.rs\<close>): the merge of two streams.
  \<^item> \<open>Server_Ip\<close>, \<open>Server_Policy\<close> (\<open>server/src/stream.rs\<close>): address classes against the lists of reserved
    blocks; \<open>resolve\<close> against the policy as the documentation states it.
  \<^item> \<open>Server_Config\<close> (\<open>config.rs\<close>, \<open>handle/wisp/utils.rs\<close>): settings, defaults, overrides, port ranges.
  \<^item> \<open>Server_Wisp\<close>, \<open>Server_Forward\<close> (\<open>handle/wisp/\<close>, \<open>handle/wsproxy.rs\<close>): opening connections and
    streams with their close reasons; the copying loops. The locale \<open>forwarder\<close> says what one body of
    a \<open>select!\<close> loop promises, and each of the seven loops is an interpretation.
  \<^item> \<open>Server_Clients\<close>, \<open>Server_Stats\<close> (\<open>main.rs\<close>, \<open>stats.rs\<close> and the handlers): the table of clients and the
    wispnet registry, with the task of every connection and stream cut at its accesses to them;
    a run is any interleaving. What the table lists, and when the statistics can be generated.
  \<^item> \<open>Http_Headers\<close>, \<open>Server_Http\<close> (\<open>route.rs\<close>, \<open>upgrade.rs\<close>): header maps, upgrades, the index page, routing.
  \<^item> \<open>Server_Socket\<close>, \<open>Server_Listener\<close> (\<open>listener.rs\<close>, \<open>main.rs\<close>): the five kinds of stream behind one type, with
    the locales \<open>async_reader\<close>, \<open>async_writer\<close> and \<open>async_socket\<close> for what a stream promises; binding, with the
    steps of threads on one Unix socket interleaved, accepting, the accept loops and what is started.
    \<open>Server_Start\<close> (\<open>main.rs\<close>, \<open>config.rs\<close>): the command line and its formats, the configuration in force and the
    one that is printed.
  \<^item> \<open>Client_Types\<close>, \<open>Client_Provider\<close> (\<open>stream_provider.rs\<close>): errors, options and URLs; TLS settings, the
    multiplexor that concurrent requests share, as a machine of their steps, and the stream for a URL.
  \<^item> \<open>Client_Fetch\<close>, \<open>Client_Main\<close> (\<open>lib.rs\<close>, \<open>utils/\<close>): headers of a request, redirects, responses; the
    creation of a client and raw connections. \<open>Client_Js\<close> (\<open>utils/js.rs\<close>): random protocols and keys as texts, the
    conversion of the body a page gives.
  \<^item> \<open>Client_Websocket\<close>, \<open>Client_Wrapper\<close> (\<open>websocket.rs\<close>, \<open>ws_wrapper.rs\<close>): websockets through the connection, whose
    handshake is run against the server's; the browser's websocket as a transport.
  \<^item> \<open>Client_Io\<close> (\<open>utils/\<close>, \<open>tokioio.rs\<close>, \<open>io_stream.rs\<close>): adaptors between readers, streams of chunks and
    JavaScript. A TLS reader (locale \<open>tls_reader\<close>) that takes a missing close notification for the end is a reader.
    \<open>Client_Sockets\<close>: the adaptors between writers keep the contract of a writer (locale \<open>byte_writer\<close>), down to the DATA
    packets of a plain connection; the verifier without certificates.
  \<^item> \<open>Bench_Client\<close> (\<open>simple-wisp-client/src/main.rs\<close>): options, the connection made for them, the figures.
  \<^item> \<open>End_To_End\<close>: from the writer on one side to the reader on the other, over the packets between them, with arrivals
    and reads in any order (locale \<open>fifo_stream\<close>, for the streams of the server and of the client).
  \<^item> \<open>Version_Negotiation\<close>: how a browser client and the server agree on the version, from the offered websocket
    protocols over the upgrade to the two handshakes.
  \<^item> \<open>Spec2Isabelle\<close>: the policy over every run of the server.

  \<^bold>\<open>Conventions.\<close> Bytes and strings are lists of \<open>8 word\<close>; integers keep their width, and \<open>usize\<close> is \<open>nat\<close>. A
  panic (an index out of range, \<open>unwrap\<close>, \<open>unreachable!\<close>) is the value \<open>Panic\<close>. A method that takes
  \<open>&mut self\<close> returns the new value beside its result. Asynchronous code is cut at the points where
  it can be suspended and shares state, and a run is a list of the steps taken; code whose
  suspensions are not observable is a function of what the awaited operations answer.

  \<^bold>\<open>Parameters.\<close> Other crates are arguments of the definitions, with their documented behaviour as
  named hypotheses: the channels of \<open>flume\<close> (\<open>flume_laws\<close>), signatures, random bytes and bit flags
  (\<open>crypto_laws\<close>), regular expressions, name resolution and the text form of addresses (record \<open>net\<close>,
  \<open>ip_text_law\<close>), sockets and processes (record \<open>os\<close>), URIs, SHA-1, base64 and JSON strings (record
  \<open>http\<close>), reading of key files, the vacant keys of the slab of waiters. For the listener they are the network, files and
  TLS (\<open>listen_env\<close>, \<open>accept_env\<close>); for the clients header and URL parsing (\<open>fetch_env\<close>), certificate stores
  (\<open>tls_env\<close>), connecting (\<open>dialer\<close>), the HTTP client (\<open>answer\<close>), the allocator (\<open>reserve\<close>) and what JavaScript
  functions return (\<open>js_transport\<close>), the browser's \<open>Request\<close> and websockets (\<open>js_request\<close>, \<open>browser_laws\<close>), and what
  \<open>serde\<close> derives (\<open>serde_law\<close>). Every hypothesis has an instance among the witnesses.

  \<^bold>\<open>Bounds and fuel.\<close> Recursion is structural or has a measure everywhere. The measure \<open>fuel\<close> of \<open>live_reader\<close>
  bounds the polls a reader needs; the length of what is left for a cursor, and the number of
  chunks plus bytes for a connection, are enough. The reference parser of escaped HTML and the
  trimming of white space are bounded by the length of their input, which every step shortens.
  Runs of tasks are finite lists of steps; the liveness statements say which step is enabled or
  within how many polls an item is delivered.

  \<^bold>\<open>Findings.\<close> Where the code does not do what it means to, the behaviour is proved as a lemma of the
  component: a packet handled by an extension ends the task, a failed CONNECT keeps the lock, the
  writer can exceed its credit by one packet, the client's credit races with packets in flight, a
  dropped waiter loses its wake-up, a short password payload panics, a v2 server cannot serve a v1
  client, IPv6 link-local addresses count as global, the statistics panic with wispnet streams of
  an unknown type. A CLOSE discards the payloads that were not read yet; one stalled TLS handshake stops the
  accept loop; of several threads on one Unix socket only one can be reached; a client whose multiplexor was
  replaced loses the new one; headers given as a \<open>Headers\<close> object are dropped; messages that arrived before the
  browser's websocket closed are lost; protocols in the options of a client keep it from a server with Wisp v2; on WASI
  the printed default configuration is not the one in force; and others beside the definitions concerned.

  \<^bold>\<open>Not modelled.\<close> The text of a configuration file is written and read by \<open>serde\<close>. Runtimes, threads as
  such, logging and signals are left to their libraries; of the start of the process the command line, the configuration, the
  resolver and the list of tasks are modelled. The sink side of \<open>util_map_err.rs\<close> and the methods by which a whole stream
  (\<open>MuxStream\<close>) passes calls to its halves add nothing; the \<open>AsyncRead\<close> adaptor of a stream comes from \<open>futures\<close>, and
  the streams of JavaScript from \<open>wasm-streams\<close>. Casts between extensions and their type-erased form are the constructors.
  The fixed text of the index page and of the memory statistics is opaque. Speed limits delay and never change a
  payload. The output of the command line client, its signals and timers are not modelled.
\<close>

section \<open>The policy in every run of the server\<close>

text \<open>What a stream that was opened for a request may be.\<close>

definition upstream_ok :: "('r, 'l) world \<Rightarrow> ConnectPacket \<Rightarrow> ClientStream \<Rightarrow> bool" where
  "upstream_ok w p st = (case st of
      TcpStream a pt \<Rightarrow> stream_type p = Tcp \<and> request_permitted (w_net w) (w_cfg w) (w_cache w) p
        \<and> a \<in> set (candidates (w_net w) (w_cfg w) (host p)) \<and> addr_permitted (stream (w_cfg w)) a \<and> pt = port p
    | UdpSocket b a pt \<Rightarrow> stream_type p = Udp \<and> request_permitted (w_net w) (w_cfg w) (w_cache w) p
        \<and> a \<in> set (candidates (w_net w) (w_cfg w) (host p)) \<and> addr_permitted (stream (w_cfg w)) a \<and> pt = port p
    | Pty cmd \<Rightarrow> (\<exists>ty. stream_type p = StreamTypeOther ty \<and> twisp_permitted (w_net w) (w_cfg w) ty)
    | WispnetStream n m \<Rightarrow> is_wispnet (w_cfg w) p
    | StreamNoResolvedAddrs \<Rightarrow> is_wispnet (w_cfg w) p
    | StreamBlocked \<Rightarrow> False
    | StreamInvalid \<Rightarrow> False)"

lemma connect_upstream_ok:
  assumes "ip_text_law (w_net w)" "stream_type p \<in> {Tcp, Udp}" "request_permitted (w_net w) (w_cfg w) (w_cache w) p"
    and "a \<in> set (candidates (w_net w) (w_cfg w) (host p))" "addr_permitted (stream (w_cfg w)) a"
    and "connect (w_net w) (w_os w) (w_cfg w)
      \<lparr>stream_type = stream_type p, host = ip_to_string (w_net w) a, port = port p\<rparr> = Ok st"
  shows "upstream_ok w p st"
  using assms
  by (auto simp: connect_def ip_text_law_def ok_or_def request_permitted_def Let_def upstream_ok_def split: if_splits)

lemma opens_upstream_ok:
  assumes "ip_text_law (w_net w)"
  shows "opens_only w (upstream_ok w)"
  unfolding opens_only_def
proof (intro allI impI)
  fix s p q st
  assume o: "resolve_stream (w_upstream w s) (w_cfg w) (w_cache w) p = Ok (Opened (p, q, st))"
  have sel: "up_net (w_upstream w s) = w_net w" "up_os (w_upstream w s) = w_os w"
    by (simp_all add: w_upstream_def current_upstream_def)
  show "upstream_ok w p st"
  proof (cases "is_wispnet (w_cfg w) p")
    case True
    then show ?thesis
      using o by (auto simp: resolve_stream_def resolve_eq ok_or_def route_wispnet_def upstream_ok_def
          split: option.splits if_splits)
  next
    case False
    show ?thesis
    proof (cases "stream_type p")
      case (StreamTypeOther ty)
      then show ?thesis
        using o False by (auto simp: resolve_stream_other sel upstream_ok_def split: if_splits option.splits)
    qed (use o False in \<open>auto simp: resolve_stream_host sel Let_def intro!: connect_upstream_ok [OF assms]
          split: if_splits list.splits res.splits\<close>)
  qed
qed

text \<open>
  C1. No interleaving of clients gets around the access policy. In every run of the server, whatever connections
  and streams of wisp, wsproxy and wispnet clients interleave and in whichever order names are
  resolved, a stream that is open towards a socket goes to an address that was resolved for the host
  its client asked for, of a permitted class, at the requested and permitted port; a terminal is open
  only where terminals are enabled, and a stream through wispnet only where that is.
\<close>

theorem server_respects_policy:
  assumes "ip_text_law (w_net w)" "srv_run w as srv_init = Some s" "task_at s u = Some t"
    and "st_pc t = StreamOpen p q st \<or> st_pc t = Forwarding p q st"
  shows "upstream_ok w p st"
  using streams_satisfy_run [OF assms(2) streams_satisfy_init opens_upstream_ok [OF assms(1)]] assms(3,4)
  unfolding streams_satisfy_def by blast

theorem server_respects_policy_witness:
  "\<exists>s t. srv_run demo_world demo_run srv_init = Some s \<and> task_at s 7 = Some t
     \<and> upstream_ok demo_world (demo_request ''pub'') (TcpStream (V4 (Ipv4Addr 93 184 215 14)) 8080)"
proof -
  have "ip_text_law (w_net demo_world)" by (simp add: demo_world_def demo_ip_text_law)
  note policy = server_respects_policy [OF this demo_run_state, where u = 7
      and q = "\<lparr>stream_type = Tcp, host = [4, 93, 184, 215, 14], port = 8080\<rparr>"]
  show ?thesis unfolding demo_run_state by (intro exI conjI) (rule refl, simp, rule policy, simp, simp)
qed

end
